theory Spec2Isabelle
  imports Main "HOL-Library.Multiset"
begin

section \<open>MainViewManager: panes, view lists and the split state\<close>

text \<open>
  A shallow embedding of \<^verbatim>\<open>src/view/MainViewManager.js\<close>. The module state (the pane
  registry \<^verbatim>\<open>_paneViews\<close>, \<^verbatim>\<open>_activePaneId\<close>, \<^verbatim>\<open>_orientation\<close>) is an explicit
  record that every function takes and returns; the notifications sent through
  \<^verbatim>\<open>$(exports).triggerHandler\<close> are appended to a log kept in the same record; a
  JavaScript \<^verbatim>\<open>TypeError\<close> is the left injection of a sum.

  The class \<^verbatim>\<open>Pane\<close> (\<^verbatim>\<open>view/Pane.js\<close>) and the collaborators \<^verbatim>\<open>EditorManager\<close>,
  \<^verbatim>\<open>DocumentManager\<close>, \<^verbatim>\<open>ProjectManager\<close> and \<^verbatim>\<open>Strings\<close> are not among the sources.
  The methods of \<^verbatim>\<open>Pane\<close> are modelled from the specification, each marked so; the
  collaborators' answers are parameters, gathered in the record \<open>env\<close>.
\<close>

subsection \<open>Files, documents, collaborators\<close>

type_synonym path = string

datatype fileref = File (fullPath: path)

record document =
  doc_file :: fileref
  isUntitled :: bool

datatype fileError = FileError string

text \<open>
  The answers of the collaborators: \<^verbatim>\<open>EditorManager.canOpenFile\<close> (false for a file that
  needs a custom viewer), \<^verbatim>\<open>DocumentManager.getOpenDocumentForPath\<close>,
  \<^verbatim>\<open>DocumentManager.getDocumentForPath\<close> (its promise, taken at its settled value) and
  \<^verbatim>\<open>ProjectManager.isWithinProject\<close>.
\<close>

record env =
  canOpenFile :: "path \<Rightarrow> bool"
  getOpenDocumentForPath :: "path \<Rightarrow> document option"
  getDocumentForPath :: "path \<Rightarrow> fileError + document"
  isWithinProject :: "path \<Rightarrow> bool"

datatype error = TypeError

text \<open>Sequencing of calls that may throw: the first exception ends the run.\<close>

definition andThen :: "error + 'a \<Rightarrow> ('a \<Rightarrow> error + 'b) \<Rightarrow> error + 'b" where
  "andThen m f = (case m of Inl e \<Rightarrow> Inl e | Inr x \<Rightarrow> f x)"

subsection \<open>The module's constants\<close>

definition ALL_PANES :: string where "ALL_PANES = ''ALL_PANES''"
definition FOCUSED_PANE :: string where "FOCUSED_PANE = ''FOCUSED_PANE''"
definition FIRST_PANE :: string where "FIRST_PANE = ''first-pane''"
definition SECOND_PANE :: string where "SECOND_PANE = ''second-pane''"

datatype orientation = VERTICAL | HORIZONTAL

subsection \<open>Property reads on object literals\<close>

text \<open>
  \<^verbatim>\<open>_paneViews\<close> and \<^verbatim>\<open>_paneTitles\<close> are object literals used as dictionaries. Their own
  properties are an association list in insertion order, the order in which
  \<^verbatim>\<open>_.forEach\<close> and \<^verbatim>\<open>Object.keys\<close> visit them. \<^verbatim>\<open>hasOwnProperty\<close>, \<^verbatim>\<open>_.forEach\<close> and
  \<^verbatim>\<open>delete\<close> see own properties only, but a read \<^verbatim>\<open>obj[key]\<close> also finds what every
  object inherits from \<^verbatim>\<open>Object.prototype\<close>: \<^verbatim>\<open>({})["constructor"]\<close> is a function,
  which is truthy and is not a pane.
\<close>

definition objectPrototypeKeys :: "string list" where
  "objectPrototypeKeys =
     [''constructor'', ''toString'', ''toLocaleString'', ''valueOf'', ''hasOwnProperty'',
      ''isPrototypeOf'', ''propertyIsEnumerable'', ''__proto__'', ''__defineGetter__'',
      ''__defineSetter__'', ''__lookupGetter__'', ''__lookupSetter__'']"

datatype 'a property = Undefined | Own 'a | Inherited

definition hasOwnProperty :: "(string \<times> 'a) list \<Rightarrow> string \<Rightarrow> bool" where
  "hasOwnProperty obj k = (map_of obj k \<noteq> None)"

definition getProperty :: "(string \<times> 'a) list \<Rightarrow> string \<Rightarrow> 'a property" where
  "getProperty obj k =
     (case map_of obj k of
        Some v \<Rightarrow> Own v
      | None \<Rightarrow> if k \<in> set objectPrototypeKeys then Inherited else Undefined)"

definition deleteProperty :: "(string \<times> 'a) list \<Rightarrow> string \<Rightarrow> (string \<times> 'a) list" where
  "deleteProperty obj k = filter (\<lambda>kv. fst kv \<noteq> k) obj"

definition updateProperty :: "string \<Rightarrow> ('a \<Rightarrow> 'a) \<Rightarrow> (string \<times> 'a) list \<Rightarrow> (string \<times> 'a) list" where
  "updateProperty k f obj = map (\<lambda>kv. if fst kv = k then (fst kv, f (snd kv)) else kv) obj"

subsection \<open>The class Pane\<close>

text \<open>
  Modelled from the spec: the class \<^verbatim>\<open>Pane\<close> (\<^verbatim>\<open>view/Pane.js\<close>) is absent. By the
  specification a pane has an identity, owns an ordered list of open file references
  (the view list) with a most-recently-used ordering of the same files, and has at
  most one currently viewed file. Its operations work on its own lists; the batch add
  alone also asks which paths are open in a pane of the registry.
\<close>

record pane =
  pane_id :: string
  viewList :: "fileref list"
  viewListMRUOrder :: "fileref list"
  currentlyViewedFile :: "fileref option"

text \<open>Modelled from the spec: the constructor \<^verbatim>\<open>new Pane(paneId, $container)\<close>; a new pane is empty.\<close>

definition new_Pane :: "string \<Rightarrow> pane" where
  "new_Pane paneId =
     \<lparr>pane_id = paneId, viewList = [], viewListMRUOrder = [], currentlyViewedFile = None\<rparr>"

text \<open>The position of the first file with the given path, \<open>-1\<close> when there is none.\<close>

fun indexOfPath :: "path \<Rightarrow> fileref list \<Rightarrow> int" where
  "indexOfPath fp [] = - 1"
| "indexOfPath fp (f # fs) =
     (if fullPath f = fp then 0
      else (let i = indexOfPath fp fs in if i = - 1 then - 1 else i + 1))"

fun removePath :: "path \<Rightarrow> fileref list \<Rightarrow> fileref list" where
  "removePath fp [] = []"
| "removePath fp (f # fs) = (if fullPath f = fp then fs else f # removePath fp fs)"

text \<open>Modelled from the spec: \<^verbatim>\<open>Pane.getViewList\<close>, the pane's ordered view list (a copy).\<close>

definition getViewList :: "pane \<Rightarrow> fileref list" where
  "getViewList p = viewList p"

text \<open>Modelled from the spec: \<^verbatim>\<open>Pane.getViewListSize\<close>.\<close>

definition getViewListSize :: "pane \<Rightarrow> nat" where
  "getViewListSize p = length (viewList p)"

text \<open>Modelled from the spec: \<^verbatim>\<open>Pane.getCurrentlyViewedFile\<close>.\<close>

definition getCurrentlyViewedFile :: "pane \<Rightarrow> fileref option" where
  "getCurrentlyViewedFile p = currentlyViewedFile p"

text \<open>Modelled from the spec: \<^verbatim>\<open>Pane.findInViewList\<close>, "locate a file's position", \<open>-1\<close> if absent.\<close>

definition findInViewList :: "pane \<Rightarrow> path \<Rightarrow> int" where
  "findInViewList p fp = indexOfPath fp (viewList p)"

text \<open>Modelled from the spec: \<^verbatim>\<open>Pane.findInViewListMRUOrder\<close>, the position under MRU order.\<close>

definition findInViewListMRUOrder :: "pane \<Rightarrow> path \<Rightarrow> int" where
  "findInViewListMRUOrder p fp = indexOfPath fp (viewListMRUOrder p)"

definition indexRequested :: "fileref list \<Rightarrow> int option \<Rightarrow> bool" where
  "indexRequested xs index =
     (case index of None \<Rightarrow> False | Some i \<Rightarrow> 0 \<le> i \<and> i < int (length xs))"

datatype reorderResult = ITEM_NOT_FOUND | ITEM_FOUND_NO_SORT | ITEM_FOUND_NEEDS_SORT

text \<open>
  Modelled from the spec: \<^verbatim>\<open>Pane.reorderItem\<close>. A file that is not in the view list is
  reported as not found; one that is there is moved to the requested position and a
  sort is asked for ("a sort notification if the item existed and only needed
  reordering").
\<close>

definition reorderItem :: "pane \<Rightarrow> fileref \<Rightarrow> int option \<Rightarrow> bool \<Rightarrow> reorderResult \<times> pane" where
  "reorderItem p f index force =
     (let cur = findInViewList p (fullPath f) in
      if cur = - 1 then (ITEM_NOT_FOUND, p)
      else if indexRequested (viewList p) index \<and> index \<noteq> Some cur then
        (let rest = removePath (fullPath f) (viewList p); i = nat (the index)
         in (ITEM_FOUND_NEEDS_SORT, p\<lparr>viewList := take i rest @ [f] @ drop i rest\<rparr>))
      else if force then (ITEM_FOUND_NEEDS_SORT, p)
      else (ITEM_FOUND_NO_SORT, p))"

text \<open>
  Modelled from the spec: \<^verbatim>\<open>Pane.addToViewList\<close>, "insert a file reference at a given
  position (default: append)"; it returns the position. The file becomes the least
  recent entry of the MRU order.
\<close>

definition addToViewList :: "pane \<Rightarrow> fileref \<Rightarrow> int option \<Rightarrow> int \<times> pane" where
  "addToViewList p f index =
     (if indexRequested (viewList p) index then
        (let i = nat (the index)
         in (the index, p\<lparr>viewList := take i (viewList p) @ [f] @ drop i (viewList p),
                           viewListMRUOrder := viewListMRUOrder p @ [f]\<rparr>))
      else (int (length (viewList p)),
            p\<lparr>viewList := viewList p @ [f], viewListMRUOrder := viewListMRUOrder p @ [f]\<rparr>))"

text \<open>
  Modelled from the spec: \<^verbatim>\<open>Pane.addListToViewList\<close>, "same semantics as Add but for
  many files, deduplicated against all panes". It appends, in order, every file of
  the list that has no custom viewer (the comment above \<^verbatim>\<open>addListToPaneViewList\<close>: "If
  a file in the list has its own custom viewer, then it is not added into the pane
  view list"), that is not open in any pane of the registry, and that an earlier
  entry of the same list has not already put into this pane; it returns the files it
  added. The registry belongs to MainViewManager: \<open>openInAPane\<close> is the answer of its
  lookup \<^verbatim>\<open>getPaneIdForPath\<close> when the method is called, the test that
  \<^verbatim>\<open>addToPaneViewList\<close> makes before it inserts.
\<close>

fun addListToViewList ::
    "env \<Rightarrow> (path \<Rightarrow> bool) \<Rightarrow> pane \<Rightarrow> fileref list \<Rightarrow> fileref list \<times> pane" where
  "addListToViewList e openInAPane p [] = ([], p)"
| "addListToViewList e openInAPane p (f # fs) =
     (if canOpenFile e (fullPath f) \<and> \<not> openInAPane (fullPath f) \<and>
         findInViewList p (fullPath f) = - 1 then
        (let r = addListToViewList e openInAPane (snd (addToViewList p f None)) fs
         in (f # fst r, snd r))
      else addListToViewList e openInAPane p fs)"

text \<open>
  Modelled from the spec: \<^verbatim>\<open>Pane.removeFromViewList\<close>, "detach file reference(s) from a
  pane's view list without affecting currently viewed state"; true when the file was
  there.
\<close>

definition removeFromViewList :: "pane \<Rightarrow> fileref \<Rightarrow> bool \<times> pane" where
  "removeFromViewList p f =
     (if findInViewList p (fullPath f) = - 1 then (False, p)
      else (True, p\<lparr>viewList := removePath (fullPath f) (viewList p),
                     viewListMRUOrder := removePath (fullPath f) (viewListMRUOrder p)\<rparr>))"

fun removeFiles :: "pane \<Rightarrow> fileref list \<Rightarrow> fileref list \<times> pane" where
  "removeFiles p [] = ([], p)"
| "removeFiles p (f # fs) =
     (if fst (removeFromViewList p f) then
        (let r = removeFiles (snd (removeFromViewList p f)) fs in (f # fst r, snd r))
      else removeFiles p fs)"

text \<open>
  Modelled from the spec: \<^verbatim>\<open>Pane.removeListFromViewList\<close>. It returns the files it
  removed, and nothing (a falsy value) when it removed none.
\<close>

definition removeListFromViewList :: "pane \<Rightarrow> fileref list \<Rightarrow> fileref list option \<times> pane" where
  "removeListFromViewList p list =
     (let r = removeFiles p list in (if fst r = [] then None else Some (fst r), snd r))"

text \<open>
  Modelled from the spec: \<^verbatim>\<open>Pane.removeAllFromViewList\<close>. It returns the files it
  removed, and nothing (a falsy value) when the list was empty.
\<close>

definition removeAllFromViewList :: "pane \<Rightarrow> fileref list option \<times> pane" where
  "removeAllFromViewList p =
     (if viewList p = [] then (None, p)
      else (Some (viewList p), p\<lparr>viewList := [], viewListMRUOrder := []\<rparr>))"

definition clearCurrentIfIn :: "fileref list \<Rightarrow> pane \<Rightarrow> pane" where
  "clearCurrentIfIn fs p =
     (case currentlyViewedFile p of
        None \<Rightarrow> p
      | Some c \<Rightarrow> if c \<in> set fs then p\<lparr>currentlyViewedFile := None\<rparr> else p)"

text \<open>
  Modelled from the spec: \<^verbatim>\<open>Pane.doRemoveView\<close>, "detach file(s) from whichever pane(s)
  hold them": the file leaves the view list, and the pane shows nothing if it showed
  that file.
\<close>

definition doRemoveView :: "pane \<Rightarrow> fileref \<Rightarrow> pane" where
  "doRemoveView p f = clearCurrentIfIn [f] (snd (removeFromViewList p f))"

text \<open>Modelled from the spec: \<^verbatim>\<open>Pane.doRemoveAllViews\<close>, which empties the pane.\<close>

definition doRemoveAllViews :: "pane \<Rightarrow> pane" where
  "doRemoveAllViews p = p\<lparr>viewList := [], viewListMRUOrder := [], currentlyViewedFile := None\<rparr>"

text \<open>Modelled from the spec: \<^verbatim>\<open>Pane.doRemoveViews\<close>; it returns the files it closed.\<close>

definition doRemoveViews :: "pane \<Rightarrow> fileref list \<Rightarrow> fileref list \<times> pane" where
  "doRemoveViews p fileList =
     (let r = removeFiles p fileList in (fst r, clearCurrentIfIn fileList (snd r)))"

text \<open>
  Modelled from the spec: \<^verbatim>\<open>Pane.makeViewMostRecent\<close>, "move a file to the head of MRU
  order without affecting insertion/manual order".
\<close>

definition makeViewMostRecent :: "pane \<Rightarrow> fileref \<Rightarrow> pane" where
  "makeViewMostRecent p f =
     (if findInViewListMRUOrder p (fullPath f) = - 1 then p
      else p\<lparr>viewListMRUOrder := f # removePath (fullPath f) (viewListMRUOrder p)\<rparr>)"

fun insertBy :: "(fileref \<Rightarrow> fileref \<Rightarrow> int) \<Rightarrow> fileref \<Rightarrow> fileref list \<Rightarrow> fileref list" where
  "insertBy compareFn x [] = [x]"
| "insertBy compareFn x (y # ys) =
     (if compareFn x y \<le> 0 then x # y # ys else y # insertBy compareFn x ys)"

text \<open>
  Modelled from the spec: \<^verbatim>\<open>Pane.sortViewList\<close>, "re-sort manual order via a
  caller-supplied three-way comparison function".
\<close>

definition sortViewList :: "pane \<Rightarrow> (fileref \<Rightarrow> fileref \<Rightarrow> int) \<Rightarrow> pane" where
  "sortViewList p compareFn = p\<lparr>viewList := foldr (insertBy compareFn) (viewList p) []\<rparr>"

text \<open>
  Modelled from the spec: \<^verbatim>\<open>Pane.swapViewListIndexes\<close>, "exchange two manual-order
  positions" (positions of the list; others change nothing).
\<close>

definition swapViewListIndexes :: "pane \<Rightarrow> nat \<Rightarrow> nat \<Rightarrow> pane" where
  "swapViewListIndexes p index1 index2 =
     (if index1 < length (viewList p) \<and> index2 < length (viewList p) then
        p\<lparr>viewList := (viewList p)[index1 := viewList p ! index2, index2 := viewList p ! index1]\<rparr>
      else p)"

text \<open>
  Modelled from the spec: \<^verbatim>\<open>Pane.mergeWith\<close>, "merge second pane's ordered file list
  onto the end of first pane's" ("contents appended, not deduplicated beyond the
  cross-pane uniqueness invariant").
\<close>

definition mergeWith :: "pane \<Rightarrow> pane \<Rightarrow> pane" where
  "mergeWith p other =
     p\<lparr>viewList := viewList p @ viewList other,
       viewListMRUOrder := viewListMRUOrder p @ viewListMRUOrder other\<rparr>"

text \<open>
  Modelled from the spec: \<^verbatim>\<open>Pane.traverseViewListByMRU\<close>, "given a direction (-1
  previous, +1 next), return the file adjacent to the current one in MRU order,
  wrapping; with exactly one file, returns that same file; with zero files, returns
  nothing". No other direction is allowed (the comment above
  \<^verbatim>\<open>traversePaneViewListByMRU\<close>); when the pane shows no file of its list, the most
  recent entry is returned.
\<close>

definition traverseViewListByMRU :: "pane \<Rightarrow> int \<Rightarrow> fileref option" where
  "traverseViewListByMRU p direction =
     (let mru = viewListMRUOrder p; n = int (length mru) in
      if direction \<noteq> 1 \<and> direction \<noteq> - 1 then None
      else if n = 0 then None
      else
        (let i = (case currentlyViewedFile p of
                    None \<Rightarrow> - 1
                  | Some c \<Rightarrow> findInViewListMRUOrder p (fullPath c)) in
         if i = - 1 then Some (mru ! 0)
         else
           (let j = i + direction in
            Some (mru ! nat (if j \<ge> n then 0 else if j < 0 then n - 1 else j)))))"

text \<open>
  Modelled from the spec: \<^verbatim>\<open>EditorManager.doOpenDocument(doc, pane)\<close>, "given a document
  and a pane, attaches an editing surface to that pane's container": the pane then
  shows the document's file.
\<close>

definition EditorManager_doOpenDocument :: "document \<Rightarrow> pane \<Rightarrow> pane" where
  "EditorManager_doOpenDocument doc p = p\<lparr>currentlyViewedFile := Some (doc_file doc)\<rparr>"

subsection \<open>The module state\<close>

datatype event =
    activePaneChange string string
  | currentFileChanged "fileref option" string
  | paneViewListAdd fileref int string
  | paneViewListAddList "fileref list" string
  | paneViewListRemove fileref bool string
  | paneViewListRemoveList "fileref list" string
  | paneViewListSort string
  | paneViewListDisableAutoSorting string
  | paneCreated string
  | paneDestroyed string
  | paneLayoutChange "orientation option"

record state =
  paneViews :: "(string \<times> pane) list"
  activePaneId :: string
  orientation :: "orientation option"
  events :: "event list"

text \<open>\<^verbatim>\<open>$(exports).triggerHandler(name, args)\<close>: the notification joins the log.\<close>

definition triggerHandler :: "event \<Rightarrow> state \<Rightarrow> state" where
  "triggerHandler ev s = s\<lparr>events := events s @ [ev]\<rparr>"

text \<open>
  A pane is an object held by reference: \<open>PaneObj k p\<close> is the pane stored under the
  own key \<open>k\<close> of the registry, with its fields \<open>p\<close> as read; a method that mutates it
  writes the entry \<open>k\<close> back (\<open>setPane\<close>). \<open>NotAPane\<close> is a truthy value inherited from
  \<^verbatim>\<open>Object.prototype\<close>, which has none of a pane's methods.
\<close>

datatype paneRef = Null | PaneObj string pane | NotAPane

definition setPane :: "string \<Rightarrow> pane \<Rightarrow> state \<Rightarrow> state" where
  "setPane k p s = s\<lparr>paneViews := updateProperty k (\<lambda>_. p) (paneViews s)\<rparr>"

definition getActivePaneId :: "state \<Rightarrow> string" where
  "getActivePaneId s = activePaneId s"

definition getSplitOrientation :: "state \<Rightarrow> orientation option" where
  "getSplitOrientation s = orientation s"

definition getPaneFromPaneId :: "state \<Rightarrow> string \<Rightarrow> paneRef" where
  "getPaneFromPaneId s paneId =
     (let paneId' = (if paneId = [] \<or> paneId = FOCUSED_PANE then getActivePaneId s else paneId) in
      case getProperty (paneViews s) paneId' of
        Own p \<Rightarrow> PaneObj paneId' p
      | Inherited \<Rightarrow> NotAPane
      | Undefined \<Rightarrow> Null)"

definition getActivePane :: "state \<Rightarrow> paneRef" where
  "getActivePane s = getPaneFromPaneId s (activePaneId s)"

definition forceFocusToActivePaneView :: "state \<Rightarrow> error + state" where
  "forceFocusToActivePaneView s =
     (case getActivePane s of PaneObj k p \<Rightarrow> Inr s | Null \<Rightarrow> Inl TypeError | NotAPane \<Rightarrow> Inl TypeError)"

definition setActivePaneId :: "string \<Rightarrow> state \<Rightarrow> error + state" where
  "setActivePaneId newPaneId s =
     andThen
       (if hasOwnProperty (paneViews s) newPaneId \<and> newPaneId \<noteq> activePaneId s then
          (let oldPaneId = activePaneId s;
               s1 = s\<lparr>activePaneId := newPaneId\<rparr>;
               s2 = triggerHandler (activePaneChange newPaneId oldPaneId) s1
           in case getActivePane s2 of
                PaneObj k p \<Rightarrow>
                  Inr (triggerHandler (currentFileChanged (getCurrentlyViewedFile p) newPaneId) s2)
              | Null \<Rightarrow> Inl TypeError
              | NotAPane \<Rightarrow> Inl TypeError)
        else Inr s)
       forceFocusToActivePaneView"

text \<open>
  \<^verbatim>\<open>_getPaneIdFromContainer\<close>: the pane whose element is the given container. The DOM
  is not modelled; a container is named by the registry key of the pane that made it.
\<close>

definition getPaneIdFromContainer :: "state \<Rightarrow> string \<Rightarrow> string option" where
  "getPaneIdFromContainer s container =
     (case map_of (paneViews s) container of None \<Rightarrow> None | Some p \<Rightarrow> Some (pane_id p))"

text \<open>
  \<^verbatim>\<open>_activeEditorChange(e, current)\<close>: \<open>current\<close> is the editor that became active, given
  by its container and its file. For a container of no pane \<^verbatim>\<open>newPaneId\<close> is
  \<^verbatim>\<open>undefined\<close>, which \<^verbatim>\<open>hasOwnProperty\<close> reads as the key \<^verbatim>\<open>"undefined"\<close>.
\<close>

definition activeEditorChange :: "(string \<times> fileref) option \<Rightarrow> state \<Rightarrow> error + state" where
  "activeEditorChange current s =
     (case current of
        None \<Rightarrow> Inr s
      | Some c \<Rightarrow>
          (case getPaneIdFromContainer s (fst c) of
             None \<Rightarrow> setActivePaneId ''undefined'' s
           | Some newPaneId \<Rightarrow>
               if newPaneId \<noteq> activePaneId s then setActivePaneId newPaneId s
               else forceFocusToActivePaneView
                      (triggerHandler (currentFileChanged (Some (snd c)) (activePaneId s)) s)))"

text \<open>\<^verbatim>\<open>_.union\<close>: the values of both arrays, each once, in order of first occurrence.\<close>

definition unionJs :: "'a list \<Rightarrow> 'a list \<Rightarrow> 'a list" where
  "unionJs xs ys = rev (remdups (rev (xs @ ys)))"

definition getPaneViewList :: "state \<Rightarrow> string \<Rightarrow> error + fileref list option" where
  "getPaneViewList s paneId =
     (if paneId = ALL_PANES then
        Inr (Some (foldl (\<lambda>result p. unionJs result (getViewList p)) [] (map snd (paneViews s))))
      else
        (case getPaneFromPaneId s paneId of
           PaneObj k p \<Rightarrow> Inr (Some (getViewList p))
         | NotAPane \<Rightarrow> Inl TypeError
         | Null \<Rightarrow> Inr None))"

definition getPaneIdList :: "state \<Rightarrow> string list" where
  "getPaneIdList s = map fst (paneViews s)"

definition getPaneViewListSize :: "state \<Rightarrow> string \<Rightarrow> error + nat" where
  "getPaneViewListSize s paneId =
     (if paneId = ALL_PANES then
        Inr (foldl (\<lambda>result p. result + getViewListSize p) 0 (map snd (paneViews s)))
      else
        (case getPaneFromPaneId s paneId of
           PaneObj k p \<Rightarrow> Inr (0 + getViewListSize p)
         | NotAPane \<Rightarrow> Inl TypeError
         | Null \<Rightarrow> Inr 0))"

text \<open>
  \<^verbatim>\<open>_paneTitles\<close> as the module's initialisation fills it. The inner objects are keyed
  by the values \<^verbatim>\<open>_orientation\<close> takes; for \<^verbatim>\<open>null\<close> they hold nothing. The titles are
  the constants of the absent module \<^verbatim>\<open>Strings\<close>, kept as names.
\<close>

datatype title = LEFT | TOP | RIGHT | BOTTOM

definition paneTitles :: "(string \<times> (orientation \<times> title) list) list" where
  "paneTitles =
     [(FIRST_PANE, [(VERTICAL, LEFT), (HORIZONTAL, TOP)]),
      (SECOND_PANE, [(VERTICAL, RIGHT), (HORIZONTAL, BOTTOM)])]"

text \<open>
  \<^verbatim>\<open>getPaneTitle\<close>: \<^verbatim>\<open>_paneTitles[paneId][_orientation]\<close>. Reading a property of
  \<^verbatim>\<open>undefined\<close> throws; reading one that a value does not have gives \<^verbatim>\<open>undefined\<close>
  (here \<open>None\<close>).
\<close>

definition getPaneTitle :: "state \<Rightarrow> string \<Rightarrow> error + title option" where
  "getPaneTitle s paneId =
     (case getProperty paneTitles paneId of
        Undefined \<Rightarrow> Inl TypeError
      | Own t \<Rightarrow> Inr (case orientation s of None \<Rightarrow> None | Some orient \<Rightarrow> map_of t orient)
      | Inherited \<Rightarrow> Inr None)"

definition getPaneCount :: "state \<Rightarrow> nat" where
  "getPaneCount s = length (map fst (paneViews s))"

text \<open>
  The results of \<^verbatim>\<open>_doFindInViewList\<close>: an index, the record \<^verbatim>\<open>{paneId, index}\<close>, or
  \<^verbatim>\<open>undefined\<close> when the function ends without a \<^verbatim>\<open>return\<close>.
\<close>

datatype findResult = Index int | Info string int | NoResult

fun findInAllPanes :: "(pane \<Rightarrow> path \<Rightarrow> int) \<Rightarrow> pane list \<Rightarrow> path \<Rightarrow> findResult" where
  "findInAllPanes method [] fp = Index (- 1)"
| "findInAllPanes method (p # ps) fp =
     (let index = method p fp in
      if index \<ge> 0 then Info (pane_id p) index else findInAllPanes method ps fp)"

definition doFindInViewList ::
    "state \<Rightarrow> string \<Rightarrow> path \<Rightarrow> (pane \<Rightarrow> path \<Rightarrow> int) \<Rightarrow> error + findResult" where
  "doFindInViewList s paneId fp method =
     (if paneId = ALL_PANES then Inr (findInAllPanes method (map snd (paneViews s)) fp)
      else
        (case getPaneFromPaneId s paneId of
           PaneObj k p \<Rightarrow> Inr (Index (method p fp))
         | NotAPane \<Rightarrow> Inl TypeError
         | Null \<Rightarrow> Inr NoResult))"

definition getCurrentlyViewedFileForPane :: "state \<Rightarrow> string \<Rightarrow> error + fileref option" where
  "getCurrentlyViewedFileForPane s paneId =
     (case getPaneFromPaneId s paneId of
        PaneObj k p \<Rightarrow> Inr (getCurrentlyViewedFile p)
      | NotAPane \<Rightarrow> Inl TypeError
      | Null \<Rightarrow> Inr None)"

definition findInPaneViewList :: "state \<Rightarrow> string \<Rightarrow> path \<Rightarrow> error + findResult" where
  "findInPaneViewList s paneId fp = doFindInViewList s paneId fp findInViewList"

definition findInPaneViewListMRUOrder :: "state \<Rightarrow> string \<Rightarrow> path \<Rightarrow> error + findResult" where
  "findInPaneViewListMRUOrder s paneId fp = doFindInViewList s paneId fp findInViewListMRUOrder"

text \<open>
  \<^verbatim>\<open>getPaneIdForPath\<close>: \<^verbatim>\<open>findInPaneViewList(ALL_PANES, fullPath)\<close> visits panes only and
  cannot throw; the id of the first pane of the registry that holds the path, or
  \<^verbatim>\<open>null\<close>.
\<close>

definition getPaneIdForPath :: "state \<Rightarrow> path \<Rightarrow> string option" where
  "getPaneIdForPath s fp =
     (case findInAllPanes findInViewList (map snd (paneViews s)) fp of
        Info paneId index \<Rightarrow> Some paneId
      | Index i \<Rightarrow> None
      | NoResult \<Rightarrow> None)"

text \<open>The test \<^verbatim>\<open>if (currentPaneId)\<close>: \<^verbatim>\<open>null\<close> and the empty string are falsy.\<close>

definition truthyId :: "string option \<Rightarrow> bool" where
  "truthyId r = (case r of None \<Rightarrow> False | Some i \<Rightarrow> i \<noteq> [])"

subsection \<open>Adding to a pane's view list\<close>

definition addToPaneViewList ::
    "env \<Rightarrow> string \<Rightarrow> fileref \<Rightarrow> int option \<Rightarrow> bool \<Rightarrow> state \<Rightarrow> error + state" where
  "addToPaneViewList e paneId f index force s =
     (case getPaneFromPaneId s paneId of
        Null \<Rightarrow> Inr s
      | NotAPane \<Rightarrow>
          if \<not> canOpenFile e (fullPath f) then Inr s
          else if truthyId (getPaneIdForPath s (fullPath f)) then Inr s
          else Inl TypeError
      | PaneObj k p \<Rightarrow>
          if \<not> canOpenFile e (fullPath f) then Inr s
          else if truthyId (getPaneIdForPath s (fullPath f)) then Inr s
          else
            (let r = reorderItem p f index force in
             if fst r = ITEM_FOUND_NEEDS_SORT then
               Inr (triggerHandler (paneViewListSort (pane_id p)) (setPane k (snd r) s))
             else if fst r = ITEM_NOT_FOUND then
               (let a = addToViewList (snd r) f index in
                Inr (triggerHandler (paneViewListAdd f (fst a) (pane_id p)) (setPane k (snd a) s)))
             else Inr (setPane k (snd r) s)))"

text \<open>
  \<^verbatim>\<open>addListToPaneViewList\<close> hands the whole list to \<^verbatim>\<open>pane.addListToViewList(fileList)\<close>
  and sends one notification with the files that method returns. The lookup that the
  method makes in the registry is the registry as the call finds it.
\<close>

definition addListToPaneViewList :: "env \<Rightarrow> string \<Rightarrow> fileref list \<Rightarrow> state \<Rightarrow> error + state" where
  "addListToPaneViewList e paneId fileList s =
     (case getPaneFromPaneId s paneId of
        Null \<Rightarrow> Inr s
      | NotAPane \<Rightarrow> Inl TypeError
      | PaneObj k p \<Rightarrow>
          (let r = addListToViewList e (\<lambda>fp. truthyId (getPaneIdForPath s fp)) p fileList in
           Inr (triggerHandler (paneViewListAddList (fst r) (pane_id p)) (setPane k (snd r) s))))"

subsection \<open>Removing from a pane's view list\<close>

text \<open>\<^verbatim>\<open>_.forEach(_paneViews, ...)\<close> over calls that take the pane's id.\<close>

fun forEachPaneId ::
    "(string \<Rightarrow> state \<Rightarrow> error + state) \<Rightarrow> string list \<Rightarrow> state \<Rightarrow> error + state" where
  "forEachPaneId body [] s = Inr s"
| "forEachPaneId body (k # ks) s =
     (case body k s of Inl err \<Rightarrow> Inl err | Inr s' \<Rightarrow> forEachPaneId body ks s')"

definition paneIds :: "state \<Rightarrow> string list" where
  "paneIds s = map (\<lambda>kv. pane_id (snd kv)) (paneViews s)"

definition removeFromPaneViewList' :: "string \<Rightarrow> fileref \<Rightarrow> bool \<Rightarrow> state \<Rightarrow> error + state" where
  "removeFromPaneViewList' paneId f suppressRedraw s =
     (case getPaneFromPaneId s paneId of
        Null \<Rightarrow> Inr s
      | NotAPane \<Rightarrow> Inl TypeError
      | PaneObj k p \<Rightarrow>
          (let r = removeFromViewList p f in
           if fst r then
             Inr (triggerHandler (paneViewListRemove f suppressRedraw (pane_id p))
                    (setPane k (snd r) s))
           else Inr s))"

definition removeFromPaneViewList :: "string \<Rightarrow> fileref \<Rightarrow> bool \<Rightarrow> state \<Rightarrow> error + state" where
  "removeFromPaneViewList paneId f suppressRedraw s =
     (if paneId = ALL_PANES then
        forEachPaneId (\<lambda>k. removeFromPaneViewList' k f suppressRedraw) (paneIds s) s
      else removeFromPaneViewList' paneId f suppressRedraw s)"

definition removeListFromPaneViewList' :: "string \<Rightarrow> fileref list \<Rightarrow> state \<Rightarrow> error + state" where
  "removeListFromPaneViewList' paneId list s =
     (case getPaneFromPaneId s paneId of
        Null \<Rightarrow> Inr s
      | NotAPane \<Rightarrow> Inl TypeError
      | PaneObj k p \<Rightarrow>
          (let r = removeListFromViewList p list in
           case fst r of
             None \<Rightarrow> Inr (setPane k (snd r) s)
           | Some fileList \<Rightarrow>
               Inr (triggerHandler (paneViewListRemoveList fileList (pane_id p))
                      (setPane k (snd r) s))))"

definition removeListFromPaneViewList :: "string \<Rightarrow> fileref list \<Rightarrow> state \<Rightarrow> error + state" where
  "removeListFromPaneViewList paneId list s =
     (if paneId = ALL_PANES then
        forEachPaneId (\<lambda>k. removeListFromPaneViewList' k list) (paneIds s) s
      else removeListFromPaneViewList' paneId list s)"

definition removeAllFromPaneViewList' :: "string \<Rightarrow> state \<Rightarrow> error + state" where
  "removeAllFromPaneViewList' paneId s =
     (case getPaneFromPaneId s paneId of
        Null \<Rightarrow> Inr s
      | NotAPane \<Rightarrow> Inl TypeError
      | PaneObj k p \<Rightarrow>
          (let r = removeAllFromViewList p in
           case fst r of
             None \<Rightarrow> Inr (setPane k (snd r) s)
           | Some fileList \<Rightarrow>
               Inr (triggerHandler (paneViewListRemoveList fileList (pane_id p))
                      (setPane k (snd r) s))))"

definition removeAllFromPaneViewList :: "string \<Rightarrow> state \<Rightarrow> error + state" where
  "removeAllFromPaneViewList paneId s =
     (if paneId = ALL_PANES then forEachPaneId removeAllFromPaneViewList' (paneIds s) s
      else removeAllFromPaneViewList' paneId s)"

subsection \<open>Ordering and traversal\<close>

definition makePaneViewMostRecent :: "string \<Rightarrow> fileref \<Rightarrow> state \<Rightarrow> error + state" where
  "makePaneViewMostRecent paneId f s =
     (case getPaneFromPaneId s paneId of
        Null \<Rightarrow> Inr s
      | NotAPane \<Rightarrow> Inl TypeError
      | PaneObj k p \<Rightarrow> Inr (setPane k (makeViewMostRecent p f) s))"

definition sortPaneViewList ::
    "string \<Rightarrow> (fileref \<Rightarrow> fileref \<Rightarrow> int) \<Rightarrow> state \<Rightarrow> error + state" where
  "sortPaneViewList paneId compareFn s =
     (case getPaneFromPaneId s paneId of
        Null \<Rightarrow> Inr s
      | NotAPane \<Rightarrow> Inl TypeError
      | PaneObj k p \<Rightarrow>
          Inr (triggerHandler (paneViewListSort (pane_id p)) (setPane k (sortViewList p compareFn) s)))"

definition swapPaneViewListIndexes :: "string \<Rightarrow> nat \<Rightarrow> nat \<Rightarrow> state \<Rightarrow> error + state" where
  "swapPaneViewListIndexes paneId index1 index2 s =
     (case getPaneFromPaneId s paneId of
        Null \<Rightarrow> Inr s
      | NotAPane \<Rightarrow> Inl TypeError
      | PaneObj k p \<Rightarrow>
          Inr (triggerHandler (paneViewListDisableAutoSorting (pane_id p))
                 (triggerHandler (paneViewListSort (pane_id p))
                    (setPane k (swapViewListIndexes p index1 index2) s))))"

definition traversePaneViewListByMRU :: "state \<Rightarrow> string \<Rightarrow> int \<Rightarrow> error + fileref option" where
  "traversePaneViewListByMRU s paneId direction =
     (case getPaneFromPaneId s paneId of
        PaneObj k p \<Rightarrow> Inr (traverseViewListByMRU p direction)
      | NotAPane \<Rightarrow> Inl TypeError
      | Null \<Rightarrow> Inr None)"

subsection \<open>Opening and closing documents\<close>

text \<open>
  \<^verbatim>\<open>doEdit\<close> and \<^verbatim>\<open>doOpen\<close> start alike: when some pane already holds the path, that
  pane replaces the requested one and is made active. \<open>doEditIn\<close> and \<open>doOpenIn\<close> are
  the rest of each body, run with the pane id so settled.
\<close>

definition doEditIn :: "env \<Rightarrow> string \<Rightarrow> document \<Rightarrow> state \<Rightarrow> error + state" where
  "doEditIn e paneId doc s1 =
     (case getPaneFromPaneId s1 paneId of
        Null \<Rightarrow> Inr s1
      | NotAPane \<Rightarrow>
          andThen
            (if isUntitled doc \<or> \<not> isWithinProject e (fullPath (doc_file doc)) then
               addToPaneViewList e paneId (doc_file doc) None False s1
             else Inr s1)
            (\<lambda>s2. Inl TypeError)
      | PaneObj k p \<Rightarrow>
          andThen
            (if isUntitled doc \<or> \<not> isWithinProject e (fullPath (doc_file doc)) then
               addToPaneViewList e paneId (doc_file doc) None False s1
             else Inr s1)
            (\<lambda>s2.
               let s3 = s2\<lparr>paneViews :=
                          updateProperty k (EditorManager_doOpenDocument doc) (paneViews s2)\<rparr>;
                   s4 = (if pane_id p = activePaneId s3 then
                           triggerHandler (currentFileChanged (Some (doc_file doc)) (pane_id p)) s3
                         else s3)
               in makePaneViewMostRecent paneId (doc_file doc) s4))"

definition doEdit :: "env \<Rightarrow> string \<Rightarrow> document \<Rightarrow> state \<Rightarrow> error + state" where
  "doEdit e paneId doc s =
     (case getPaneIdForPath s (fullPath (doc_file doc)) of
        None \<Rightarrow> doEditIn e paneId doc s
      | Some currentPaneId \<Rightarrow>
          if currentPaneId \<noteq> [] then
            andThen (setActivePaneId currentPaneId s) (doEditIn e currentPaneId doc)
          else doEditIn e paneId doc s)"

text \<open>
  What the deferred of \<^verbatim>\<open>doOpen\<close> settles to: rejected with a diagnostic string or
  with the loader's error, or resolved with the document.
\<close>

datatype rejection = Diagnostic string | LoadFailure fileError

datatype openResult = Rejected rejection | Resolved document

definition doOpenIn :: "env \<Rightarrow> string \<Rightarrow> fileref \<Rightarrow> state \<Rightarrow> error + (openResult \<times> state)" where
  "doOpenIn e paneId f s1 =
     (case getOpenDocumentForPath e (fullPath f) of
        Some doc \<Rightarrow> andThen (doEdit e paneId doc s1) (\<lambda>s2. Inr (Resolved doc, s2))
      | None \<Rightarrow>
          if canOpenFile e (fullPath f) then
            (case getDocumentForPath e (fullPath f) of
               Inr doc \<Rightarrow> andThen (doEdit e paneId doc s1) (\<lambda>s2. Inr (Resolved doc, s2))
             | Inl fileErr \<Rightarrow> Inr (Rejected (LoadFailure fileErr), s1))
          else
            Inr (Rejected (Diagnostic
                   ''custom viewers not yet implemented with split view. check back later.''),
                 s1))"

definition doOpen :: "env \<Rightarrow> string \<Rightarrow> fileref option \<Rightarrow> state \<Rightarrow> error + (openResult \<times> state)" where
  "doOpen e paneId fileArg s =
     (case fileArg of
        None \<Rightarrow> Inr (Rejected (Diagnostic ''bad argument''), s)
      | Some f \<Rightarrow>
          (case getPaneIdForPath s (fullPath f) of
             None \<Rightarrow> doOpenIn e paneId f s
           | Some currentPaneId \<Rightarrow>
               if currentPaneId \<noteq> [] then
                 andThen (setActivePaneId currentPaneId s) (doOpenIn e currentPaneId f)
               else doOpenIn e paneId f s))"

definition doClose :: "string \<Rightarrow> fileref \<Rightarrow> state \<Rightarrow> error + state" where
  "doClose paneId f s =
     (let target =
        (if paneId = ALL_PANES then
           (case findInAllPanes findInViewList (map snd (paneViews s)) (fullPath f) of
              Info infoPaneId index \<Rightarrow> Some infoPaneId
            | Index i \<Rightarrow> None
            | NoResult \<Rightarrow> None)
         else Some paneId) in
      case target of
        None \<Rightarrow> Inr s
      | Some paneId' \<Rightarrow>
          (case getPaneFromPaneId s paneId' of
             Null \<Rightarrow> Inl TypeError
           | NotAPane \<Rightarrow> Inl TypeError
           | PaneObj k p \<Rightarrow>
               (let dispatchEvent = (findInViewList p (fullPath f) \<noteq> - 1);
                    s1 = setPane k (doRemoveView p f) s
                in if dispatchEvent then
                     Inr (triggerHandler (paneViewListRemove f False (pane_id p)) s1)
                   else Inr s1)))"

text \<open>The bodies of the two loops of \<^verbatim>\<open>doCloseAll\<close> and \<^verbatim>\<open>doCloseList\<close>, on the pane object itself.\<close>

definition closeAllIn :: "string \<Rightarrow> pane \<Rightarrow> state \<Rightarrow> state" where
  "closeAllIn k p s =
     (let fileList = getViewList p in
      triggerHandler (paneViewListRemoveList fileList (pane_id p)) (setPane k (doRemoveAllViews p) s))"

definition closeListIn :: "fileref list \<Rightarrow> string \<Rightarrow> pane \<Rightarrow> state \<Rightarrow> state" where
  "closeListIn fileList k p s =
     (let r = doRemoveViews p fileList in
      triggerHandler (paneViewListRemoveList (fst r) (pane_id p)) (setPane k (snd r) s))"

definition doCloseAll :: "string \<Rightarrow> state \<Rightarrow> error + state" where
  "doCloseAll paneId s =
     (if paneId = ALL_PANES then Inr (foldl (\<lambda>s' kv. closeAllIn (fst kv) (snd kv) s') s (paneViews s))
      else
        (case getPaneFromPaneId s paneId of
           Null \<Rightarrow> Inl TypeError
         | NotAPane \<Rightarrow> Inl TypeError
         | PaneObj k p \<Rightarrow> Inr (closeAllIn k p s)))"

definition doCloseList :: "string \<Rightarrow> fileref list \<Rightarrow> state \<Rightarrow> error + state" where
  "doCloseList paneId fileList s =
     (if paneId = ALL_PANES then
        Inr (foldl (\<lambda>s' kv. closeListIn fileList (fst kv) (snd kv) s') s (paneViews s))
      else
        (case getPaneFromPaneId s paneId of
           Null \<Rightarrow> Inl TypeError
         | NotAPane \<Rightarrow> Inl TypeError
         | PaneObj k p \<Rightarrow> Inr (closeListIn fileList k p s)))"

subsection \<open>Creating panes, splitting and unsplitting\<close>

definition createPaneIfNecessary :: "string \<Rightarrow> state \<Rightarrow> state" where
  "createPaneIfNecessary paneId s =
     (if \<not> hasOwnProperty (paneViews s) paneId then
        (let p = new_Pane paneId in
         triggerHandler (paneCreated (pane_id p)) (s\<lparr>paneViews := paneViews s @ [(paneId, p)]\<rparr>))
      else s)"

definition doUnsplit :: "state \<Rightarrow> error + state" where
  "doUnsplit s =
     (if hasOwnProperty (paneViews s) SECOND_PANE then
        (case getProperty (paneViews s) FIRST_PANE of
           Undefined \<Rightarrow> Inl TypeError
         | Inherited \<Rightarrow> Inl TypeError
         | Own firstPane \<Rightarrow>
             (case getProperty (paneViews s) SECOND_PANE of
                Undefined \<Rightarrow> Inl TypeError
              | Inherited \<Rightarrow> Inl TypeError
              | Own secondPane \<Rightarrow>
                  (let fileList = getViewList secondPane;
                       s1 = setPane FIRST_PANE (mergeWith firstPane secondPane) s;
                       s2 = triggerHandler (paneViewListRemoveList fileList (pane_id secondPane)) s1
                   in andThen (setActivePaneId (pane_id firstPane) s2)
                        (\<lambda>s3.
                           let s4 = s3\<lparr>paneViews := deleteProperty (paneViews s3) SECOND_PANE\<rparr>;
                               s5 = triggerHandler (paneDestroyed (pane_id secondPane)) s4;
                               s6 = triggerHandler (paneViewListAddList fileList (pane_id firstPane)) s5;
                               s7 = s6\<lparr>orientation := None\<rparr>
                           in Inr (triggerHandler (paneLayoutChange (orientation s7)) s7)))))
      else Inr s)"

definition doSplit :: "orientation \<Rightarrow> state \<Rightarrow> state" where
  "doSplit orient s =
     (let s1 = createPaneIfNecessary SECOND_PANE s;
          s2 = s1\<lparr>orientation := Some orient\<rparr>
      in triggerHandler (paneLayoutChange (orientation s2)) s2)"

definition handleSplitVertically :: "state \<Rightarrow> error + state" where
  "handleSplitVertically s =
     (if orientation s = Some VERTICAL then doUnsplit s else Inr (doSplit VERTICAL s))"

definition handleSplitHorizontially :: "state \<Rightarrow> error + state" where
  "handleSplitHorizontially s =
     (if orientation s = Some HORIZONTAL then doUnsplit s else Inr (doSplit HORIZONTAL s))"

subsection \<open>The initial state and the reachable states\<close>

text \<open>
  The state when the module has been loaded, and the state after \<^verbatim>\<open>AppInit.htmlReady\<close>
  has created the first pane, from which the application runs.
\<close>

definition module_state :: state where
  "module_state = \<lparr>paneViews = [], activePaneId = FIRST_PANE, orientation = None, events = []\<rparr>"

definition init_state :: state where
  "init_state = createPaneIfNecessary FIRST_PANE module_state"

text \<open>
  The calls that change the module state: the exported functions, the two split
  commands and the handler of \<^verbatim>\<open>activeEditorChange\<close> (a click on a pane is
  \<^verbatim>\<open>setActivePaneId\<close> with that pane's id).
\<close>

datatype op =
    AddToPaneViewList string fileref "int option" bool
  | AddListToPaneViewList string "fileref list"
  | RemoveFromPaneViewList string fileref bool
  | RemoveListFromPaneViewList string "fileref list"
  | RemoveAllFromPaneViewList string
  | MakePaneViewMostRecent string fileref
  | SortPaneViewList string "fileref \<Rightarrow> fileref \<Rightarrow> int"
  | SwapPaneViewListIndexes string nat nat
  | SetActivePaneId string
  | ActiveEditorChange "(string \<times> fileref) option"
  | DoEdit string document
  | DoOpen string "fileref option"
  | DoClose string fileref
  | DoCloseAll string
  | DoCloseList string "fileref list"
  | HandleSplitVertically
  | HandleSplitHorizontially

fun exec :: "env \<Rightarrow> op \<Rightarrow> state \<Rightarrow> error + state" where
  "exec e (AddToPaneViewList paneId f index force) s = addToPaneViewList e paneId f index force s"
| "exec e (AddListToPaneViewList paneId fileList) s = addListToPaneViewList e paneId fileList s"
| "exec e (RemoveFromPaneViewList paneId f suppressRedraw) s =
     removeFromPaneViewList paneId f suppressRedraw s"
| "exec e (RemoveListFromPaneViewList paneId list) s = removeListFromPaneViewList paneId list s"
| "exec e (RemoveAllFromPaneViewList paneId) s = removeAllFromPaneViewList paneId s"
| "exec e (MakePaneViewMostRecent paneId f) s = makePaneViewMostRecent paneId f s"
| "exec e (SortPaneViewList paneId compareFn) s = sortPaneViewList paneId compareFn s"
| "exec e (SwapPaneViewListIndexes paneId index1 index2) s =
     swapPaneViewListIndexes paneId index1 index2 s"
| "exec e (SetActivePaneId newPaneId) s = setActivePaneId newPaneId s"
| "exec e (ActiveEditorChange current) s = activeEditorChange current s"
| "exec e (DoEdit paneId doc) s = doEdit e paneId doc s"
| "exec e (DoOpen paneId fileArg) s = andThen (doOpen e paneId fileArg s) (\<lambda>r. Inr (snd r))"
| "exec e (DoClose paneId f) s = doClose paneId f s"
| "exec e (DoCloseAll paneId) s = doCloseAll paneId s"
| "exec e (DoCloseList paneId fileList) s = doCloseList paneId fileList s"
| "exec e HandleSplitVertically s = handleSplitVertically s"
| "exec e HandleSplitHorizontially s = handleSplitHorizontially s"

text \<open>
  A state is reachable when calls that return lead to it from the initial state; the
  collaborators may answer differently at each call. A call that throws is no step: in
  a reachable state every exception above is raised before the first assignment of
  the call.
\<close>

inductive reachable :: "state \<Rightarrow> bool" where
  reachable_init: "reachable init_state"
| reachable_step: "reachable s \<Longrightarrow> exec e c s = Inr s' \<Longrightarrow> reachable s'"

text \<open>
  Running a sequence of calls, each with the collaborators' answers at that moment; an
  exception ends the run.
\<close>

fun run :: "(env \<times> op) list \<Rightarrow> state \<Rightarrow> error + state" where
  "run [] s = Inr s"
| "run (c # cs) s = (case exec (fst c) (snd c) s of Inl err \<Rightarrow> Inl err | Inr s' \<Rightarrow> run cs s')"

text \<open>The panes of the registry whose view list holds a file with the given path.\<close>

definition panesHolding :: "state \<Rightarrow> path \<Rightarrow> string list" where
  "panesHolding s fp = map fst (filter (\<lambda>kv. findInViewList (snd kv) fp \<noteq> - 1) (paneViews s))"

subsection \<open>Well-formed states\<close>

text \<open>
  In a well-formed state every pane is stored under its own id, the registry holds the
  first pane alone or the first pane followed by the second, and the active pane id is
  a key of the registry.
\<close>

definition idsMatch :: "state \<Rightarrow> bool" where
  "idsMatch s = list_all (\<lambda>kv. pane_id (snd kv) = fst kv) (paneViews s)"

definition wf_state :: "state \<Rightarrow> bool" where
  "wf_state s =
     (idsMatch s \<and>
      (map fst (paneViews s) = [FIRST_PANE] \<or> map fst (paneViews s) = [FIRST_PANE, SECOND_PANE]) \<and>
      activePaneId s \<in> set (map fst (paneViews s)))"

text \<open>
  Two states have the same shape when the registry has the same keys and pane ids in
  the same order, and the active pane id is the old one or a key of the registry.
\<close>

definition shape :: "state \<Rightarrow> state \<Rightarrow> bool" where
  "shape s s' =
     (map (\<lambda>kv. (fst kv, pane_id (snd kv))) (paneViews s') =
        map (\<lambda>kv. (fst kv, pane_id (snd kv))) (paneViews s) \<and>
      (activePaneId s' = activePaneId s \<or> activePaneId s' \<in> set (map fst (paneViews s'))))"

text \<open>The view list stored under a key of the registry (empty when there is no such pane).\<close>

definition viewListOf :: "state \<Rightarrow> string \<Rightarrow> fileref list" where
  "viewListOf s k = (case map_of (paneViews s) k of None \<Rightarrow> [] | Some p \<Rightarrow> viewList p)"

text \<open>Every pane's view list, by key, in registry order.\<close>

definition viewLists :: "state \<Rightarrow> (string \<times> fileref list) list" where
  "viewLists s = map (\<lambda>kv. (fst kv, viewList (snd kv))) (paneViews s)"

text \<open>No path is held by the view lists of two panes of the registry.\<close>

definition uniqueHolding :: "state \<Rightarrow> bool" where
  "uniqueHolding s = (\<forall>fp. length (panesHolding s fp) \<le> 1)"

text \<open>
  The registry of \<open>s'\<close> has the keys of the registry of \<open>s\<close>, and under each key a view
  list that holds no file that the view list of \<open>s\<close> under that key does not hold.
\<close>

definition narrows :: "state \<Rightarrow> state \<Rightarrow> bool" where
  "narrows s s' =
     list_all2 (\<lambda>a b. fst b = fst a \<and> set (viewList (snd b)) \<subseteq> set (viewList (snd a)))
       (paneViews s) (paneViews s')"

text \<open>
  The contract of the document collaborators that \<^verbatim>\<open>doOpen\<close> relies on: the document
  they give for a path is a document of the file with that path.
\<close>

definition documentsKeepPath :: "env \<Rightarrow> bool" where
  "documentsKeepPath e =
     (\<forall>fp d. (getOpenDocumentForPath e fp = Some d \<longrightarrow> fullPath (doc_file d) = fp) \<and>
             (getDocumentForPath e fp = Inr d \<longrightarrow> fullPath (doc_file d) = fp))"

text \<open>
  A pane whose MRU order is an ordering of its view list, which holds no file twice.
\<close>

definition validPane :: "pane \<Rightarrow> bool" where
  "validPane p = (mset (viewListMRUOrder p) = mset (viewList p) \<and> distinct (viewList p))"

subsection \<open>Example states and collaborators\<close>

text \<open>
  Collaborators for which every file can be edited, no document is open yet, every
  load succeeds, and no path lies in the project.
\<close>

definition example_env :: env where
  "example_env =
     \<lparr>canOpenFile = (\<lambda>fp. True),
      getOpenDocumentForPath = (\<lambda>fp. None),
      getDocumentForPath = (\<lambda>fp. Inr \<lparr>doc_file = File fp, isUntitled = False\<rparr>),
      isWithinProject = (\<lambda>fp. False)\<rparr>"

text \<open>Collaborators for which every file needs a custom viewer and no document is open.\<close>

definition viewer_env :: env where
  "viewer_env =
     \<lparr>canOpenFile = (\<lambda>fp. False),
      getOpenDocumentForPath = (\<lambda>fp. None),
      getDocumentForPath = (\<lambda>fp. Inl (FileError ''NotFound'')),
      isWithinProject = (\<lambda>fp. True)\<rparr>"

text \<open>
  The state after the file \<^verbatim>\<open>/a.js\<close> has been added to the first pane, the editor has
  been split vertically, \<^verbatim>\<open>/d.js\<close> has been added to the second pane and the second
  pane has been made active.
\<close>

definition split_calls :: "(env \<times> op) list" where
  "split_calls =
     [(example_env, AddToPaneViewList FIRST_PANE (File ''/a.js'') None False),
      (example_env, HandleSplitVertically),
      (example_env, AddToPaneViewList SECOND_PANE (File ''/d.js'') None False),
      (example_env, SetActivePaneId SECOND_PANE)]"

definition split_state :: state where
  "split_state =
     \<lparr>paneViews =
        [(FIRST_PANE, \<lparr>pane_id = FIRST_PANE, viewList = [File ''/a.js''],
                        viewListMRUOrder = [File ''/a.js''], currentlyViewedFile = None\<rparr>),
         (SECOND_PANE, \<lparr>pane_id = SECOND_PANE, viewList = [File ''/d.js''],
                         viewListMRUOrder = [File ''/d.js''], currentlyViewedFile = None\<rparr>)],
      activePaneId = SECOND_PANE,
      orientation = Some VERTICAL,
      events =
        [paneCreated FIRST_PANE,
         paneViewListAdd (File ''/a.js'') 0 FIRST_PANE,
         paneCreated SECOND_PANE,
         paneLayoutChange (Some VERTICAL),
         paneViewListAdd (File ''/d.js'') 0 SECOND_PANE,
         activePaneChange SECOND_PANE FIRST_PANE,
         currentFileChanged None SECOND_PANE]\<rparr>"

text \<open>
  The state after the calls above and a batch added to the second pane that holds
  \<^verbatim>\<open>/a.js\<close>, which the first pane has, \<^verbatim>\<open>/e.js\<close>, and \<^verbatim>\<open>/e.js\<close> once more.
\<close>

definition batch_calls :: "(env \<times> op) list" where
  "batch_calls =
     split_calls @
     [(example_env,
       AddListToPaneViewList SECOND_PANE [File ''/a.js'', File ''/e.js'', File ''/e.js''])]"

definition batch_state :: state where
  "batch_state =
     \<lparr>paneViews =
        [(FIRST_PANE, \<lparr>pane_id = FIRST_PANE, viewList = [File ''/a.js''],
                        viewListMRUOrder = [File ''/a.js''], currentlyViewedFile = None\<rparr>),
         (SECOND_PANE, \<lparr>pane_id = SECOND_PANE, viewList = [File ''/d.js'', File ''/e.js''],
                         viewListMRUOrder = [File ''/d.js'', File ''/e.js''],
                         currentlyViewedFile = None\<rparr>)],
      activePaneId = SECOND_PANE,
      orientation = Some VERTICAL,
      events = events split_state @ [paneViewListAddList [File ''/e.js''] SECOND_PANE]\<rparr>"

text \<open>
  The example of the specification: the first pane holds \<^verbatim>\<open>A\<close>, \<^verbatim>\<open>B\<close>, \<^verbatim>\<open>C\<close> in this
  order, and \<^verbatim>\<open>B\<close> has been made the most recent and is the file shown.
\<close>

definition mru_pane :: pane where
  "mru_pane =
     \<lparr>pane_id = FIRST_PANE,
      viewList = [File ''/A'', File ''/B'', File ''/C''],
      viewListMRUOrder = [File ''/B'', File ''/A'', File ''/C''],
      currentlyViewedFile = Some (File ''/B'')\<rparr>"

definition mru_state :: state where
  "mru_state =
     \<lparr>paneViews = [(FIRST_PANE, mru_pane)], activePaneId = FIRST_PANE, orientation = None,
      events = []\<rparr>"

section \<open>Properties\<close>

subsection \<open>Lists of files\<close>

lemma indexOfPath_ge: "indexOfPath fp fs \<ge> - 1"
  by (induction fs) (auto simp: Let_def)

lemma indexOfPath_none: "(indexOfPath fp fs = - 1) = (fp \<notin> fullPath ` set fs)"
proof (induction fs)
  case Nil
  then show ?case by simp
next
  case (Cons f fs)
  have "indexOfPath fp fs \<ge> - 1" by (rule indexOfPath_ge)
  with Cons show ?case by (auto simp: Let_def)
qed

lemma indexOfPath_found:
  "indexOfPath fp fs \<noteq> - 1 \<Longrightarrow>
     0 \<le> indexOfPath fp fs \<and> nat (indexOfPath fp fs) < length fs \<and>
     fullPath (fs ! nat (indexOfPath fp fs)) = fp"
proof (induction fs)
  case Nil
  then show ?case by simp
next
  case (Cons f fs)
  show ?case
  proof (cases "fullPath f = fp")
    case True
    then show ?thesis by simp
  next
    case False
    with Cons.prems have ne: "indexOfPath fp fs \<noteq> - 1" by (auto simp: Let_def split: if_splits)
    from Cons.IH [OF ne] False ne show ?thesis
      by (auto simp: Let_def nat_add_distrib)
  qed
qed

lemma pane_id_addToViewList [simp]: "pane_id (snd (addToViewList p f index)) = pane_id p"
  by (simp add: addToViewList_def Let_def)

lemma pane_id_reorderItem [simp]: "pane_id (snd (reorderItem p f index force)) = pane_id p"
  by (simp add: reorderItem_def Let_def)

lemma pane_id_addListToViewList [simp]:
  "pane_id (snd (addListToViewList e openInAPane p fs)) = pane_id p"
  by (induction fs arbitrary: p) (simp_all add: Let_def)

lemma pane_id_removeFromViewList [simp]: "pane_id (snd (removeFromViewList p f)) = pane_id p"
  by (simp add: removeFromViewList_def)

lemma pane_id_removeFiles [simp]: "pane_id (snd (removeFiles p fs)) = pane_id p"
  by (induction fs arbitrary: p) (simp_all add: Let_def)

lemma pane_id_removeListFromViewList [simp]: "pane_id (snd (removeListFromViewList p fs)) = pane_id p"
  by (simp add: removeListFromViewList_def Let_def)

lemma pane_id_removeAllFromViewList [simp]: "pane_id (snd (removeAllFromViewList p)) = pane_id p"
  by (simp add: removeAllFromViewList_def)

lemma pane_id_clearCurrentIfIn [simp]: "pane_id (clearCurrentIfIn fs p) = pane_id p"
  by (simp add: clearCurrentIfIn_def split: option.splits)

lemma pane_id_doRemoveView [simp]: "pane_id (doRemoveView p f) = pane_id p"
  by (simp add: doRemoveView_def)

lemma pane_id_doRemoveAllViews [simp]: "pane_id (doRemoveAllViews p) = pane_id p"
  by (simp add: doRemoveAllViews_def)

lemma pane_id_doRemoveViews [simp]: "pane_id (snd (doRemoveViews p fs)) = pane_id p"
  by (simp add: doRemoveViews_def Let_def)

lemma pane_id_makeViewMostRecent [simp]: "pane_id (makeViewMostRecent p f) = pane_id p"
  by (simp add: makeViewMostRecent_def)

lemma pane_id_sortViewList [simp]: "pane_id (sortViewList p c) = pane_id p"
  by (simp add: sortViewList_def)

lemma pane_id_swapViewListIndexes [simp]: "pane_id (swapViewListIndexes p i j) = pane_id p"
  by (simp add: swapViewListIndexes_def)

lemma pane_id_mergeWith [simp]: "pane_id (mergeWith p q) = pane_id p"
  by (simp add: mergeWith_def)

lemma pane_id_doOpenDocument [simp]: "pane_id (EditorManager_doOpenDocument d p) = pane_id p"
  by (simp add: EditorManager_doOpenDocument_def)

subsection \<open>The registry\<close>

lemma map_fst_updateProperty [simp]: "map fst (updateProperty k f obj) = map fst obj"
  by (induction obj) (auto simp: updateProperty_def)

lemma map_of_updateProperty:
  "map_of (updateProperty k f obj) k' =
     (if k' = k then map_option f (map_of obj k) else map_of obj k')"
  by (induction obj) (auto simp: updateProperty_def)

lemma hasOwnProperty_iff: "hasOwnProperty obj k = (k \<in> set (map fst obj))"
  by (simp add: hasOwnProperty_def map_of_eq_None_iff)

lemma getProperty_Own: "(getProperty obj k = Own v) = (map_of obj k = Some v)"
  by (auto simp: getProperty_def split: option.splits)

lemma getPaneFromPaneId_PaneObj:
  "getPaneFromPaneId s paneId = PaneObj k p \<Longrightarrow> map_of (paneViews s) k = Some p"
  by (auto simp: getPaneFromPaneId_def Let_def getProperty_def split: option.splits if_splits)

lemma idsMatch_lookup: "idsMatch s \<Longrightarrow> map_of (paneViews s) k = Some p \<Longrightarrow> pane_id p = k"
  by (auto simp: idsMatch_def list_all_iff dest!: map_of_SomeD)

lemma shape_refl [simp]: "shape s s"
  by (simp add: shape_def)

lemma shape_keys: "shape s s' \<Longrightarrow> map fst (paneViews s') = map fst (paneViews s)"
proof -
  assume b: "shape s s'"
  then have "map fst (map (\<lambda>kv. (fst kv, pane_id (snd kv))) (paneViews s')) =
        map fst (map (\<lambda>kv. (fst kv, pane_id (snd kv))) (paneViews s))"
    by (simp only: shape_def)
  then show ?thesis by (simp add: comp_def)
qed

lemma shape_trans: "shape s s' \<Longrightarrow> shape s' s'' \<Longrightarrow> shape s s''"
proof -
  assume a: "shape s s'" and b: "shape s' s''"
  have k: "map fst (paneViews s'') = map fst (paneViews s')"
    using b by (rule shape_keys)
  have m: "map (\<lambda>kv. (fst kv, pane_id (snd kv))) (paneViews s'') =
      map (\<lambda>kv. (fst kv, pane_id (snd kv))) (paneViews s)"
    using a b by (simp add: shape_def)
  have act: "activePaneId s'' = activePaneId s \<or> activePaneId s'' \<in> set (map fst (paneViews s''))"
  proof (cases "activePaneId s'' \<in> set (map fst (paneViews s''))")
    case True
    then show ?thesis by simp
  next
    case False
    with b have e1: "activePaneId s'' = activePaneId s'" by (simp add: shape_def)
    with False k have "activePaneId s' \<notin> set (map fst (paneViews s'))" by simp
    with a have "activePaneId s' = activePaneId s" by (simp add: shape_def)
    with e1 show ?thesis by simp
  qed
  from m act show ?thesis by (simp only: shape_def)
qed

lemma shape_idsMatch: "shape s s' \<Longrightarrow> idsMatch s \<Longrightarrow> idsMatch s'"
proof -
  assume b: "shape s s'" and i: "idsMatch s"
  have "idsMatch t = list_all (\<lambda>x. snd x = fst x) (map (\<lambda>kv. (fst kv, pane_id (snd kv))) (paneViews t))" for t
    by (simp add: idsMatch_def list_all_iff)
  with b i show ?thesis by (simp add: shape_def)
qed

lemma shape_wf: "shape s s' \<Longrightarrow> wf_state s \<Longrightarrow> wf_state s'"
  using shape_keys [of s s'] shape_idsMatch [of s s']
  by (auto simp: wf_state_def shape_def)

lemma shape_triggerHandler [simp]: "shape s (triggerHandler ev s)"
  by (simp add: shape_def triggerHandler_def)

lemma shape_setPane:
  "idsMatch s \<Longrightarrow> pane_id p' = k \<Longrightarrow> shape s (setPane k p' s)"
  by (auto simp: shape_def setPane_def idsMatch_def list_all_iff updateProperty_def)

lemma shape_updatePane:
  "(\<And>p. pane_id (f p) = pane_id p) \<Longrightarrow>
     shape s (s\<lparr>paneViews := updateProperty k f (paneViews s)\<rparr>)"
  by (auto simp: shape_def updateProperty_def)

subsection \<open>Operations that keep the registry's shape\<close>

lemma PaneObj_id: "idsMatch s \<Longrightarrow> getPaneFromPaneId s paneId = PaneObj k p \<Longrightarrow> pane_id p = k"
  by (blast intro: idsMatch_lookup getPaneFromPaneId_PaneObj)

lemma shape_forceFocus: "forceFocusToActivePaneView s = Inr s' \<Longrightarrow> s' = s"
  by (auto simp: forceFocusToActivePaneView_def split: paneRef.splits)

lemma fst_set_member: "(k, b) \<in> set xs \<Longrightarrow> k \<in> fst ` set xs"
  by force

lemma shape_setActivePaneId: "setActivePaneId k s = Inr s' \<Longrightarrow> shape s s'"
  by (auto simp: setActivePaneId_def andThen_def shape_def triggerHandler_def Let_def
      hasOwnProperty_iff dest!: shape_forceFocus dest: fst_set_member
      split: if_splits paneRef.splits sum.splits)

lemma shape_activeEditorChange: "activeEditorChange c s = Inr s' \<Longrightarrow> shape s s'"
  by (auto simp: activeEditorChange_def dest!: shape_forceFocus shape_setActivePaneId
      split: option.splits if_splits)

lemma shape_addToPaneViewList:
  "idsMatch s \<Longrightarrow> addToPaneViewList e paneId f index force s = Inr s' \<Longrightarrow> shape s s'"
  by (auto simp: addToPaneViewList_def Let_def dest!: PaneObj_id
      intro!: shape_trans [OF shape_setPane shape_triggerHandler] shape_setPane
      split: paneRef.splits if_splits)

lemma shape_addListToPaneViewList:
  "idsMatch s \<Longrightarrow> addListToPaneViewList e paneId fs s = Inr s' \<Longrightarrow> shape s s'"
  by (auto simp: addListToPaneViewList_def Let_def dest!: PaneObj_id
      intro!: shape_trans [OF shape_setPane shape_triggerHandler] shape_setPane
      split: paneRef.splits if_splits)

lemma shape_removeFromPaneViewList':
  "idsMatch s \<Longrightarrow> removeFromPaneViewList' paneId f sr s = Inr s' \<Longrightarrow> shape s s'"
  by (auto simp: removeFromPaneViewList'_def Let_def dest!: PaneObj_id
      intro!: shape_trans [OF shape_setPane shape_triggerHandler] shape_setPane
      split: paneRef.splits if_splits)

lemma shape_removeListFromPaneViewList':
  "idsMatch s \<Longrightarrow> removeListFromPaneViewList' paneId fs s = Inr s' \<Longrightarrow> shape s s'"
  by (auto simp: removeListFromPaneViewList'_def Let_def dest!: PaneObj_id
      intro!: shape_trans [OF shape_setPane shape_triggerHandler] shape_setPane
      split: paneRef.splits if_splits option.splits)

lemma shape_removeAllFromPaneViewList':
  "idsMatch s \<Longrightarrow> removeAllFromPaneViewList' paneId s = Inr s' \<Longrightarrow> shape s s'"
  by (auto simp: removeAllFromPaneViewList'_def Let_def dest!: PaneObj_id
      intro!: shape_trans [OF shape_setPane shape_triggerHandler] shape_setPane
      split: paneRef.splits if_splits option.splits)

lemma shape_forEachPaneId:
  assumes body: "\<And>k t t'. idsMatch t \<Longrightarrow> body k t = Inr t' \<Longrightarrow> shape t t'"
  shows "idsMatch s \<Longrightarrow> forEachPaneId body ks s = Inr s' \<Longrightarrow> shape s s'"
proof (induction ks arbitrary: s)
  case Nil
  then show ?case by simp
next
  case (Cons k ks)
  from Cons.prems(2) obtain t where t: "body k s = Inr t" and r: "forEachPaneId body ks t = Inr s'"
    by (auto split: sum.splits)
  from body [OF Cons.prems(1) t] have st: "shape s t" .
  from st Cons.prems(1) have "idsMatch t" by (rule shape_idsMatch)
  from Cons.IH [OF this r] st show ?case by (blast intro: shape_trans)
qed

lemma shape_removeFromPaneViewList:
  "idsMatch s \<Longrightarrow> removeFromPaneViewList paneId f sr s = Inr s' \<Longrightarrow> shape s s'"
  by (auto simp: removeFromPaneViewList_def split: if_splits
      elim: shape_forEachPaneId [rotated 1] shape_removeFromPaneViewList')

lemma shape_removeListFromPaneViewList:
  "idsMatch s \<Longrightarrow> removeListFromPaneViewList paneId fs s = Inr s' \<Longrightarrow> shape s s'"
  by (auto simp: removeListFromPaneViewList_def split: if_splits
      elim: shape_forEachPaneId [rotated 1] shape_removeListFromPaneViewList')

lemma shape_removeAllFromPaneViewList:
  "idsMatch s \<Longrightarrow> removeAllFromPaneViewList paneId s = Inr s' \<Longrightarrow> shape s s'"
  by (auto simp: removeAllFromPaneViewList_def split: if_splits
      elim: shape_forEachPaneId [rotated 1] shape_removeAllFromPaneViewList')

lemma shape_makePaneViewMostRecent:
  "idsMatch s \<Longrightarrow> makePaneViewMostRecent paneId f s = Inr s' \<Longrightarrow> shape s s'"
  by (auto simp: makePaneViewMostRecent_def Let_def dest!: PaneObj_id
      intro!: shape_setPane split: paneRef.splits)

lemma shape_sortPaneViewList:
  "idsMatch s \<Longrightarrow> sortPaneViewList paneId c s = Inr s' \<Longrightarrow> shape s s'"
  by (auto simp: sortPaneViewList_def Let_def dest!: PaneObj_id
      intro!: shape_trans [OF shape_setPane shape_triggerHandler] split: paneRef.splits)

lemma shape_swapPaneViewListIndexes:
  "idsMatch s \<Longrightarrow> swapPaneViewListIndexes paneId i j s = Inr s' \<Longrightarrow> shape s s'"
  by (auto simp: swapPaneViewListIndexes_def Let_def dest!: PaneObj_id
      intro!: shape_trans [OF shape_trans [OF shape_setPane shape_triggerHandler] shape_triggerHandler]
      split: paneRef.splits)

subsection \<open>Opening and closing keep the registry's shape\<close>

lemma shape_doEditIn:
  assumes i1: "idsMatch s1" and rest: "doEditIn e pid doc s1 = Inr s'"
  shows "shape s1 s'"
proof (cases "getPaneFromPaneId s1 pid")
  case Null
  with rest show ?thesis by (simp add: doEditIn_def)
next
  case NotAPane
  with rest show ?thesis by (auto simp: doEditIn_def andThen_def split: sum.splits if_splits)
next
  case (PaneObj k p)
  from PaneObj rest obtain s2 where
    s2: "(if isUntitled doc \<or> \<not> isWithinProject e (fullPath (doc_file doc)) then
            addToPaneViewList e pid (doc_file doc) None False s1 else Inr s1) = Inr s2" and
    fin: "makePaneViewMostRecent pid (doc_file doc)
            (if pane_id p = activePaneId s2 then
               triggerHandler (currentFileChanged (Some (doc_file doc)) (pane_id p))
                 (s2\<lparr>paneViews := updateProperty k (EditorManager_doOpenDocument doc) (paneViews s2)\<rparr>)
             else s2\<lparr>paneViews := updateProperty k (EditorManager_doOpenDocument doc) (paneViews s2)\<rparr>)
          = Inr s'"
    by (auto simp: doEditIn_def andThen_def Let_def split: sum.splits)
  define s3 where
    "s3 = s2\<lparr>paneViews := updateProperty k (EditorManager_doOpenDocument doc) (paneViews s2)\<rparr>"
  define s4 where
    "s4 = (if pane_id p = activePaneId s2 then
             triggerHandler (currentFileChanged (Some (doc_file doc)) (pane_id p)) s3 else s3)"
  from s2 i1 have sh2: "shape s1 s2"
    by (auto dest: shape_addToPaneViewList split: if_splits)
  have sh3: "shape s2 s3" unfolding s3_def by (rule shape_updatePane) simp
  have sh4: "shape s3 s4" unfolding s4_def by simp
  from sh2 sh3 sh4 have sh: "shape s1 s4" by (blast intro: shape_trans)
  from sh i1 have "idsMatch s4" by (rule shape_idsMatch)
  moreover from fin have "makePaneViewMostRecent pid (doc_file doc) s4 = Inr s'"
    by (auto simp: s3_def s4_def split: if_splits)
  ultimately have "shape s4 s'" by (rule shape_makePaneViewMostRecent)
  with sh show ?thesis by (rule shape_trans)
qed

lemma shape_doEdit:
  assumes i: "idsMatch s" and r: "doEdit e paneId doc s = Inr s'"
  shows "shape s s'"
proof (cases "getPaneIdForPath s (fullPath (doc_file doc))")
  case None
  with r i show ?thesis by (auto simp: doEdit_def intro: shape_doEditIn)
next
  case (Some c)
  show ?thesis
  proof (cases "c = []")
    case True
    with Some r i show ?thesis by (auto simp: doEdit_def intro: shape_doEditIn)
  next
    case False
    with Some r obtain s1 where a: "setActivePaneId c s = Inr s1" and b: "doEditIn e c doc s1 = Inr s'"
      by (auto simp: doEdit_def andThen_def split: sum.splits)
    from a have sh: "shape s s1" by (rule shape_setActivePaneId)
    from sh i have "idsMatch s1" by (rule shape_idsMatch)
    from this b have "shape s1 s'" by (rule shape_doEditIn)
    with sh show ?thesis by (rule shape_trans)
  qed
qed

lemma shape_doOpenIn:
  "idsMatch s \<Longrightarrow> doOpenIn e paneId f s = Inr (res, s') \<Longrightarrow> shape s s'"
  by (auto simp: doOpenIn_def andThen_def dest: shape_doEdit
      split: option.splits sum.splits if_splits)

lemma shape_doOpen:
  assumes i: "idsMatch s" and r: "doOpen e paneId fileArg s = Inr (res, s')"
  shows "shape s s'"
proof (cases fileArg)
  case None
  with r show ?thesis by (simp add: doOpen_def)
next
  case (Some f)
  note f = this
  show ?thesis
  proof (cases "getPaneIdForPath s (fullPath f)")
    case None
    with r i f show ?thesis by (auto simp: doOpen_def intro: shape_doOpenIn)
  next
    case (Some c)
    show ?thesis
    proof (cases "c = []")
      case True
      with Some r i f show ?thesis by (auto simp: doOpen_def intro: shape_doOpenIn)
    next
      case False
      with Some r f obtain s1 where a: "setActivePaneId c s = Inr s1"
          and b: "doOpenIn e c f s1 = Inr (res, s')"
        by (auto simp: doOpen_def andThen_def split: sum.splits)
      from a have sh: "shape s s1" by (rule shape_setActivePaneId)
      from sh i have "idsMatch s1" by (rule shape_idsMatch)
      from this b have "shape s1 s'" by (rule shape_doOpenIn)
      with sh show ?thesis by (rule shape_trans)
    qed
  qed
qed

lemma shape_doClose:
  "idsMatch s \<Longrightarrow> doClose paneId f s = Inr s' \<Longrightarrow> shape s s'"
  by (auto simp: doClose_def Let_def dest!: PaneObj_id
      intro!: shape_trans [OF shape_setPane shape_triggerHandler] shape_setPane
      split: paneRef.splits if_splits option.splits findResult.splits)

lemma shape_closeAllIn: "idsMatch s \<Longrightarrow> pane_id p = k \<Longrightarrow> shape s (closeAllIn k p s)"
  by (auto simp: closeAllIn_def Let_def intro!: shape_trans [OF shape_setPane shape_triggerHandler])

lemma shape_closeListIn: "idsMatch s \<Longrightarrow> pane_id p = k \<Longrightarrow> shape s (closeListIn fs k p s)"
  by (auto simp: closeListIn_def Let_def intro!: shape_trans [OF shape_setPane shape_triggerHandler])

lemma shape_foldl:
  assumes body: "\<And>k p t. idsMatch t \<Longrightarrow> pane_id p = k \<Longrightarrow> shape t (body k p t)"
  shows "list_all (\<lambda>kv. pane_id (snd kv) = fst kv) kvs \<Longrightarrow> idsMatch s \<Longrightarrow>
     shape s (foldl (\<lambda>s' kv. body (fst kv) (snd kv) s') s kvs)"
proof (induction kvs arbitrary: s)
  case Nil
  then show ?case by simp
next
  case (Cons kv kvs)
  from Cons.prems have a: "shape s (body (fst kv) (snd kv) s)" by (auto intro: body)
  with Cons.prems(2) have "idsMatch (body (fst kv) (snd kv) s)" by (auto intro: shape_idsMatch)
  with Cons.IH [of "body (fst kv) (snd kv) s"] Cons.prems(1)
  have "shape (body (fst kv) (snd kv) s) (foldl (\<lambda>s' kv. body (fst kv) (snd kv) s') (body (fst kv) (snd kv) s) kvs)"
    by simp
  with a show ?case by (auto intro: shape_trans)
qed

lemma shape_doCloseAll:
  assumes i: "idsMatch s" and r: "doCloseAll paneId s = Inr s'"
  shows "shape s s'"
proof (cases "paneId = ALL_PANES")
  case True
  from i have "list_all (\<lambda>kv. pane_id (snd kv) = fst kv) (paneViews s)" by (simp add: idsMatch_def)
  from shape_foldl [of closeAllIn, OF shape_closeAllIn this i] True r
  show ?thesis by (simp add: doCloseAll_def)
next
  case False
  with r i show ?thesis
    by (auto simp: doCloseAll_def dest!: PaneObj_id intro!: shape_closeAllIn split: paneRef.splits)
qed

lemma shape_doCloseList:
  assumes i: "idsMatch s" and r: "doCloseList paneId fs s = Inr s'"
  shows "shape s s'"
proof (cases "paneId = ALL_PANES")
  case True
  from i have "list_all (\<lambda>kv. pane_id (snd kv) = fst kv) (paneViews s)" by (simp add: idsMatch_def)
  from shape_foldl [of "closeListIn fs", OF shape_closeListIn this i] True r
  show ?thesis by (simp add: doCloseList_def)
next
  case False
  with r i show ?thesis
    by (auto simp: doCloseList_def dest!: PaneObj_id intro!: shape_closeListIn split: paneRef.splits)
qed

subsection \<open>Splitting keeps states well formed\<close>

lemma pane_constants [simp]:
  "FIRST_PANE \<noteq> SECOND_PANE" "SECOND_PANE \<noteq> FIRST_PANE"
  "FIRST_PANE \<noteq> []" "SECOND_PANE \<noteq> []"
  "FIRST_PANE \<noteq> ALL_PANES" "SECOND_PANE \<noteq> ALL_PANES"
  "FIRST_PANE \<noteq> FOCUSED_PANE" "SECOND_PANE \<noteq> FOCUSED_PANE"
  "ALL_PANES \<noteq> FOCUSED_PANE" "ALL_PANES \<noteq> []" "FOCUSED_PANE \<noteq> []"
  "FIRST_PANE \<notin> set objectPrototypeKeys" "SECOND_PANE \<notin> set objectPrototypeKeys"
  "ALL_PANES \<notin> set objectPrototypeKeys" "FOCUSED_PANE \<notin> set objectPrototypeKeys"
  by (simp_all add: FIRST_PANE_def SECOND_PANE_def ALL_PANES_def FOCUSED_PANE_def
      objectPrototypeKeys_def)

lemma wf_init_state: "wf_state init_state"
  by (simp add: wf_state_def init_state_def module_state_def createPaneIfNecessary_def
      hasOwnProperty_def triggerHandler_def idsMatch_def new_Pane_def Let_def)

lemma wf_createSecond: "wf_state s \<Longrightarrow> wf_state (createPaneIfNecessary SECOND_PANE s)"
  by (auto simp: wf_state_def createPaneIfNecessary_def hasOwnProperty_iff triggerHandler_def
      idsMatch_def new_Pane_def Let_def)

lemma wf_doSplit: "wf_state s \<Longrightarrow> wf_state (doSplit orient s)"
proof -
  assume "wf_state s"
  then have "wf_state (createPaneIfNecessary SECOND_PANE s)" by (rule wf_createSecond)
  then show ?thesis
    by (simp add: doSplit_def Let_def wf_state_def idsMatch_def triggerHandler_def)
qed

lemma wf_first: "wf_state s \<Longrightarrow> \<exists>p. map_of (paneViews s) FIRST_PANE = Some p \<and> pane_id p = FIRST_PANE"
proof -
  assume w: "wf_state s"
  then have "FIRST_PANE \<in> set (map fst (paneViews s))" by (auto simp: wf_state_def)
  then obtain p where p: "map_of (paneViews s) FIRST_PANE = Some p"
    by (cases "map_of (paneViews s) FIRST_PANE") (auto simp: map_of_eq_None_iff)
  moreover from w p have "pane_id p = FIRST_PANE" by (auto simp: wf_state_def intro: idsMatch_lookup)
  ultimately show ?thesis by blast
qed

lemma wf_delete_second:
  assumes w: "wf_state s" and a: "activePaneId s = FIRST_PANE"
  shows "wf_state (s\<lparr>paneViews := deleteProperty (paneViews s) SECOND_PANE\<rparr>)"
proof -
  from w have k: "map fst (paneViews s) = [FIRST_PANE] \<or> map fst (paneViews s) = [FIRST_PANE, SECOND_PANE]"
    by (simp add: wf_state_def)
  have m: "map fst (deleteProperty (paneViews s) SECOND_PANE) = filter (\<lambda>k. k \<noteq> SECOND_PANE) (map fst (paneViews s))"
    by (simp add: deleteProperty_def filter_map comp_def)
  from k m have k': "map fst (deleteProperty (paneViews s) SECOND_PANE) = [FIRST_PANE]" by auto
  from w have "list_all (\<lambda>kv. pane_id (snd kv) = fst kv) (deleteProperty (paneViews s) SECOND_PANE)"
    by (auto simp: wf_state_def idsMatch_def deleteProperty_def list_all_iff)
  with k' a show ?thesis by (simp add: wf_state_def idsMatch_def)
qed

subsection \<open>Reachable states are well formed\<close>

lemma getActivePane_eq:
  "getActivePane s =
     (case getProperty (paneViews s) (activePaneId s) of
        Own p \<Rightarrow> PaneObj (activePaneId s) p | Inherited \<Rightarrow> NotAPane | Undefined \<Rightarrow> Null)"
  by (auto simp: getActivePane_def getPaneFromPaneId_def getActivePaneId_def Let_def
      split: property.splits)

lemma setActivePaneId_key:
  assumes k: "hasOwnProperty (paneViews s) k"
  shows "\<exists>s'. setActivePaneId k s = Inr s' \<and> activePaneId s' = k \<and>
           paneViews s' = paneViews s \<and> orientation s' = orientation s"
proof -
  from k obtain p where p: "map_of (paneViews s) k = Some p"
    by (auto simp: hasOwnProperty_def)
  then have g: "getProperty (paneViews s) k = Own p" by (simp add: getProperty_Own)
  show ?thesis
  proof (cases "k = activePaneId s")
    case True
    with g show ?thesis
      by (simp add: setActivePaneId_def andThen_def forceFocusToActivePaneView_def
          getActivePane_eq)
  next
    case False
    with g k show ?thesis
      by (simp add: setActivePaneId_def andThen_def forceFocusToActivePaneView_def
          getActivePane_eq triggerHandler_def Let_def)
  qed
qed

lemma setActivePaneId_not_key:
  "\<not> hasOwnProperty (paneViews s) k \<Longrightarrow> setActivePaneId k s = Inr s' \<Longrightarrow> s' = s"
  by (auto simp: setActivePaneId_def andThen_def dest: shape_forceFocus)

lemma setActivePaneId_not_key_wf:
  "wf_state s \<Longrightarrow> \<not> hasOwnProperty (paneViews s) k \<Longrightarrow> setActivePaneId k s = Inr s"
proof -
  assume w: "wf_state s" and n: "\<not> hasOwnProperty (paneViews s) k"
  from w have "activePaneId s \<in> set (map fst (paneViews s))" by (simp add: wf_state_def)
  then obtain p where "map_of (paneViews s) (activePaneId s) = Some p"
    by (cases "map_of (paneViews s) (activePaneId s)") (auto simp: map_of_eq_None_iff)
  then have "getProperty (paneViews s) (activePaneId s) = Own p" by (simp add: getProperty_Own)
  with n show ?thesis
    by (simp add: setActivePaneId_def andThen_def forceFocusToActivePaneView_def getActivePane_eq)
qed

lemma wf_two_panes:
  assumes w: "wf_state s" and h: "hasOwnProperty (paneViews s) SECOND_PANE"
  shows "\<exists>p1 p2. paneViews s = [(FIRST_PANE, p1), (SECOND_PANE, p2)] \<and>
           pane_id p1 = FIRST_PANE \<and> pane_id p2 = SECOND_PANE"
proof -
  from w h have k: "map fst (paneViews s) = [FIRST_PANE, SECOND_PANE]"
    by (auto simp: wf_state_def hasOwnProperty_iff)
  then obtain a b where ab: "paneViews s = [a, b]" by (auto simp: map_eq_Cons_conv)
  with k have "fst a = FIRST_PANE" "fst b = SECOND_PANE" by simp_all
  moreover from w ab have "pane_id (snd a) = fst a" "pane_id (snd b) = fst b"
    by (simp_all add: wf_state_def idsMatch_def)
  ultimately have "paneViews s = [(FIRST_PANE, snd a), (SECOND_PANE, snd b)] \<and>
      pane_id (snd a) = FIRST_PANE \<and> pane_id (snd b) = SECOND_PANE"
    using ab by (cases a, cases b) simp
  then show ?thesis by blast
qed

lemma wf_one_pane:
  assumes w: "wf_state s" and h: "\<not> hasOwnProperty (paneViews s) SECOND_PANE"
  shows "\<exists>p1. paneViews s = [(FIRST_PANE, p1)] \<and> pane_id p1 = FIRST_PANE \<and>
           activePaneId s = FIRST_PANE"
proof -
  from w h have k: "map fst (paneViews s) = [FIRST_PANE]"
    by (auto simp: wf_state_def hasOwnProperty_iff)
  then obtain a where a: "paneViews s = [a]" by (auto simp: map_eq_Cons_conv)
  with k have "fst a = FIRST_PANE" by simp
  moreover from w a have "pane_id (snd a) = fst a" by (simp add: wf_state_def idsMatch_def)
  moreover from w k have "activePaneId s = FIRST_PANE" by (simp add: wf_state_def)
  ultimately have "paneViews s = [(FIRST_PANE, snd a)] \<and> pane_id (snd a) = FIRST_PANE \<and>
      activePaneId s = FIRST_PANE"
    using a by (cases a) simp
  then show ?thesis by blast
qed

lemma doUnsplit_two_panes:
  assumes pv: "paneViews s = [(FIRST_PANE, p1), (SECOND_PANE, p2)]"
    and ids: "pane_id p1 = FIRST_PANE" "pane_id p2 = SECOND_PANE"
  shows "\<exists>s'. doUnsplit s = Inr s' \<and> paneViews s' = [(FIRST_PANE, mergeWith p1 p2)] \<and>
           activePaneId s' = FIRST_PANE \<and> orientation s' = None"
proof -
  define s2 where
    "s2 = triggerHandler (paneViewListRemoveList (getViewList p2) (pane_id p2))
            (setPane FIRST_PANE (mergeWith p1 p2) s)"
  have pv2: "paneViews s2 = [(FIRST_PANE, mergeWith p1 p2), (SECOND_PANE, p2)]"
    by (simp add: s2_def triggerHandler_def setPane_def updateProperty_def pv)
  then have "hasOwnProperty (paneViews s2) FIRST_PANE" by (simp add: hasOwnProperty_def)
  from setActivePaneId_key [OF this] obtain s3 where
    s3: "setActivePaneId FIRST_PANE s2 = Inr s3" "activePaneId s3 = FIRST_PANE"
      "paneViews s3 = paneViews s2"
    by blast
  have "doUnsplit s =
      Inr (triggerHandler (paneLayoutChange None)
            ((triggerHandler (paneViewListAddList (getViewList p2) (pane_id p1))
               (triggerHandler (paneDestroyed (pane_id p2))
                  (s3\<lparr>paneViews := deleteProperty (paneViews s3) SECOND_PANE\<rparr>)))
             \<lparr>orientation := None\<rparr>))"
    using s3(1) [unfolded s2_def] ids
    by (simp add: doUnsplit_def hasOwnProperty_def getProperty_def pv Let_def andThen_def)
  with s3 pv2 show ?thesis
    by (simp add: triggerHandler_def deleteProperty_def)
qed

lemma doUnsplit_wf:
  assumes w: "wf_state s" and r: "doUnsplit s = Inr s'"
  shows "wf_state s'"
proof (cases "hasOwnProperty (paneViews s) SECOND_PANE")
  case False
  with r w show ?thesis by (simp add: doUnsplit_def)
next
  case True
  from wf_two_panes [OF w True] obtain p1 p2 where
    pv: "paneViews s = [(FIRST_PANE, p1), (SECOND_PANE, p2)]"
      "pane_id p1 = FIRST_PANE" "pane_id p2 = SECOND_PANE"
    by blast
  from doUnsplit_two_panes [OF pv] r
  have "paneViews s' = [(FIRST_PANE, mergeWith p1 p2)]" "activePaneId s' = FIRST_PANE"
    by auto
  with pv show ?thesis by (simp add: wf_state_def idsMatch_def)
qed

lemma exec_wf:
  assumes w: "wf_state s" and r: "exec e c s = Inr s'"
  shows "wf_state s'"
proof -
  from w have i: "idsMatch s" by (simp add: wf_state_def)
  show ?thesis
  proof (cases c)
    case (AddToPaneViewList paneId f index force)
    with r i have "shape s s'" by (auto dest: shape_addToPaneViewList)
    then show ?thesis using w by (rule shape_wf)
  next
    case (AddListToPaneViewList paneId fs)
    with r i have "shape s s'" by (auto dest: shape_addListToPaneViewList)
    then show ?thesis using w by (rule shape_wf)
  next
    case (RemoveFromPaneViewList paneId f sr)
    with r i have "shape s s'" by (auto dest: shape_removeFromPaneViewList)
    then show ?thesis using w by (rule shape_wf)
  next
    case (RemoveListFromPaneViewList paneId fs)
    with r i have "shape s s'" by (auto dest: shape_removeListFromPaneViewList)
    then show ?thesis using w by (rule shape_wf)
  next
    case (RemoveAllFromPaneViewList paneId)
    with r i have "shape s s'" by (auto dest: shape_removeAllFromPaneViewList)
    then show ?thesis using w by (rule shape_wf)
  next
    case (MakePaneViewMostRecent paneId f)
    with r i have "shape s s'" by (auto dest: shape_makePaneViewMostRecent)
    then show ?thesis using w by (rule shape_wf)
  next
    case (SortPaneViewList paneId cmp)
    with r i have "shape s s'" by (auto dest: shape_sortPaneViewList)
    then show ?thesis using w by (rule shape_wf)
  next
    case (SwapPaneViewListIndexes paneId i1 i2)
    with r i have "shape s s'" by (auto dest: shape_swapPaneViewListIndexes)
    then show ?thesis using w by (rule shape_wf)
  next
    case (SetActivePaneId k)
    with r have "shape s s'" by (auto dest: shape_setActivePaneId)
    then show ?thesis using w by (rule shape_wf)
  next
    case (ActiveEditorChange cur)
    with r have "shape s s'" by (auto dest: shape_activeEditorChange)
    then show ?thesis using w by (rule shape_wf)
  next
    case (DoEdit paneId doc)
    with r i have "shape s s'" by (auto dest: shape_doEdit)
    then show ?thesis using w by (rule shape_wf)
  next
    case (DoOpen paneId fileArg)
    with r i have "shape s s'"
      by (auto simp: andThen_def dest: shape_doOpen split: sum.splits)
    then show ?thesis using w by (rule shape_wf)
  next
    case (DoClose paneId f)
    with r i have "shape s s'" by (auto dest: shape_doClose)
    then show ?thesis using w by (rule shape_wf)
  next
    case (DoCloseAll paneId)
    with r i have "shape s s'" by (auto dest: shape_doCloseAll)
    then show ?thesis using w by (rule shape_wf)
  next
    case (DoCloseList paneId fs)
    with r i have "shape s s'" by (auto dest: shape_doCloseList)
    then show ?thesis using w by (rule shape_wf)
  next
    case HandleSplitVertically
    with r w show ?thesis
      by (auto simp: handleSplitVertically_def intro: doUnsplit_wf wf_doSplit split: if_splits)
  next
    case HandleSplitHorizontially
    with r w show ?thesis
      by (auto simp: handleSplitHorizontially_def intro: doUnsplit_wf wf_doSplit split: if_splits)
  qed
qed

lemma reachable_wf: "reachable s \<Longrightarrow> wf_state s"
  by (induction rule: reachable.induct) (auto intro: wf_init_state exec_wf)

subsection \<open>Evaluating the example states\<close>

lemma run_reachable: "reachable s \<Longrightarrow> run cs s = Inr s' \<Longrightarrow> reachable s'"
proof (induction cs arbitrary: s)
  case Nil
  then show ?case by simp
next
  case (Cons c cs)
  from Cons.prems(2) obtain t where t: "exec (fst c) (snd c) s = Inr t" and r: "run cs t = Inr s'"
    by (auto split: sum.splits)
  from Cons.prems(1) t have "reachable t" by (rule reachable_step)
  from Cons.IH [OF this r] show ?case .
qed

lemmas eval_defs =
  init_state_def module_state_def createPaneIfNecessary_def hasOwnProperty_def
  triggerHandler_def new_Pane_def Let_def andThen_def getPaneFromPaneId_def getProperty_def
  getActivePaneId_def getActivePane_def forceFocusToActivePaneView_def setActivePaneId_def
  setPane_def updateProperty_def deleteProperty_def
  addToPaneViewList_def addListToPaneViewList_def getPaneIdForPath_def truthyId_def
  findInViewList_def findInViewListMRUOrder_def reorderItem_def addToViewList_def
  indexRequested_def getViewList_def getCurrentlyViewedFile_def
  doSplit_def doUnsplit_def handleSplitVertically_def handleSplitHorizontially_def
  mergeWith_def example_env_def viewer_env_def

lemma run_split_calls: "run split_calls init_state = Inr split_state"
  by (simp add: split_calls_def split_state_def eval_defs)

lemma reachable_split_state: "reachable split_state"
  using reachable_init run_split_calls by (rule run_reachable)

subsection \<open>The active pane and the first pane\<close>

lemma doUnsplit_events:
  assumes pv: "paneViews s = [(FIRST_PANE, p1), (SECOND_PANE, p2)]"
    and ids: "pane_id p1 = FIRST_PANE" "pane_id p2 = SECOND_PANE"
    and act: "activePaneId s = SECOND_PANE"
  shows "\<exists>s'. doUnsplit s = Inr s' \<and>
           events s' = events s @
             [paneViewListRemoveList (viewList p2) SECOND_PANE,
              activePaneChange FIRST_PANE SECOND_PANE,
              currentFileChanged (currentlyViewedFile p1) FIRST_PANE,
              paneDestroyed SECOND_PANE,
              paneViewListAddList (viewList p2) FIRST_PANE,
              paneLayoutChange None]"
  using pv ids act
  by (simp add: doUnsplit_def hasOwnProperty_def getProperty_def Let_def andThen_def
      setActivePaneId_def getActivePane_eq forceFocusToActivePaneView_def triggerHandler_def
      setPane_def updateProperty_def getViewList_def getCurrentlyViewedFile_def mergeWith_def)

text \<open>
  C9. In every reachable state the active pane id is a key of the pane registry and
  the registry contains the first pane. \<^verbatim>\<open>setActivePaneId\<close> leaves the active pane id
  as it is when the requested id is not in the registry. Unsplitting ends with the
  first pane active and alone in the registry; when the second pane was active, the
  notification that the first pane became active is sent before the one that the
  second pane was destroyed.
\<close>

theorem active_pane_is_registered:
  "(reachable s \<longrightarrow>
      activePaneId s \<in> set (getPaneIdList s) \<and> FIRST_PANE \<in> set (getPaneIdList s)) \<and>
   (newPaneId \<notin> set (getPaneIdList s) \<longrightarrow> setActivePaneId newPaneId s = Inr s' \<longrightarrow>
      activePaneId s' = activePaneId s) \<and>
   (reachable s \<longrightarrow> SECOND_PANE \<in> set (getPaneIdList s) \<longrightarrow>
      (\<exists>u. doUnsplit s = Inr u \<and> activePaneId u = FIRST_PANE \<and>
            getPaneIdList u = [FIRST_PANE])) \<and>
   (reachable s \<longrightarrow> activePaneId s = SECOND_PANE \<longrightarrow>
      (\<exists>u cur. doUnsplit s = Inr u \<and>
         events u = events s @
           [paneViewListRemoveList (viewListOf s SECOND_PANE) SECOND_PANE,
            activePaneChange FIRST_PANE SECOND_PANE,
            currentFileChanged cur FIRST_PANE,
            paneDestroyed SECOND_PANE,
            paneViewListAddList (viewListOf s SECOND_PANE) FIRST_PANE,
            paneLayoutChange None]))"
proof (intro conjI impI)
  assume "reachable s"
  then have "wf_state s" by (rule reachable_wf)
  then show "activePaneId s \<in> set (getPaneIdList s)"
    by (auto simp: wf_state_def getPaneIdList_def)
next
  assume "reachable s"
  then have "wf_state s" by (rule reachable_wf)
  then show "FIRST_PANE \<in> set (getPaneIdList s)"
    by (auto simp: wf_state_def getPaneIdList_def)
next
  assume "newPaneId \<notin> set (getPaneIdList s)" and "setActivePaneId newPaneId s = Inr s'"
  then show "activePaneId s' = activePaneId s"
    by (auto simp: getPaneIdList_def hasOwnProperty_iff dest!: setActivePaneId_not_key [rotated])
next
  assume "reachable s" and sec: "SECOND_PANE \<in> set (getPaneIdList s)"
  then have w: "wf_state s" by (simp add: reachable_wf)
  from sec have "hasOwnProperty (paneViews s) SECOND_PANE"
    by (simp add: hasOwnProperty_iff getPaneIdList_def)
  from wf_two_panes [OF w this] obtain p1 p2 where
    pv: "paneViews s = [(FIRST_PANE, p1), (SECOND_PANE, p2)]"
      "pane_id p1 = FIRST_PANE" "pane_id p2 = SECOND_PANE"
    by blast
  from doUnsplit_two_panes [OF pv]
  show "\<exists>u. doUnsplit s = Inr u \<and> activePaneId u = FIRST_PANE \<and> getPaneIdList u = [FIRST_PANE]"
    by (auto simp: getPaneIdList_def)
next
  assume "reachable s" and act: "activePaneId s = SECOND_PANE"
  then have w: "wf_state s" by (simp add: reachable_wf)
  with act have "hasOwnProperty (paneViews s) SECOND_PANE"
    by (auto simp: wf_state_def hasOwnProperty_iff)
  from wf_two_panes [OF w this] obtain p1 p2 where
    pv: "paneViews s = [(FIRST_PANE, p1), (SECOND_PANE, p2)]"
      "pane_id p1 = FIRST_PANE" "pane_id p2 = SECOND_PANE"
    by blast
  from pv(1) have "viewListOf s SECOND_PANE = viewList p2" by (simp add: viewListOf_def)
  with doUnsplit_events [OF pv act]
  show "\<exists>u cur. doUnsplit s = Inr u \<and>
         events u = events s @
           [paneViewListRemoveList (viewListOf s SECOND_PANE) SECOND_PANE,
            activePaneChange FIRST_PANE SECOND_PANE,
            currentFileChanged cur FIRST_PANE,
            paneDestroyed SECOND_PANE,
            paneViewListAddList (viewListOf s SECOND_PANE) FIRST_PANE,
            paneLayoutChange None]"
    by auto
qed

theorem active_pane_is_registered_witness:
  "reachable split_state \<and> activePaneId split_state = SECOND_PANE \<and>
   SECOND_PANE \<in> set (getPaneIdList split_state) \<and>
   FIRST_PANE \<in> set (getPaneIdList split_state) \<and>
   ''third-pane'' \<notin> set (getPaneIdList split_state) \<and>
   setActivePaneId ''third-pane'' split_state = Inr split_state \<and>
   (\<exists>u. doUnsplit split_state = Inr u \<and> activePaneId u = FIRST_PANE \<and>
         getPaneIdList u = [FIRST_PANE])"
proof -
  have r: "reachable split_state" by (rule reachable_split_state)
  have a: "activePaneId split_state = SECOND_PANE" by (simp add: split_state_def)
  have k: "getPaneIdList split_state = [FIRST_PANE, SECOND_PANE]"
    by (simp add: split_state_def getPaneIdList_def)
  have n: "''third-pane'' \<notin> set (getPaneIdList split_state)"
    by (simp add: k FIRST_PANE_def SECOND_PANE_def)
  have t: "setActivePaneId ''third-pane'' split_state = Inr split_state"
    by (simp add: split_state_def eval_defs FIRST_PANE_def SECOND_PANE_def FOCUSED_PANE_def)
  from active_pane_is_registered [of split_state "''third-pane''" split_state] r a k n t
  show ?thesis by simp
qed

subsection \<open>View lists and the panes that hold a path\<close>

lemma findInViewList_holds: "(findInViewList p fp \<noteq> - 1) = (fp \<in> fullPath ` set (viewList p))"
  by (simp add: findInViewList_def indexOfPath_none)

lemma findInViewList_nonneg: "(findInViewList p fp \<ge> 0) = (fp \<in> fullPath ` set (viewList p))"
  using indexOfPath_ge [of fp "viewList p"] indexOfPath_none [of fp "viewList p"]
  by (auto simp: findInViewList_def)

lemma panesHolding_viewLists:
  "panesHolding s fp = map fst (filter (\<lambda>kl. fp \<in> fullPath ` set (snd kl)) (viewLists s))"
  by (simp add: panesHolding_def viewLists_def filter_map comp_def findInViewList_holds)

lemma findInAllPanes_entries:
  "list_all (\<lambda>kv. pane_id (snd kv) = fst kv) kvs \<Longrightarrow>
   (case findInAllPanes findInViewList (map snd kvs) fp of
      Info k i \<Rightarrow> Some k | Index i \<Rightarrow> None | NoResult \<Rightarrow> None) =
   (case map fst (filter (\<lambda>kv. findInViewList (snd kv) fp \<noteq> - 1) kvs) of
      [] \<Rightarrow> None | k # ks \<Rightarrow> Some k)"
proof (induction kvs)
  case Nil
  then show ?case by simp
next
  case (Cons kv kvs)
  then show ?case
    by (auto simp: Let_def findInViewList_nonneg findInViewList_holds)
qed

lemma getPaneIdForPath_holding:
  "idsMatch s \<Longrightarrow>
   getPaneIdForPath s fp = (case panesHolding s fp of [] \<Rightarrow> None | k # ks \<Rightarrow> Some k)"
  unfolding getPaneIdForPath_def panesHolding_def idsMatch_def
  by (rule findInAllPanes_entries)

lemma panesHolding_keys: "set (panesHolding s fp) \<subseteq> set (map fst (paneViews s))"
  by (auto simp: panesHolding_def)

lemma getPaneIdForPath_key:
  assumes w: "wf_state s" and g: "getPaneIdForPath s fp = Some c"
  shows "hasOwnProperty (paneViews s) c \<and> c \<noteq> [] \<and> c \<noteq> FOCUSED_PANE \<and>
         c \<in> set (panesHolding s fp)"
proof -
  from w have i: "idsMatch s" by (simp add: wf_state_def)
  from g getPaneIdForPath_holding [OF i, of fp] have c: "c \<in> set (panesHolding s fp)"
    by (auto split: list.splits)
  with panesHolding_keys [of s fp] have k: "c \<in> set (map fst (paneViews s))" by blast
  with w have "c = FIRST_PANE \<or> c = SECOND_PANE" by (auto simp: wf_state_def)
  with k c show ?thesis by (auto simp: hasOwnProperty_iff)
qed

lemma viewLists_triggerHandler [simp]: "viewLists (triggerHandler ev s) = viewLists s"
  by (simp add: viewLists_def triggerHandler_def)

lemma paneViews_triggerHandler [simp]: "paneViews (triggerHandler ev s) = paneViews s"
  by (simp add: triggerHandler_def)

lemma activePaneId_triggerHandler [simp]: "activePaneId (triggerHandler ev s) = activePaneId s"
  by (simp add: triggerHandler_def)

lemma paneViews_setActivePaneId: "setActivePaneId k s = Inr s' \<Longrightarrow> paneViews s' = paneViews s"
  by (auto simp: setActivePaneId_def andThen_def Let_def triggerHandler_def
      dest!: shape_forceFocus split: if_splits paneRef.splits sum.splits)

lemma viewLists_updateProperty:
  "(\<And>p. viewList (f p) = viewList p) \<Longrightarrow>
   viewLists (s\<lparr>paneViews := updateProperty k f (paneViews s)\<rparr>) = viewLists s"
  by (simp add: viewLists_def updateProperty_def)

lemma viewLists_setPane:
  "map_of (paneViews s) k = Some p \<Longrightarrow> idsMatch s \<Longrightarrow> distinct (map fst (paneViews s)) \<Longrightarrow>
   viewList p' = viewList p \<Longrightarrow> viewLists (setPane k p' s) = viewLists s"
proof -
  assume m: "map_of (paneViews s) k = Some p" and d: "distinct (map fst (paneViews s))"
    and v: "viewList p' = viewList p"
  have "\<And>kv. kv \<in> set (paneViews s) \<Longrightarrow> fst kv = k \<Longrightarrow> snd kv = p"
  proof -
    fix kv assume "kv \<in> set (paneViews s)" "fst kv = k"
    then have "(k, snd kv) \<in> set (paneViews s)" by (cases kv) auto
    with d have "map_of (paneViews s) k = Some (snd kv)" by simp
    with m show "snd kv = p" by simp
  qed
  with v show ?thesis by (auto simp: viewLists_def setPane_def updateProperty_def)
qed

lemma wf_distinct: "wf_state s \<Longrightarrow> distinct (map fst (paneViews s))"
  by (auto simp: wf_state_def)

lemma viewLists_makePaneViewMostRecent:
  "wf_state s \<Longrightarrow> makePaneViewMostRecent paneId f s = Inr s' \<Longrightarrow> viewLists s' = viewLists s"
  by (auto simp: makePaneViewMostRecent_def wf_state_def makeViewMostRecent_def
      dest!: getPaneFromPaneId_PaneObj intro!: viewLists_setPane split: paneRef.splits)

subsection \<open>Adding a file keeps every path in at most one pane\<close>

lemma uniqueHolding_cong: "viewLists s' = viewLists s \<Longrightarrow> uniqueHolding s' = uniqueHolding s"
  by (simp add: uniqueHolding_def panesHolding_viewLists)

lemma paths_addToViewList:
  "set (viewList (snd (addToViewList p f index))) = insert f (set (viewList p))"
proof (cases "indexRequested (viewList p) index")
  case True
  have "set (take n xs @ [f] @ drop n xs) = insert f (set xs)" for n and xs :: "fileref list"
  proof -
    have "set (take n xs @ [f] @ drop n xs) = insert f (set (take n xs) \<union> set (drop n xs))"
      by simp
    also have "set (take n xs) \<union> set (drop n xs) = set (take n xs @ drop n xs)"
      by (simp only: set_append)
    finally show ?thesis by simp
  qed
  with True show ?thesis by (simp add: addToViewList_def Let_def)
next
  case False
  then show ?thesis by (simp add: addToViewList_def)
qed

lemma addToPaneViewList_cases:
  assumes w: "wf_state s" and r: "addToPaneViewList e paneId f index force s = Inr s'"
  shows "s' = s \<or>
    (panesHolding s (fullPath f) = [] \<and>
     (\<exists>k p. map_of (paneViews s) k = Some p \<and>
        s' = triggerHandler (paneViewListAdd f (fst (addToViewList p f index)) k)
               (setPane k (snd (addToViewList p f index)) s)))"
proof -
  from w have i: "idsMatch s" by (simp add: wf_state_def)
  show ?thesis
  proof (cases "getPaneIdForPath s (fullPath f)")
    case (Some c)
    with getPaneIdForPath_key [OF w Some] have "truthyId (getPaneIdForPath s (fullPath f))"
      by (simp add: truthyId_def)
    with r show ?thesis
      by (auto simp: addToPaneViewList_def split: paneRef.splits if_splits)
  next
    case None
    with getPaneIdForPath_holding [OF i, of "fullPath f"]
    have h: "panesHolding s (fullPath f) = []" by (simp split: list.splits)
    show ?thesis
    proof (cases "getPaneFromPaneId s paneId")
      case Null
      with r show ?thesis by (simp add: addToPaneViewList_def)
    next
      case NotAPane
      with r show ?thesis by (auto simp: addToPaneViewList_def split: if_splits)
    next
      case (PaneObj k p)
      then have m: "map_of (paneViews s) k = Some p" by (rule getPaneFromPaneId_PaneObj)
      with i have pid: "pane_id p = k" by (rule idsMatch_lookup)
      from m have "(k, p) \<in> set (paneViews s)" by (rule map_of_SomeD)
      with h have "findInViewList p (fullPath f) = - 1"
        by (auto simp: panesHolding_def filter_empty_conv)
      then have ro: "reorderItem p f index force = (ITEM_NOT_FOUND, p)"
        by (simp add: reorderItem_def)
      show ?thesis
      proof (cases "canOpenFile e (fullPath f)")
        case False
        with r PaneObj show ?thesis by (simp add: addToPaneViewList_def)
      next
        case True
        with r PaneObj None ro pid have
          "s' = triggerHandler (paneViewListAdd f (fst (addToViewList p f index)) k)
               (setPane k (snd (addToViewList p f index)) s)"
          by (simp add: addToPaneViewList_def truthyId_def Let_def)
        with h m show ?thesis by blast
      qed
    qed
  qed
qed

lemma paneViews_cases:
  assumes w: "wf_state s"
  obtains p1 where "paneViews s = [(FIRST_PANE, p1)]"
  | p1 p2 where "paneViews s = [(FIRST_PANE, p1), (SECOND_PANE, p2)]"
proof (cases "hasOwnProperty (paneViews s) SECOND_PANE")
  case True
  from wf_two_panes [OF w True] that show ?thesis by blast
next
  case False
  from wf_one_pane [OF w False] that show ?thesis by blast
qed

lemma panesHolding_two:
  "paneViews s = [(k1, p1), (k2, p2)] \<Longrightarrow>
   panesHolding s fp =
     (if fp \<in> fullPath ` set (viewList p1) then [k1] else []) @
     (if fp \<in> fullPath ` set (viewList p2) then [k2] else [])"
  by (simp add: panesHolding_def findInViewList_holds)

lemma uniqueHolding_two:
  assumes pv: "paneViews s = [(k1, p1), (k2, p2)]"
  shows "uniqueHolding s = (fullPath ` set (viewList p1) \<inter> fullPath ` set (viewList p2) = {})"
proof
  assume u: "uniqueHolding s"
  show "fullPath ` set (viewList p1) \<inter> fullPath ` set (viewList p2) = {}"
  proof (rule ccontr)
    assume "fullPath ` set (viewList p1) \<inter> fullPath ` set (viewList p2) \<noteq> {}"
    then obtain fp where "fp \<in> fullPath ` set (viewList p1)" "fp \<in> fullPath ` set (viewList p2)"
      by blast
    then have "panesHolding s fp = [k1, k2]" by (simp add: panesHolding_two [OF pv])
    moreover from u have "length (panesHolding s fp) \<le> 1" by (simp add: uniqueHolding_def)
    ultimately show False by simp
  qed
next
  assume d: "fullPath ` set (viewList p1) \<inter> fullPath ` set (viewList p2) = {}"
  show "uniqueHolding s"
    unfolding uniqueHolding_def
  proof
    fix fp
    from d have "\<not> (fp \<in> fullPath ` set (viewList p1) \<and> fp \<in> fullPath ` set (viewList p2))"
      by blast
    then show "length (panesHolding s fp) \<le> 1"
      by (simp add: panesHolding_two [OF pv])
  qed
qed

lemma uniqueHolding_one: "paneViews s = [(k1, p1)] \<Longrightarrow> uniqueHolding s"
  by (simp add: uniqueHolding_def panesHolding_def)

lemma two_panes_lookup:
  assumes 2: "paneViews s = [(k1, p1), (k2, p2)]"
    and m: "map_of (paneViews s) k = Some p"
  shows "k = k1 \<and> p = p1 \<or> k = k2 \<and> p = p2"
  using m unfolding 2 by (simp split: if_splits)

lemma two_panes_not_holding:
  assumes 2: "paneViews s = [(k1, p1), (k2, p2)]"
    and h: "panesHolding s fp = []"
  shows "fp \<notin> fullPath ` set (viewList p1) \<and> fp \<notin> fullPath ` set (viewList p2)"
  using h by (simp add: panesHolding_two [OF 2] split: if_splits)

lemma disjoint_insert_left:
  assumes d: "A \<inter> B = {}" and n: "x \<notin> B" and e: "C = insert x A"
  shows "C \<inter> B = {}"
  using d n unfolding e by simp

lemma disjoint_insert_right:
  assumes d: "A \<inter> B = {}" and n: "x \<notin> A" and e: "C = insert x B"
  shows "A \<inter> C = {}"
  using d n unfolding e by simp

lemma unique_after_add:
  assumes w: "wf_state s" and u: "uniqueHolding s"
    and h: "panesHolding s (fullPath f) = []"
    and m: "map_of (paneViews s) k = Some p"
    and v: "set (viewList p') = insert f (set (viewList p))"
  shows "uniqueHolding (setPane k p' s)"
proof (cases rule: paneViews_cases [OF w])
  case (1 p1)
  have "paneViews (setPane k p' s) = [(FIRST_PANE, if FIRST_PANE = k then p' else p1)]"
    by (simp add: setPane_def updateProperty_def 1)
  then show ?thesis by (rule uniqueHolding_one)
next
  case (2 p1 p2)
  from u have d: "fullPath ` set (viewList p1) \<inter> fullPath ` set (viewList p2) = {}"
    by (rule uniqueHolding_two [OF 2, THEN iffD1])
  from two_panes_not_holding [OF 2 h]
  have n1: "fullPath f \<notin> fullPath ` set (viewList p1)"
    and n2: "fullPath f \<notin> fullPath ` set (viewList p2)" by simp_all
  have v': "fullPath ` set (viewList p') = insert (fullPath f) (fullPath ` set (viewList p))"
    unfolding v by (simp only: image_insert)
  from two_panes_lookup [OF 2 m] show ?thesis
  proof
    assume a: "k = FIRST_PANE \<and> p = p1"
    have pv: "paneViews (setPane k p' s) = [(FIRST_PANE, p'), (SECOND_PANE, p2)]"
      using a by (simp add: setPane_def 2 updateProperty_def)
    from a v' have "fullPath ` set (viewList p') = insert (fullPath f) (fullPath ` set (viewList p1))"
      by (simp only:)
    from disjoint_insert_left [OF d n2 this]
    show ?thesis by (rule uniqueHolding_two [OF pv, THEN iffD2])
  next
    assume a: "k = SECOND_PANE \<and> p = p2"
    have pv: "paneViews (setPane k p' s) = [(FIRST_PANE, p1), (SECOND_PANE, p')]"
      using a by (simp add: setPane_def 2 updateProperty_def)
    from a v' have "fullPath ` set (viewList p') = insert (fullPath f) (fullPath ` set (viewList p2))"
      by (simp only:)
    from disjoint_insert_right [OF d n1 this]
    show ?thesis by (rule uniqueHolding_two [OF pv, THEN iffD2])
  qed
qed

lemma unique_addToPaneViewList:
  assumes w: "wf_state s" and u: "uniqueHolding s"
    and r: "addToPaneViewList e paneId f index force s = Inr s'"
  shows "uniqueHolding s'"
proof -
  from addToPaneViewList_cases [OF w r] show ?thesis
  proof
    assume "s' = s"
    with u show ?thesis by simp
  next
    assume "panesHolding s (fullPath f) = [] \<and>
     (\<exists>k p. map_of (paneViews s) k = Some p \<and>
        s' = triggerHandler (paneViewListAdd f (fst (addToViewList p f index)) k)
               (setPane k (snd (addToViewList p f index)) s))"
    then obtain k p where h: "panesHolding s (fullPath f) = []"
      and m: "map_of (paneViews s) k = Some p"
      and s': "s' = triggerHandler (paneViewListAdd f (fst (addToViewList p f index)) k)
               (setPane k (snd (addToViewList p f index)) s)"
      by blast
    from unique_after_add [OF w u h m paths_addToViewList]
    have x: "uniqueHolding (setPane k (snd (addToViewList p f index)) s)" .
    have y: "viewLists s' = viewLists (setPane k (snd (addToViewList p f index)) s)"
      unfolding s' by simp
    show ?thesis by (rule iffD2 [OF uniqueHolding_cong [OF y] x])
  qed
qed

subsection \<open>Opening a document keeps every path in at most one pane\<close>

lemma getPaneFromPaneId_key:
  assumes k: "hasOwnProperty (paneViews s) k" and n: "k \<noteq> []" "k \<noteq> FOCUSED_PANE"
  shows "\<exists>p. getPaneFromPaneId s k = PaneObj k p \<and> map_of (paneViews s) k = Some p"
proof -
  from k obtain p where p: "map_of (paneViews s) k = Some p" by (auto simp: hasOwnProperty_def)
  with n have "getPaneFromPaneId s k = PaneObj k p"
    by (simp add: getPaneFromPaneId_def getProperty_def)
  with p show ?thesis by blast
qed

lemma addToPaneViewList_active:
  "wf_state s \<Longrightarrow> addToPaneViewList e paneId f index force s = Inr s' \<Longrightarrow>
   activePaneId s' = activePaneId s"
  by (auto dest!: addToPaneViewList_cases simp: setPane_def)

lemma addToPaneViewList_held:
  assumes w: "wf_state s" and g: "getPaneIdForPath s (fullPath f) = Some c"
    and r: "addToPaneViewList e paneId f index force s = Inr s'"
  shows "s' = s"
proof -
  from getPaneIdForPath_key [OF w g] have "panesHolding s (fullPath f) \<noteq> []" by auto
  with addToPaneViewList_cases [OF w r] show ?thesis by blast
qed

lemma addToPaneViewList_held_returns:
  assumes w: "wf_state s" and g: "getPaneIdForPath s (fullPath f) = Some c"
    and k: "getPaneFromPaneId s paneId = PaneObj k p"
  shows "addToPaneViewList e paneId f index force s = Inr s"
proof -
  from getPaneIdForPath_key [OF w g] g have "truthyId (getPaneIdForPath s (fullPath f))"
    by (simp add: truthyId_def)
  with k show ?thesis by (simp add: addToPaneViewList_def)
qed

lemma doEditIn_PaneObj:
  assumes w: "wf_state s" and k: "getPaneFromPaneId s paneId = PaneObj k p"
    and a: "(if isUntitled doc \<or> \<not> isWithinProject e (fullPath (doc_file doc)) then
               addToPaneViewList e paneId (doc_file doc) None False s
             else Inr s) = Inr s2"
  shows "\<exists>s'. doEditIn e paneId doc s = Inr s' \<and> viewLists s' = viewLists s2 \<and>
           activePaneId s' = activePaneId s"
proof -
  from w have i: "idsMatch s" by (simp add: wf_state_def)
  from k have m: "map_of (paneViews s) k = Some p" by (rule getPaneFromPaneId_PaneObj)
  from a w have sh2: "shape s s2"
    by (auto simp: wf_state_def dest: shape_addToPaneViewList split: if_splits)
  from a w have act2: "activePaneId s2 = activePaneId s"
    by (auto dest: addToPaneViewList_active split: if_splits)
  define s3 where
    "s3 = s2\<lparr>paneViews := updateProperty k (EditorManager_doOpenDocument doc) (paneViews s2)\<rparr>"
  define s4 where
    "s4 = (if pane_id p = activePaneId s3 then
             triggerHandler (currentFileChanged (Some (doc_file doc)) (pane_id p)) s3 else s3)"
  have sh3: "shape s2 s3" unfolding s3_def by (rule shape_updatePane) simp
  have sh4: "shape s3 s4" unfolding s4_def by simp
  from sh2 sh3 sh4 have sh: "shape s s4" by (blast intro: shape_trans)
  from sh w have w4: "wf_state s4" by (rule shape_wf)
  have v3: "viewLists s3 = viewLists s2"
    unfolding s3_def by (rule viewLists_updateProperty) (simp add: EditorManager_doOpenDocument_def)
  have v4: "viewLists s4 = viewLists s2" unfolding s4_def using v3 by simp
  have act4: "activePaneId s4 = activePaneId s" unfolding s4_def s3_def using act2 by simp
  have fp: "getPaneFromPaneId s4 paneId \<noteq> Null \<and> getPaneFromPaneId s4 paneId \<noteq> NotAPane"
  proof -
    from shape_keys [OF sh] have ks: "map fst (paneViews s4) = map fst (paneViews s)" .
    have "map_of (paneViews s4) x = None \<longleftrightarrow> map_of (paneViews s) x = None" for x
      by (simp add: map_of_eq_None_iff ks [symmetric] del: set_map)
         (metis ks set_map)
    with k act4 show ?thesis
      by (auto simp: getPaneFromPaneId_def getProperty_def Let_def getActivePaneId_def
          split: option.splits if_splits)
  qed
  then obtain k' p' where k': "getPaneFromPaneId s4 paneId = PaneObj k' p'"
    by (cases "getPaneFromPaneId s4 paneId") auto
  then have mm: "makePaneViewMostRecent paneId (doc_file doc) s4 =
      Inr (setPane k' (makeViewMostRecent p' (doc_file doc)) s4)"
    by (simp add: makePaneViewMostRecent_def)
  from viewLists_makePaneViewMostRecent [OF w4 mm] v4
  have v': "viewLists (setPane k' (makeViewMostRecent p' (doc_file doc)) s4) = viewLists s2"
    by simp
  have "doEditIn e paneId doc s = Inr (setPane k' (makeViewMostRecent p' (doc_file doc)) s4)"
    using k a mm [unfolded s4_def s3_def]
    by (simp add: doEditIn_def andThen_def Let_def s3_def s4_def)
  with v' act4 show ?thesis by (simp add: setPane_def)
qed

lemma doEditIn_cases:
  assumes w: "wf_state s" and r: "doEditIn e paneId doc s = Inr s'"
  shows "s' = s \<or>
    (\<exists>s2. (if isUntitled doc \<or> \<not> isWithinProject e (fullPath (doc_file doc)) then
               addToPaneViewList e paneId (doc_file doc) None False s
             else Inr s) = Inr s2 \<and> viewLists s' = viewLists s2 \<and>
           activePaneId s' = activePaneId s)"
proof (cases "getPaneFromPaneId s paneId")
  case Null
  with r show ?thesis by (simp add: doEditIn_def)
next
  case NotAPane
  with r show ?thesis by (auto simp: doEditIn_def andThen_def split: sum.splits)
next
  case (PaneObj k p)
  with r obtain s2 where
    a: "(if isUntitled doc \<or> \<not> isWithinProject e (fullPath (doc_file doc)) then
               addToPaneViewList e paneId (doc_file doc) None False s
             else Inr s) = Inr s2"
    by (auto simp: doEditIn_def andThen_def split: sum.splits)
  from doEditIn_PaneObj [OF w PaneObj a] r a show ?thesis by auto
qed

lemma unique_doEditIn:
  assumes w: "wf_state s" and u: "uniqueHolding s" and r: "doEditIn e paneId doc s = Inr s'"
  shows "uniqueHolding s'"
proof -
  from doEditIn_cases [OF w r] show ?thesis
  proof
    assume "s' = s"
    with u show ?thesis by simp
  next
    assume "\<exists>s2. (if isUntitled doc \<or> \<not> isWithinProject e (fullPath (doc_file doc)) then
               addToPaneViewList e paneId (doc_file doc) None False s
             else Inr s) = Inr s2 \<and> viewLists s' = viewLists s2 \<and>
           activePaneId s' = activePaneId s"
    then obtain s2 where a: "(if isUntitled doc \<or> \<not> isWithinProject e (fullPath (doc_file doc)) then
               addToPaneViewList e paneId (doc_file doc) None False s
             else Inr s) = Inr s2" and v: "viewLists s' = viewLists s2"
      by blast
    from a w u have "uniqueHolding s2"
      by (auto dest: unique_addToPaneViewList split: if_splits)
    then show ?thesis by (rule iffD2 [OF uniqueHolding_cong [OF v]])
  qed
qed

lemma unique_setActivePaneId:
  assumes u: "uniqueHolding s" and r: "setActivePaneId k s = Inr s'"
  shows "uniqueHolding s'"
proof -
  from r have "paneViews s' = paneViews s" by (rule paneViews_setActivePaneId)
  then have v: "viewLists s' = viewLists s" by (simp add: viewLists_def)
  from u show ?thesis by (rule iffD2 [OF uniqueHolding_cong [OF v]])
qed

lemma wf_setActivePaneId: "wf_state s \<Longrightarrow> setActivePaneId k s = Inr s' \<Longrightarrow> wf_state s'"
  by (blast intro: shape_wf shape_setActivePaneId)

lemma unique_doEdit:
  assumes w: "wf_state s" and u: "uniqueHolding s" and r: "doEdit e paneId doc s = Inr s'"
  shows "uniqueHolding s'"
proof (cases "getPaneIdForPath s (fullPath (doc_file doc))")
  case None
  with r w u show ?thesis by (auto simp: doEdit_def intro: unique_doEditIn)
next
  case (Some c)
  from getPaneIdForPath_key [OF w Some] have "c \<noteq> []" by simp
  with Some r obtain s1 where a: "setActivePaneId c s = Inr s1" and b: "doEditIn e c doc s1 = Inr s'"
    by (auto simp: doEdit_def andThen_def split: sum.splits)
  from w a have "wf_state s1" by (rule wf_setActivePaneId)
  moreover from u a have "uniqueHolding s1" by (rule unique_setActivePaneId)
  ultimately show ?thesis using b by (rule unique_doEditIn)
qed

lemma wf_doEdit:
  assumes w: "wf_state s" and r: "doEdit e paneId doc s = Inr s'"
  shows "wf_state s'"
proof -
  from w have "idsMatch s" by (simp add: wf_state_def)
  from this r have "shape s s'" by (rule shape_doEdit)
  then show ?thesis using w by (rule shape_wf)
qed

lemma unique_doOpenIn:
  "wf_state s \<Longrightarrow> uniqueHolding s \<Longrightarrow> doOpenIn e paneId f s = Inr (res, s') \<Longrightarrow> uniqueHolding s'"
  by (auto simp: doOpenIn_def andThen_def dest: unique_doEdit
      split: option.splits sum.splits if_splits)

lemma unique_doOpen:
  assumes w: "wf_state s" and u: "uniqueHolding s" and r: "doOpen e paneId fileArg s = Inr (res, s')"
  shows "uniqueHolding s'"
proof (cases fileArg)
  case None
  with r u show ?thesis by (simp add: doOpen_def)
next
  case (Some f)
  note f = this
  show ?thesis
  proof (cases "getPaneIdForPath s (fullPath f)")
    case None
    with r w u f show ?thesis by (auto simp: doOpen_def intro: unique_doOpenIn)
  next
    case (Some c)
    from getPaneIdForPath_key [OF w Some] have "c \<noteq> []" by simp
    with Some r f obtain s1 where a: "setActivePaneId c s = Inr s1"
        and b: "doOpenIn e c f s1 = Inr (res, s')"
      by (auto simp: doOpen_def andThen_def split: sum.splits)
    from w a have "wf_state s1" by (rule wf_setActivePaneId)
    moreover from u a have "uniqueHolding s1" by (rule unique_setActivePaneId)
    ultimately show ?thesis using b by (rule unique_doOpenIn)
  qed
qed

subsection \<open>The example states\<close>

lemma wf_split_state: "wf_state split_state"
  using reachable_split_state by (rule reachable_wf)

lemma uniqueHolding_split_state: "uniqueHolding split_state"
proof -
  have pv: "paneViews split_state =
      [(FIRST_PANE, \<lparr>pane_id = FIRST_PANE, viewList = [File ''/a.js''],
                      viewListMRUOrder = [File ''/a.js''], currentlyViewedFile = None\<rparr>),
       (SECOND_PANE, \<lparr>pane_id = SECOND_PANE, viewList = [File ''/d.js''],
                       viewListMRUOrder = [File ''/d.js''], currentlyViewedFile = None\<rparr>)]"
    by (simp add: split_state_def)
  show ?thesis by (simp add: uniqueHolding_two [OF pv])
qed

subsection \<open>C4: opening a file that is already open\<close>

lemma getPaneIdForPath_paneViews:
  "paneViews s' = paneViews s \<Longrightarrow> getPaneIdForPath s' fp = getPaneIdForPath s fp"
  by (simp add: getPaneIdForPath_def)

lemma viewLists_paneViews: "paneViews s' = paneViews s \<Longrightarrow> viewLists s' = viewLists s"
  by (simp add: viewLists_def)

lemma doEdit_held:
  assumes w: "wf_state s" and g: "getPaneIdForPath s (fullPath (doc_file doc)) = Some c"
  shows "\<exists>s'. doEdit e paneId doc s = Inr s' \<and> viewLists s' = viewLists s \<and> activePaneId s' = c"
proof -
  from getPaneIdForPath_key [OF w g] have k: "hasOwnProperty (paneViews s) c"
    and n: "c \<noteq> []" "c \<noteq> FOCUSED_PANE" by simp_all
  from setActivePaneId_key [OF k] obtain s1 where
    s1: "setActivePaneId c s = Inr s1" "activePaneId s1 = c" "paneViews s1 = paneViews s"
    by blast
  from w s1(1) have w1: "wf_state s1" by (rule wf_setActivePaneId)
  from g have g1: "getPaneIdForPath s1 (fullPath (doc_file doc)) = Some c"
    by (simp only: getPaneIdForPath_paneViews [OF s1(3)])
  from k s1(3) have "hasOwnProperty (paneViews s1) c" by simp
  from getPaneFromPaneId_key [OF this n] obtain p where p: "getPaneFromPaneId s1 c = PaneObj c p"
    by blast
  have a: "(if isUntitled doc \<or> \<not> isWithinProject e (fullPath (doc_file doc)) then
               addToPaneViewList e c (doc_file doc) None False s1
             else Inr s1) = Inr s1"
    using addToPaneViewList_held_returns [OF w1 g1 p] by simp
  from doEditIn_PaneObj [OF w1 p a] obtain s' where
    "doEditIn e c doc s1 = Inr s'" "viewLists s' = viewLists s1" "activePaneId s' = activePaneId s1"
    by blast
  moreover from s1(3) have "viewLists s1 = viewLists s" by (rule viewLists_paneViews)
  ultimately show ?thesis using g n s1
    by (simp add: doEdit_def andThen_def)
qed

lemma doOpenIn_held:
  assumes w: "wf_state s" and e: "documentsKeepPath e"
    and g: "getPaneIdForPath s (fullPath f) = Some c" and a: "activePaneId s = c"
  shows "\<exists>r s'. doOpenIn e paneId f s = Inr (r, s') \<and> viewLists s' = viewLists s \<and>
           activePaneId s' = c"
proof (cases "getOpenDocumentForPath e (fullPath f)")
  case (Some d)
  with e have "fullPath (doc_file d) = fullPath f" by (simp add: documentsKeepPath_def)
  with g have "getPaneIdForPath s (fullPath (doc_file d)) = Some c" by simp
  from doEdit_held [OF w this, of e paneId] Some show ?thesis
    by (auto simp: doOpenIn_def andThen_def)
next
  case None
  note nodoc = this
  show ?thesis
  proof (cases "canOpenFile e (fullPath f)")
    case False
    with nodoc a show ?thesis by (simp add: doOpenIn_def)
  next
    case True
    show ?thesis
    proof (cases "getDocumentForPath e (fullPath f)")
      case (Inl fe)
      with nodoc True a show ?thesis by (simp add: doOpenIn_def)
    next
      case (Inr d)
      with e have "fullPath (doc_file d) = fullPath f" by (simp add: documentsKeepPath_def)
      with g have "getPaneIdForPath s (fullPath (doc_file d)) = Some c" by simp
      from doEdit_held [OF w this, of e paneId] nodoc True Inr show ?thesis
        by (auto simp: doOpenIn_def andThen_def)
    qed
  qed
qed

lemma doOpen_held:
  assumes w: "wf_state s" and e: "documentsKeepPath e"
    and g: "getPaneIdForPath s (fullPath f) = Some c"
  shows "\<exists>r s'. doOpen e paneId (Some f) s = Inr (r, s') \<and> viewLists s' = viewLists s \<and>
           activePaneId s' = c"
proof -
  from getPaneIdForPath_key [OF w g] have k: "hasOwnProperty (paneViews s) c"
    and n: "c \<noteq> []" by simp_all
  from setActivePaneId_key [OF k] obtain s1 where
    s1: "setActivePaneId c s = Inr s1" "activePaneId s1 = c" "paneViews s1 = paneViews s"
    by blast
  from w s1(1) have w1: "wf_state s1" by (rule wf_setActivePaneId)
  from g have g1: "getPaneIdForPath s1 (fullPath f) = Some c"
    by (simp only: getPaneIdForPath_paneViews [OF s1(3)])
  from doOpenIn_held [OF w1 e g1 s1(2), of c] obtain r s' where
    "doOpenIn e c f s1 = Inr (r, s')" "viewLists s' = viewLists s1" "activePaneId s' = c"
    by blast
  moreover from s1(3) have "viewLists s1 = viewLists s" by (rule viewLists_paneViews)
  ultimately show ?thesis using g n s1
    by (simp add: doOpen_def andThen_def)
qed

text \<open>
  C4. When the file is already in the view list of some pane \<open>B\<close>, \<^verbatim>\<open>doOpen\<close> with any
  requested pane id returns, leaves every pane's view list as it was, and makes active
  a pane that holds the file: the first such pane of the registry, which is \<open>B\<close> when
  no other pane holds the file.
\<close>

theorem doOpen_of_open_file_activates_its_pane:
  assumes "wf_state s" and "documentsKeepPath e"
    and "B \<in> set (panesHolding s (fullPath f))"
  shows "\<exists>r s'. doOpen e A (Some f) s = Inr (r, s') \<and> viewLists s' = viewLists s \<and>
           activePaneId s' \<in> set (panesHolding s (fullPath f)) \<and>
           (uniqueHolding s \<longrightarrow> activePaneId s' = B)"
proof -
  from assms(1) have i: "idsMatch s" by (simp add: wf_state_def)
  from assms(3) obtain c cs where h: "panesHolding s (fullPath f) = c # cs"
    by (cases "panesHolding s (fullPath f)") auto
  with getPaneIdForPath_holding [OF i, of "fullPath f"]
  have g: "getPaneIdForPath s (fullPath f) = Some c" by simp
  from doOpen_held [OF assms(1) assms(2) g, of A] obtain r s' where
    r: "doOpen e A (Some f) s = Inr (r, s')" "viewLists s' = viewLists s" "activePaneId s' = c"
    by blast
  have "uniqueHolding s \<longrightarrow> c = B"
  proof
    assume "uniqueHolding s"
    then have "length (panesHolding s (fullPath f)) \<le> 1" by (simp add: uniqueHolding_def)
    with h have "cs = []" by simp
    with h assms(3) show "c = B" by simp
  qed
  with r h show ?thesis by simp
qed

theorem doOpen_of_open_file_activates_its_pane_witness:
  "wf_state split_state \<and> documentsKeepPath example_env \<and> uniqueHolding split_state \<and>
   FIRST_PANE \<in> set (panesHolding split_state (fullPath (File ''/a.js''))) \<and>
   activePaneId split_state = SECOND_PANE \<and>
   (\<exists>r s'. doOpen example_env SECOND_PANE (Some (File ''/a.js'')) split_state = Inr (r, s') \<and>
      viewLists s' = viewLists split_state \<and> activePaneId s' = FIRST_PANE)"
proof -
  have d: "documentsKeepPath example_env"
    by (simp add: documentsKeepPath_def example_env_def)
  have h: "FIRST_PANE \<in> set (panesHolding split_state (fullPath (File ''/a.js'')))"
    by (simp add: panesHolding_def split_state_def findInViewList_def)
  have a: "activePaneId split_state = SECOND_PANE" by (simp add: split_state_def)
  from doOpen_of_open_file_activates_its_pane [OF wf_split_state d h, of SECOND_PANE]
    uniqueHolding_split_state wf_split_state d h a
  show ?thesis by blast
qed

subsection \<open>C2: unsplitting\<close>

lemma viewListOf_two:
  "paneViews s = [(FIRST_PANE, p1), (SECOND_PANE, p2)] \<Longrightarrow>
   viewListOf s FIRST_PANE = viewList p1 \<and> viewListOf s SECOND_PANE = viewList p2"
  by (simp add: viewListOf_def)

lemma distinct_paths: "distinct (map fullPath fs) = distinct fs"
proof -
  have "inj_on fullPath (set fs)" by (rule inj_onI) (simp add: fileref.expand)
  then show ?thesis by (simp add: distinct_map)
qed

text \<open>
  C2. From every reachable state in which the second pane exists, unsplitting returns
  and leaves the first pane's view list equal to its old view list followed by the
  second pane's: the same files with the same multiplicities, so none is lost and none
  duplicated, and no file appears twice when none did and no path was in both panes.
  The first pane is then the active pane and the only pane of the registry.
\<close>

theorem unsplit_appends_second_to_first:
  assumes "reachable s" and "SECOND_PANE \<in> set (getPaneIdList s)"
  shows "\<exists>s'. doUnsplit s = Inr s' \<and>
           viewListOf s' FIRST_PANE = viewListOf s FIRST_PANE @ viewListOf s SECOND_PANE \<and>
           mset (viewListOf s' FIRST_PANE) =
             mset (viewListOf s FIRST_PANE) + mset (viewListOf s SECOND_PANE) \<and>
           (distinct (viewListOf s FIRST_PANE) \<longrightarrow> distinct (viewListOf s SECOND_PANE) \<longrightarrow>
              uniqueHolding s \<longrightarrow> distinct (viewListOf s' FIRST_PANE)) \<and>
           activePaneId s' = FIRST_PANE \<and> getPaneIdList s' = [FIRST_PANE]"
proof -
  from assms(1) have w: "wf_state s" by (rule reachable_wf)
  from assms(2) have "hasOwnProperty (paneViews s) SECOND_PANE"
    by (simp add: hasOwnProperty_iff getPaneIdList_def)
  from wf_two_panes [OF w this] obtain p1 p2 where
    pv: "paneViews s = [(FIRST_PANE, p1), (SECOND_PANE, p2)]"
      "pane_id p1 = FIRST_PANE" "pane_id p2 = SECOND_PANE"
    by blast
  from doUnsplit_two_panes [OF pv] obtain s' where
    s': "doUnsplit s = Inr s'" "paneViews s' = [(FIRST_PANE, mergeWith p1 p2)]"
      "activePaneId s' = FIRST_PANE"
    by blast
  from s'(2) have v': "viewListOf s' FIRST_PANE = viewList p1 @ viewList p2"
    by (simp add: viewListOf_def mergeWith_def)
  from viewListOf_two [OF pv(1)] have v: "viewListOf s FIRST_PANE = viewList p1"
    "viewListOf s SECOND_PANE = viewList p2" by simp_all
  have d: "distinct (viewList p1) \<longrightarrow> distinct (viewList p2) \<longrightarrow> uniqueHolding s \<longrightarrow>
      distinct (viewList p1 @ viewList p2)"
  proof (intro impI)
    assume d1: "distinct (viewList p1)" and d2: "distinct (viewList p2)" and u: "uniqueHolding s"
    from u have "fullPath ` set (viewList p1) \<inter> fullPath ` set (viewList p2) = {}"
      by (rule uniqueHolding_two [OF pv(1), THEN iffD1])
    then have "set (viewList p1) \<inter> set (viewList p2) = {}" by blast
    with d1 d2 show "distinct (viewList p1 @ viewList p2)" by simp
  qed
  from s' v v' d show ?thesis by (simp add: getPaneIdList_def)
qed

theorem unsplit_appends_second_to_first_witness:
  "reachable split_state \<and> SECOND_PANE \<in> set (getPaneIdList split_state) \<and>
   viewListOf split_state FIRST_PANE = [File ''/a.js''] \<and>
   viewListOf split_state SECOND_PANE = [File ''/d.js''] \<and>
   uniqueHolding split_state \<and>
   (\<exists>s'. doUnsplit split_state = Inr s' \<and>
      viewListOf s' FIRST_PANE = [File ''/a.js'', File ''/d.js''] \<and>
      distinct (viewListOf s' FIRST_PANE) \<and>
      activePaneId s' = FIRST_PANE \<and> getPaneIdList s' = [FIRST_PANE])"
proof -
  have k: "SECOND_PANE \<in> set (getPaneIdList split_state)"
    by (simp add: split_state_def getPaneIdList_def)
  have a: "viewListOf split_state FIRST_PANE = [File ''/a.js'']"
    by (simp add: split_state_def viewListOf_def)
  have d: "viewListOf split_state SECOND_PANE = [File ''/d.js'']"
    by (simp add: split_state_def viewListOf_def FIRST_PANE_def SECOND_PANE_def)
  from unsplit_appends_second_to_first [OF reachable_split_state k] obtain s' where
    "doUnsplit split_state = Inr s'"
    "viewListOf s' FIRST_PANE = viewListOf split_state FIRST_PANE @ viewListOf split_state SECOND_PANE"
    "distinct (viewListOf split_state FIRST_PANE) \<longrightarrow> distinct (viewListOf split_state SECOND_PANE) \<longrightarrow>
              uniqueHolding split_state \<longrightarrow> distinct (viewListOf s' FIRST_PANE)"
    "activePaneId s' = FIRST_PANE" "getPaneIdList s' = [FIRST_PANE]"
    by blast
  with a d uniqueHolding_split_state reachable_split_state k show ?thesis by simp
qed

subsection \<open>C8: traversal in MRU order\<close>

lemma indexOfPath_nth:
  "distinct fs \<Longrightarrow> i < length fs \<Longrightarrow> indexOfPath (fullPath (fs ! i)) fs = int i"
proof (induction fs arbitrary: i)
  case Nil
  then show ?case by simp
next
  case (Cons f fs)
  show ?case
  proof (cases i)
    case 0
    then show ?thesis by simp
  next
    case (Suc j)
    with Cons.prems have j: "j < length fs" and d: "distinct fs" and n: "f \<notin> set fs" by simp_all
    from j n have "fs ! j \<noteq> f" by (metis nth_mem)
    then have "fullPath (fs ! j) \<noteq> fullPath f" by (auto simp: fileref.expand)
    with Cons.IH [OF d j] Suc show ?thesis by (simp add: Let_def)
  qed
qed

lemma traverse_at:
  assumes d: "distinct (viewListMRUOrder p)" and i: "i < length (viewListMRUOrder p)"
    and c: "currentlyViewedFile p = Some (viewListMRUOrder p ! i)"
    and dir: "direction = 1 \<or> direction = - 1"
  shows "traverseViewListByMRU p direction =
           Some (viewListMRUOrder p ! nat ((int i + direction) mod int (length (viewListMRUOrder p))))"
proof -
  let ?n = "int (length (viewListMRUOrder p))"
  from i have n: "0 < ?n" by auto
  from indexOfPath_nth [OF d i] c
  have ix: "findInViewListMRUOrder p (fullPath (viewListMRUOrder p ! i)) = int i"
    by (simp add: findInViewListMRUOrder_def)
  from dir show ?thesis
  proof
    assume d1: "direction = 1"
    show ?thesis
    proof (cases "int i + 1 \<ge> ?n")
      case True
      with i have "int i + 1 = ?n" by simp
      then have "(int i + 1) mod ?n = 0" by simp
      with True d1 c ix n show ?thesis
        by (simp add: traverseViewListByMRU_def Let_def)
    next
      case False
      then have "(int i + 1) mod ?n = int i + 1" by simp
      with False d1 c ix n show ?thesis
        by (simp add: traverseViewListByMRU_def Let_def)
    qed
  next
    assume d2: "direction = - 1"
    show ?thesis
    proof (cases "i = 0")
      case True
      from n have "(- 1) mod ?n = ?n - 1" by (simp add: zmod_minus1)
      with True d2 c ix n show ?thesis
        by (simp add: traverseViewListByMRU_def Let_def)
    next
      case False
      with i have "(int i - 1) mod ?n = int i - 1" by simp
      with False d2 c ix n i show ?thesis
        by (simp add: traverseViewListByMRU_def Let_def)
    qed
  qed
qed

lemma traverse_round_trip:
  assumes d: "distinct (viewListMRUOrder p)" and i: "i < length (viewListMRUOrder p)"
    and c: "currentlyViewedFile p = Some (viewListMRUOrder p ! i)"
  shows "\<exists>nxt. traverseViewListByMRU p 1 = Some nxt \<and> nxt \<in> set (viewListMRUOrder p) \<and>
           traverseViewListByMRU (p\<lparr>currentlyViewedFile := Some nxt\<rparr>) (- 1) =
             Some (viewListMRUOrder p ! i)"
proof -
  let ?mru = "viewListMRUOrder p"
  let ?n = "int (length ?mru)"
  let ?j = "nat ((int i + 1) mod ?n)"
  let ?q = "p\<lparr>currentlyViewedFile := Some (?mru ! ?j)\<rparr>"
  from i have n: "0 < ?n" by auto
  then have j: "?j < length ?mru"
    by (metis nat_less_iff pos_mod_bound pos_mod_sign)
  from traverse_at [OF d i c, of 1] have t1: "traverseViewListByMRU p 1 = Some (?mru ! ?j)" by simp
  have "traverseViewListByMRU ?q (- 1) =
          Some (viewListMRUOrder ?q ! nat ((int ?j + - 1) mod int (length (viewListMRUOrder ?q))))"
    by (rule traverse_at) (use d j in simp_all)
  moreover have "(int ?j + - 1) mod ?n = int i"
  proof -
    from n have "int ?j = (int i + 1) mod ?n" by simp
    then have "(int ?j + - 1) mod ?n = ((int i + 1) mod ?n - 1) mod ?n" by simp
    also have "\<dots> = (int i + 1 - 1) mod ?n" by (simp add: mod_diff_left_eq)
    also from i have "\<dots> = int i" by simp
    finally show ?thesis .
  qed
  ultimately have "traverseViewListByMRU ?q (- 1) = Some (?mru ! i)" by simp
  with t1 j show ?thesis by simp
qed

text \<open>
  C8. On a valid pane, \<^verbatim>\<open>traversePaneViewListByMRU\<close> with direction \<open>+1\<close> or \<open>-1\<close> gives
  what the pane's traversal gives: nothing when the view list is empty, the one file
  when it holds exactly one, and otherwise the file next to the current one in MRU
  order, wrapping at both ends; and going \<open>+1\<close> and then \<open>-1\<close> from a current file of
  a view list with at least two entries comes back to that file.
\<close>

theorem traverse_by_MRU_wraps_and_returns:
  assumes "getPaneFromPaneId s paneId = PaneObj k p" and "validPane p"
    and "direction = 1 \<or> direction = - 1"
  shows "traversePaneViewListByMRU s paneId direction = Inr (traverseViewListByMRU p direction) \<and>
    (viewList p = [] \<longrightarrow> traverseViewListByMRU p direction = None) \<and>
    (viewList p = [f] \<longrightarrow> traverseViewListByMRU p direction = Some f) \<and>
    (i < length (viewListMRUOrder p) \<longrightarrow> currentlyViewedFile p = Some (viewListMRUOrder p ! i) \<longrightarrow>
       traverseViewListByMRU p direction =
         Some (viewListMRUOrder p ! nat ((int i + direction) mod int (length (viewListMRUOrder p))))) \<and>
    (2 \<le> length (viewList p) \<longrightarrow> currentlyViewedFile p = Some c \<longrightarrow> c \<in> set (viewList p) \<longrightarrow>
       (\<exists>nxt. traversePaneViewListByMRU s paneId 1 = Inr (Some nxt) \<and>
          nxt \<in> set (viewList p) \<and> nxt \<noteq> c \<and>
          traverseViewListByMRU (p\<lparr>currentlyViewedFile := Some nxt\<rparr>) (- 1) = Some c))"
proof -
  from assms(2) have m: "mset (viewListMRUOrder p) = mset (viewList p)" and dv: "distinct (viewList p)"
    by (simp_all add: validPane_def)
  from m have st: "set (viewListMRUOrder p) = set (viewList p)" by (rule mset_eq_setD)
  from m have len: "length (viewListMRUOrder p) = length (viewList p)" by (rule mset_eq_length)
  from m dv have d: "distinct (viewListMRUOrder p)" by (metis mset_eq_imp_distinct_iff)
  have t: "traversePaneViewListByMRU s paneId dd = Inr (traverseViewListByMRU p dd)" for dd
    using assms(1) by (simp add: traversePaneViewListByMRU_def)
  have e: "viewList p = [] \<longrightarrow> traverseViewListByMRU p direction = None"
    using len by (auto simp: traverseViewListByMRU_def Let_def)
  have o: "viewList p = [f] \<longrightarrow> traverseViewListByMRU p direction = Some f"
  proof
    assume v: "viewList p = [f]"
    with m have "mset (viewListMRUOrder p) = {#f#}" by simp
    then have mru: "viewListMRUOrder p = [f]" by (simp add: mset_single_iff_right)
    have "indexOfPath fp [f] = - 1 \<or> indexOfPath fp [f] = 0" for fp by simp
    then have "findInViewListMRUOrder p fp = - 1 \<or> findInViewListMRUOrder p fp = 0" for fp
      by (simp add: findInViewListMRUOrder_def mru)
    with assms(3) mru show "traverseViewListByMRU p direction = Some f"
      by (auto simp: traverseViewListByMRU_def Let_def split: option.splits)
  qed
  have a: "i < length (viewListMRUOrder p) \<longrightarrow>
      currentlyViewedFile p = Some (viewListMRUOrder p ! i) \<longrightarrow>
       traverseViewListByMRU p direction =
         Some (viewListMRUOrder p ! nat ((int i + direction) mod int (length (viewListMRUOrder p))))"
    using traverse_at [OF d _ _ assms(3)] by blast
  have r: "2 \<le> length (viewList p) \<longrightarrow> currentlyViewedFile p = Some c \<longrightarrow> c \<in> set (viewList p) \<longrightarrow>
       (\<exists>nxt. traversePaneViewListByMRU s paneId 1 = Inr (Some nxt) \<and>
          nxt \<in> set (viewList p) \<and> nxt \<noteq> c \<and>
          traverseViewListByMRU (p\<lparr>currentlyViewedFile := Some nxt\<rparr>) (- 1) = Some c)"
  proof (intro impI)
    assume l: "2 \<le> length (viewList p)" and cur: "currentlyViewedFile p = Some c"
      and cin: "c \<in> set (viewList p)"
    from cin st have "c \<in> set (viewListMRUOrder p)" by simp
    then obtain j where j: "j < length (viewListMRUOrder p)" "viewListMRUOrder p ! j = c"
      by (auto simp: in_set_conv_nth)
    from cur j have cj: "currentlyViewedFile p = Some (viewListMRUOrder p ! j)" by simp
    from traverse_round_trip [OF d j(1) cj] obtain nxt where
      nx: "traverseViewListByMRU p 1 = Some nxt" "nxt \<in> set (viewListMRUOrder p)"
        "traverseViewListByMRU (p\<lparr>currentlyViewedFile := Some nxt\<rparr>) (- 1) = Some c"
      using j(2) by auto
    have ne: "nxt \<noteq> c"
    proof
      assume eq: "nxt = c"
      let ?n = "int (length (viewListMRUOrder p))"
      from l len have n2: "2 \<le> ?n" by simp
      then have pos: "0 < ?n" by linarith
      have lo: "0 \<le> (int j + 1) mod ?n" using pos by (rule pos_mod_sign)
      have hi: "(int j + 1) mod ?n < ?n" using pos by (rule pos_mod_bound)
      from traverse_at [OF d j(1) cj, of 1] nx(1) eq j(2)
      have "viewListMRUOrder p ! nat ((int j + 1) mod ?n) = viewListMRUOrder p ! j" by simp
      moreover from lo hi have "nat ((int j + 1) mod ?n) < length (viewListMRUOrder p)"
        by linarith
      ultimately have "nat ((int j + 1) mod ?n) = j"
        using d j(1) by (simp add: nth_eq_iff_index_eq)
      with lo have m: "(int j + 1) mod ?n = int j" by linarith
      show False
      proof (cases "int j + 1 < ?n")
        case True
        then have "(int j + 1) mod ?n = int j + 1" by simp
        with m show False by simp
      next
        case False
        with j(1) have "int j + 1 = ?n" by simp
        then have "(int j + 1) mod ?n = 0" by simp
        with m have "int j = 0" by simp
        with \<open>int j + 1 = ?n\<close> n2 show False by simp
      qed
    qed
    from nx ne st t [of 1] show "\<exists>nxt. traversePaneViewListByMRU s paneId 1 = Inr (Some nxt) \<and>
          nxt \<in> set (viewList p) \<and> nxt \<noteq> c \<and>
          traverseViewListByMRU (p\<lparr>currentlyViewedFile := Some nxt\<rparr>) (- 1) = Some c"
      by auto
  qed
  from t [of direction] e o a r show ?thesis by blast
qed

theorem traverse_by_MRU_wraps_and_returns_witness:
  "getPaneFromPaneId mru_state FIRST_PANE = PaneObj FIRST_PANE mru_pane \<and> validPane mru_pane \<and>
   2 \<le> length (viewList mru_pane) \<and> currentlyViewedFile mru_pane = Some (File ''/B'') \<and>
   File ''/B'' \<in> set (viewList mru_pane) \<and>
   traversePaneViewListByMRU mru_state FIRST_PANE 1 = Inr (Some (File ''/A'')) \<and>
   traversePaneViewListByMRU mru_state FIRST_PANE (- 1) = Inr (Some (File ''/C'')) \<and>
   (\<exists>nxt. traversePaneViewListByMRU mru_state FIRST_PANE 1 = Inr (Some nxt) \<and>
      traverseViewListByMRU (mru_pane\<lparr>currentlyViewedFile := Some nxt\<rparr>) (- 1) =
        Some (File ''/B''))"
proof -
  have g: "getPaneFromPaneId mru_state FIRST_PANE = PaneObj FIRST_PANE mru_pane"
    by (simp add: mru_state_def getPaneFromPaneId_def getProperty_def)
  have v: "validPane mru_pane" by (simp add: validPane_def mru_pane_def)
  have l: "2 \<le> length (viewList mru_pane)" by (simp add: mru_pane_def)
  have c: "currentlyViewedFile mru_pane = Some (File ''/B'')" by (simp add: mru_pane_def)
  have m: "File ''/B'' \<in> set (viewList mru_pane)" by (simp add: mru_pane_def)
  have i: "(0::nat) < length (viewListMRUOrder mru_pane)"
    "currentlyViewedFile mru_pane = Some (viewListMRUOrder mru_pane ! 0)"
    by (simp_all add: mru_pane_def)
  from traverse_by_MRU_wraps_and_returns [OF g v, of 1 _ 0 "File ''/B''"] l c m i
  have 1: "traversePaneViewListByMRU mru_state FIRST_PANE 1 = Inr (Some (File ''/A''))"
    and 3: "\<exists>nxt. traversePaneViewListByMRU mru_state FIRST_PANE 1 = Inr (Some nxt) \<and>
      traverseViewListByMRU (mru_pane\<lparr>currentlyViewedFile := Some nxt\<rparr>) (- 1) =
        Some (File ''/B'')"
    by (auto simp: mru_pane_def)
  from traverse_by_MRU_wraps_and_returns [OF g v, of "- 1" _ 0 "File ''/B''"] i
  have 2: "traversePaneViewListByMRU mru_state FIRST_PANE (- 1) = Inr (Some (File ''/C''))"
    by (simp add: mru_pane_def)
  from g v l c m 1 2 3 show ?thesis by blast
qed

subsection \<open>C6: how doOpen rejects\<close>

lemma doOpenIn_result:
  assumes r: "doOpenIn e paneId f s = Inr (res, s')"
  shows "(res = Rejected (Diagnostic ''bad argument'')) = False \<and>
    (res = Rejected (Diagnostic
        ''custom viewers not yet implemented with split view. check back later.'')) =
      (getOpenDocumentForPath e (fullPath f) = None \<and> \<not> canOpenFile e (fullPath f))"
  using r
  by (auto simp: doOpenIn_def andThen_def split: option.splits sum.splits if_splits)

text \<open>
  C6, as amended. \<^verbatim>\<open>doOpen\<close> called with no file rejects with "bad argument" and changes
  nothing. Called with a file, it rejects with the custom-viewer diagnostic exactly when
  no document is open for the file and the file needs a custom viewer, whatever the
  split state; in a well-formed state such a call always returns so. In no other case
  does the result carry either diagnostic.
\<close>

theorem doOpen_rejections:
  "doOpen e paneId None s = Inr (Rejected (Diagnostic ''bad argument''), s) \<and>
   (doOpen e paneId fileArg s = Inr (res, s') \<longrightarrow>
      (res = Rejected (Diagnostic ''bad argument'')) = (fileArg = None) \<and>
      (res = Rejected (Diagnostic
          ''custom viewers not yet implemented with split view. check back later.'')) =
        (\<exists>f. fileArg = Some f \<and> getOpenDocumentForPath e (fullPath f) = None \<and>
             \<not> canOpenFile e (fullPath f))) \<and>
   (wf_state s \<longrightarrow> getOpenDocumentForPath e (fullPath f) = None \<longrightarrow>
      \<not> canOpenFile e (fullPath f) \<longrightarrow>
      (\<exists>u. doOpen e paneId (Some f) s =
         Inr (Rejected (Diagnostic
           ''custom viewers not yet implemented with split view. check back later.''), u) \<and>
         orientation u = orientation s))"
proof (intro conjI impI)
  show "doOpen e paneId None s = Inr (Rejected (Diagnostic ''bad argument''), s)"
    by (simp add: doOpen_def)
next
  assume r: "doOpen e paneId fileArg s = Inr (res, s')"
  show "(res = Rejected (Diagnostic ''bad argument'')) = (fileArg = None)"
  proof (cases fileArg)
    case None
    with r show ?thesis by (simp add: doOpen_def)
  next
    case (Some f)
    with r obtain pid t where "doOpenIn e pid f t = Inr (res, s')"
      by (auto simp: doOpen_def andThen_def split: option.splits if_splits sum.splits)
    from doOpenIn_result [OF this] Some show ?thesis by simp
  qed
next
  assume r: "doOpen e paneId fileArg s = Inr (res, s')"
  show "(res = Rejected (Diagnostic
          ''custom viewers not yet implemented with split view. check back later.'')) =
        (\<exists>f. fileArg = Some f \<and> getOpenDocumentForPath e (fullPath f) = None \<and>
             \<not> canOpenFile e (fullPath f))"
  proof (cases fileArg)
    case None
    with r show ?thesis by (auto simp: doOpen_def)
  next
    case (Some f)
    with r obtain pid t where "doOpenIn e pid f t = Inr (res, s')"
      by (auto simp: doOpen_def andThen_def split: option.splits if_splits sum.splits)
    from doOpenIn_result [OF this] Some show ?thesis by simp
  qed
next
  assume w: "wf_state s" and nd: "getOpenDocumentForPath e (fullPath f) = None"
    and nc: "\<not> canOpenFile e (fullPath f)"
  have in_: "doOpenIn e pid f t =
      Inr (Rejected (Diagnostic
        ''custom viewers not yet implemented with split view. check back later.''), t)" for pid t
    using nd nc by (simp add: doOpenIn_def)
  show "\<exists>u. doOpen e paneId (Some f) s =
         Inr (Rejected (Diagnostic
           ''custom viewers not yet implemented with split view. check back later.''), u) \<and>
         orientation u = orientation s"
  proof (cases "getPaneIdForPath s (fullPath f)")
    case None
    then show ?thesis by (simp add: doOpen_def in_)
  next
    case (Some c)
    from getPaneIdForPath_key [OF w Some] have k: "hasOwnProperty (paneViews s) c"
      and n: "c \<noteq> []" by simp_all
    from setActivePaneId_key [OF k] obtain s1 where
      "setActivePaneId c s = Inr s1" "orientation s1 = orientation s" by blast
    with Some n show ?thesis by (simp add: doOpen_def andThen_def in_)
  qed
qed

theorem doOpen_rejections_witness:
  "wf_state init_state \<and>
   getOpenDocumentForPath viewer_env (fullPath (File ''/logo.png'')) = None \<and>
   \<not> canOpenFile viewer_env (fullPath (File ''/logo.png'')) \<and>
   doOpen viewer_env FIRST_PANE None init_state =
     Inr (Rejected (Diagnostic ''bad argument''), init_state) \<and>
   (\<exists>u. doOpen viewer_env FIRST_PANE (Some (File ''/logo.png'')) init_state =
      Inr (Rejected (Diagnostic
        ''custom viewers not yet implemented with split view. check back later.''), u) \<and>
      orientation u = orientation init_state)"
proof -
  have a: "getOpenDocumentForPath viewer_env (fullPath (File ''/logo.png'')) = None"
    "\<not> canOpenFile viewer_env (fullPath (File ''/logo.png''))"
    by (simp_all add: viewer_env_def)
  from doOpen_rejections [where e = viewer_env and paneId = FIRST_PANE and s = init_state
      and f = "File ''/logo.png''"] wf_init_state a
  show ?thesis by blast
qed

text \<open>
  C6, as stated, fails: with no split active (one pane, orientation \<^verbatim>\<open>null\<close>), opening
  a file that needs a custom viewer is rejected with the custom-viewer diagnostic.
\<close>

theorem doOpen_rejects_custom_viewer_without_split:
  "orientation init_state = None \<and> getPaneIdList init_state = [FIRST_PANE] \<and>
   \<not> canOpenFile viewer_env ''/logo.png'' \<and>
   doOpen viewer_env FIRST_PANE (Some (File ''/logo.png'')) init_state =
     Inr (Rejected (Diagnostic
       ''custom viewers not yet implemented with split view. check back later.''), init_state)"
  by (simp add: eval_defs doOpen_def doOpenIn_def getPaneIdList_def)

subsection \<open>C10: titles of panes\<close>

lemma getProperty_paneTitles:
  "getProperty paneTitles paneId =
     (if paneId = FIRST_PANE then Own [(VERTICAL, LEFT), (HORIZONTAL, TOP)]
      else if paneId = SECOND_PANE then Own [(VERTICAL, RIGHT), (HORIZONTAL, BOTTOM)]
      else if paneId \<in> set objectPrototypeKeys then Inherited
      else Undefined)"
  by (simp add: getProperty_def paneTitles_def)

text \<open>
  C10, as amended. \<^verbatim>\<open>getPaneTitle\<close> raises an error exactly when the pane id is neither
  \<^verbatim>\<open>"first-pane"\<close> nor \<^verbatim>\<open>"second-pane"\<close> nor the name of a property that every object
  inherits from \<^verbatim>\<open>Object.prototype\<close>; so it does for \<^verbatim>\<open>ALL_PANES\<close> and \<^verbatim>\<open>FOCUSED_PANE\<close>.
  For an inherited name it returns no title. For the two concrete ids it returns no
  title when no split is active and a title when one is.
\<close>

theorem getPaneTitle_defined:
  "(getPaneTitle s paneId = Inl TypeError) =
     (paneId \<noteq> FIRST_PANE \<and> paneId \<noteq> SECOND_PANE \<and> paneId \<notin> set objectPrototypeKeys) \<and>
   getPaneTitle s ALL_PANES = Inl TypeError \<and>
   getPaneTitle s FOCUSED_PANE = Inl TypeError \<and>
   (paneId \<in> set objectPrototypeKeys \<longrightarrow> getPaneTitle s paneId = Inr None) \<and>
   (paneId = FIRST_PANE \<or> paneId = SECOND_PANE \<longrightarrow>
      (orientation s = None \<longrightarrow> getPaneTitle s paneId = Inr None) \<and>
      (orientation s \<noteq> None \<longrightarrow> (\<exists>t. getPaneTitle s paneId = Inr (Some t))))"
proof (intro conjI impI)
  show "(getPaneTitle s paneId = Inl TypeError) =
     (paneId \<noteq> FIRST_PANE \<and> paneId \<noteq> SECOND_PANE \<and> paneId \<notin> set objectPrototypeKeys)"
    by (simp add: getPaneTitle_def getProperty_paneTitles)
  have a: "ALL_PANES \<noteq> FIRST_PANE" "ALL_PANES \<noteq> SECOND_PANE"
    "FOCUSED_PANE \<noteq> FIRST_PANE" "FOCUSED_PANE \<noteq> SECOND_PANE"
    by (simp_all add: ALL_PANES_def FOCUSED_PANE_def FIRST_PANE_def SECOND_PANE_def)
  show "getPaneTitle s ALL_PANES = Inl TypeError"
    by (simp add: getPaneTitle_def getProperty_paneTitles a)
  show "getPaneTitle s FOCUSED_PANE = Inl TypeError"
    by (simp add: getPaneTitle_def getProperty_paneTitles a)
next
  assume "paneId \<in> set objectPrototypeKeys"
  moreover from this have "paneId \<noteq> FIRST_PANE" "paneId \<noteq> SECOND_PANE" by auto
  ultimately show "getPaneTitle s paneId = Inr None"
    by (simp add: getPaneTitle_def getProperty_paneTitles)
next
  assume "paneId = FIRST_PANE \<or> paneId = SECOND_PANE" and "orientation s = None"
  then show "getPaneTitle s paneId = Inr None"
    by (auto simp: getPaneTitle_def getProperty_paneTitles)
next
  assume "paneId = FIRST_PANE \<or> paneId = SECOND_PANE" and "orientation s \<noteq> None"
  then show "\<exists>t. getPaneTitle s paneId = Inr (Some t)"
    by (cases "the (orientation s)") (auto simp: getPaneTitle_def getProperty_paneTitles)
qed

theorem getPaneTitle_defined_witness:
  "''toString'' \<in> set objectPrototypeKeys \<and> getPaneTitle split_state ''toString'' = Inr None \<and>
   orientation init_state = None \<and> getPaneTitle init_state FIRST_PANE = Inr None \<and>
   orientation split_state \<noteq> None \<and> (\<exists>t. getPaneTitle split_state SECOND_PANE = Inr (Some t)) \<and>
   getPaneTitle split_state ''third-pane'' = Inl TypeError"
proof -
  have k: "''toString'' \<in> set objectPrototypeKeys" by (simp add: objectPrototypeKeys_def)
  have o: "orientation init_state = None" by (simp add: eval_defs)
  have v: "orientation split_state \<noteq> None" by (simp add: split_state_def)
  have n: "''third-pane'' \<noteq> FIRST_PANE \<and> ''third-pane'' \<noteq> SECOND_PANE \<and>
      ''third-pane'' \<notin> set objectPrototypeKeys"
    by (simp add: FIRST_PANE_def SECOND_PANE_def objectPrototypeKeys_def)
  from getPaneTitle_defined [of split_state "''toString''"] k
  have 1: "getPaneTitle split_state ''toString'' = Inr None" by blast
  from getPaneTitle_defined [of init_state FIRST_PANE] o
  have 2: "getPaneTitle init_state FIRST_PANE = Inr None" by blast
  from getPaneTitle_defined [of split_state SECOND_PANE] v
  have 3: "\<exists>t. getPaneTitle split_state SECOND_PANE = Inr (Some t)" by blast
  from getPaneTitle_defined [of split_state "''third-pane''"] n
  have 4: "getPaneTitle split_state ''third-pane'' = Inl TypeError" by blast
  from k o v 1 2 3 4 show ?thesis by blast
qed

text \<open>
  C10, as stated, fails: \<^verbatim>\<open>"constructor"\<close> is neither of the two concrete pane ids, and
  \<^verbatim>\<open>getPaneTitle("constructor")\<close> raises no error. \<^verbatim>\<open>_paneTitles["constructor"]\<close> is the
  function every object inherits, and reading a property it does not have gives
  \<^verbatim>\<open>undefined\<close>.
\<close>

theorem getPaneTitle_of_inherited_name_returns:
  "''constructor'' \<noteq> FIRST_PANE \<and> ''constructor'' \<noteq> SECOND_PANE \<and>
   getPaneTitle init_state ''constructor'' = Inr None \<and>
   getPaneTitle split_state ''constructor'' = Inr None"
  by (simp add: getPaneTitle_def getProperty_paneTitles FIRST_PANE_def SECOND_PANE_def
      objectPrototypeKeys_def)

subsection \<open>Removing, ordering and closing add no file to a view list\<close>

lemma fullPath_eq: "(fullPath x = fullPath y) = (x = y)"
  by (cases x, cases y) simp

lemma set_removePath: "set (removePath fp fs) \<subseteq> set fs"
  by (induction fs) auto

lemma viewList_removeFromViewList:
  "set (viewList (snd (removeFromViewList p f))) \<subseteq> set (viewList p)"
  using set_removePath [of "fullPath f" "viewList p"] by (simp add: removeFromViewList_def)

lemma viewList_removeFiles: "set (viewList (snd (removeFiles p fs))) \<subseteq> set (viewList p)"
proof (induction fs arbitrary: p)
  case Nil
  then show ?case by simp
next
  case (Cons f fs)
  from Cons [of "snd (removeFromViewList p f)"] Cons [of p] viewList_removeFromViewList [of p f]
  show ?case by (auto simp: Let_def)
qed

lemma viewList_removeListFromViewList:
  "set (viewList (snd (removeListFromViewList p fs))) \<subseteq> set (viewList p)"
  using viewList_removeFiles [of p fs] by (simp add: removeListFromViewList_def Let_def)

lemma viewList_removeAllFromViewList:
  "set (viewList (snd (removeAllFromViewList p))) \<subseteq> set (viewList p)"
  by (simp add: removeAllFromViewList_def)

lemma viewList_clearCurrentIfIn [simp]: "viewList (clearCurrentIfIn fs p) = viewList p"
  by (simp add: clearCurrentIfIn_def split: option.splits)

lemma viewList_doRemoveView: "set (viewList (doRemoveView p f)) \<subseteq> set (viewList p)"
  using viewList_removeFromViewList [of p f] by (simp add: doRemoveView_def)

lemma viewList_doRemoveAllViews: "set (viewList (doRemoveAllViews p)) \<subseteq> set (viewList p)"
  by (simp add: doRemoveAllViews_def)

lemma viewList_doRemoveViews: "set (viewList (snd (doRemoveViews p fs))) \<subseteq> set (viewList p)"
  using viewList_removeFiles [of p fs] by (simp add: doRemoveViews_def Let_def)

lemma viewList_makeViewMostRecent: "set (viewList (makeViewMostRecent p f)) \<subseteq> set (viewList p)"
  by (simp add: makeViewMostRecent_def)

lemma set_insertBy: "set (insertBy c x ys) = insert x (set ys)"
  by (induction ys) auto

lemma viewList_sortViewList: "set (viewList (sortViewList p c)) \<subseteq> set (viewList p)"
proof -
  have "set (foldr (insertBy c) xs []) = set xs" for xs
    by (induction xs) (simp_all add: set_insertBy)
  then show ?thesis by (simp add: sortViewList_def)
qed

lemma viewList_swapViewListIndexes:
  "set (viewList (swapViewListIndexes p i j)) \<subseteq> set (viewList p)"
  by (simp add: swapViewListIndexes_def set_swap)

lemma narrows_refl [simp]: "narrows s s"
  by (simp add: narrows_def list_all2_same)

lemma narrows_trans:
  assumes a: "narrows s t" and b: "narrows t u"
  shows "narrows s u"
proof -
  let ?R = "\<lambda>a b. fst b = fst a \<and> set (viewList (snd b)) \<subseteq> set (viewList (snd a))"
  have "?R x y \<Longrightarrow> ?R y z \<Longrightarrow> ?R x z" for x y z :: "string \<times> pane"
    by auto
  from this a [unfolded narrows_def] b [unfolded narrows_def]
  show ?thesis unfolding narrows_def by (rule list_all2_trans)
qed

lemma narrows_triggerHandler [simp]: "narrows s (triggerHandler ev t) = narrows s t"
  by (simp add: narrows_def)

lemma narrows_paneViews: "paneViews s' = paneViews s \<Longrightarrow> narrows s s'"
  by (simp add: narrows_def list_all2_same)

lemma narrows_setPane:
  assumes d: "distinct (map fst (paneViews s))" and m: "map_of (paneViews s) k = Some p"
    and v: "set (viewList p') \<subseteq> set (viewList p)"
  shows "narrows s (setPane k p' s)"
proof -
  have "snd kv = p" if "kv \<in> set (paneViews s)" "fst kv = k" for kv
  proof -
    from that have "(k, snd kv) \<in> set (paneViews s)" by (cases kv) auto
    with d have "map_of (paneViews s) k = Some (snd kv)" by simp
    with m show ?thesis by simp
  qed
  with v show ?thesis
    by (auto simp: narrows_def setPane_def updateProperty_def list_all2_map2 list_all2_same)
qed

lemma filter_length_le:
  "list_all2 (\<lambda>a b. Q b \<longrightarrow> P a) xs ys \<Longrightarrow> length (filter Q ys) \<le> length (filter P xs)"
  by (induction rule: list_all2_induct) auto

lemma narrows_holding:
  assumes n: "narrows s s'"
  shows "length (panesHolding s' fp) \<le> length (panesHolding s fp)"
proof -
  from n have "list_all2 (\<lambda>a b. findInViewList (snd b) fp \<noteq> - 1 \<longrightarrow> findInViewList (snd a) fp \<noteq> - 1)
      (paneViews s) (paneViews s')"
    unfolding narrows_def
    by (rule list_all2_mono) (auto simp: findInViewList_holds)
  then show ?thesis by (simp add: panesHolding_def filter_length_le)
qed

lemma narrows_unique: "narrows s s' \<Longrightarrow> uniqueHolding s \<Longrightarrow> uniqueHolding s'"
  unfolding uniqueHolding_def
  by (meson narrows_holding order_trans)


lemma narrows_pane:
  assumes w: "wf_state s" and g: "getPaneFromPaneId s paneId = PaneObj k p"
    and v: "set (viewList p') \<subseteq> set (viewList p)"
  shows "narrows s (setPane k p' s)"
  using wf_distinct [OF w] getPaneFromPaneId_PaneObj [OF g] v by (rule narrows_setPane)

lemma narrows_removeFromPaneViewList':
  "wf_state s \<Longrightarrow> removeFromPaneViewList' paneId f sr s = Inr s' \<Longrightarrow> narrows s s'"
  by (auto simp: removeFromPaneViewList'_def Let_def
      intro!: narrows_pane dest: subsetD [OF viewList_removeFromViewList] split: paneRef.splits if_splits)

lemma narrows_removeListFromPaneViewList':
  "wf_state s \<Longrightarrow> removeListFromPaneViewList' paneId fs s = Inr s' \<Longrightarrow> narrows s s'"
  by (auto simp: removeListFromPaneViewList'_def Let_def
      intro!: narrows_pane dest: subsetD [OF viewList_removeListFromViewList] split: paneRef.splits option.splits)

lemma narrows_removeAllFromPaneViewList':
  "wf_state s \<Longrightarrow> removeAllFromPaneViewList' paneId s = Inr s' \<Longrightarrow> narrows s s'"
  by (auto simp: removeAllFromPaneViewList'_def Let_def
      intro!: narrows_pane dest: subsetD [OF viewList_removeAllFromViewList] split: paneRef.splits option.splits)

lemma narrows_forEachPaneId:
  assumes body: "\<And>k t t'. wf_state t \<Longrightarrow> body k t = Inr t' \<Longrightarrow> narrows t t'"
    and keeps: "\<And>k t t'. idsMatch t \<Longrightarrow> body k t = Inr t' \<Longrightarrow> shape t t'"
  shows "wf_state s \<Longrightarrow> forEachPaneId body ks s = Inr s' \<Longrightarrow> narrows s s'"
proof (induction ks arbitrary: s)
  case Nil
  then show ?case by simp
next
  case (Cons k ks)
  from Cons.prems(2) obtain t where t: "body k s = Inr t" and r: "forEachPaneId body ks t = Inr s'"
    by (auto split: sum.splits)
  from Cons.prems(1) have "idsMatch s" by (simp add: wf_state_def)
  from this t have "shape s t" by (rule keeps)
  from this Cons.prems(1) have wt: "wf_state t" by (rule shape_wf)
  from body [OF Cons.prems(1) t] Cons.IH [OF wt r] show ?case by (rule narrows_trans)
qed

lemma narrows_removeFromPaneViewList:
  assumes w: "wf_state s" and r: "removeFromPaneViewList paneId f sr s = Inr s'"
  shows "narrows s s'"
proof (cases "paneId = ALL_PANES")
  case True
  with r have l: "forEachPaneId (\<lambda>k. removeFromPaneViewList' k f sr) (paneIds s) s = Inr s'"
    by (simp add: removeFromPaneViewList_def)
  show ?thesis
  proof (rule narrows_forEachPaneId [OF _ _ w l])
    fix k t t' assume "wf_state t" "removeFromPaneViewList' k f sr t = Inr t'"
    then show "narrows t t'" by (rule narrows_removeFromPaneViewList')
  next
    fix k t t' assume "idsMatch t" "removeFromPaneViewList' k f sr t = Inr t'"
    then show "shape t t'" by (rule shape_removeFromPaneViewList')
  qed
next
  case False
  with r w show ?thesis
    by (auto simp: removeFromPaneViewList_def intro: narrows_removeFromPaneViewList')
qed

lemma narrows_removeListFromPaneViewList:
  assumes w: "wf_state s" and r: "removeListFromPaneViewList paneId fs s = Inr s'"
  shows "narrows s s'"
proof (cases "paneId = ALL_PANES")
  case True
  with r have l: "forEachPaneId (\<lambda>k. removeListFromPaneViewList' k fs) (paneIds s) s = Inr s'"
    by (simp add: removeListFromPaneViewList_def)
  show ?thesis
  proof (rule narrows_forEachPaneId [OF _ _ w l])
    fix k t t' assume "wf_state t" "removeListFromPaneViewList' k fs t = Inr t'"
    then show "narrows t t'" by (rule narrows_removeListFromPaneViewList')
  next
    fix k t t' assume "idsMatch t" "removeListFromPaneViewList' k fs t = Inr t'"
    then show "shape t t'" by (rule shape_removeListFromPaneViewList')
  qed
next
  case False
  with r w show ?thesis
    by (auto simp: removeListFromPaneViewList_def intro: narrows_removeListFromPaneViewList')
qed

lemma narrows_removeAllFromPaneViewList:
  assumes w: "wf_state s" and r: "removeAllFromPaneViewList paneId s = Inr s'"
  shows "narrows s s'"
proof (cases "paneId = ALL_PANES")
  case True
  with r have l: "forEachPaneId (removeAllFromPaneViewList') (paneIds s) s = Inr s'"
    by (simp add: removeAllFromPaneViewList_def)
  show ?thesis
  proof (rule narrows_forEachPaneId [OF _ _ w l])
    fix k t t' assume "wf_state t" "removeAllFromPaneViewList' k t = Inr t'"
    then show "narrows t t'" by (rule narrows_removeAllFromPaneViewList')
  next
    fix k t t' assume "idsMatch t" "removeAllFromPaneViewList' k t = Inr t'"
    then show "shape t t'" by (rule shape_removeAllFromPaneViewList')
  qed
next
  case False
  with r w show ?thesis
    by (auto simp: removeAllFromPaneViewList_def intro: narrows_removeAllFromPaneViewList')
qed

lemma narrows_makePaneViewMostRecent:
  "wf_state s \<Longrightarrow> makePaneViewMostRecent paneId f s = Inr s' \<Longrightarrow> narrows s s'"
  by (auto simp: makePaneViewMostRecent_def
      intro!: narrows_pane dest: subsetD [OF viewList_makeViewMostRecent] split: paneRef.splits)

lemma narrows_sortPaneViewList:
  "wf_state s \<Longrightarrow> sortPaneViewList paneId c s = Inr s' \<Longrightarrow> narrows s s'"
  by (auto simp: sortPaneViewList_def
      intro!: narrows_pane dest: subsetD [OF viewList_sortViewList] split: paneRef.splits)

lemma narrows_swapPaneViewListIndexes:
  "wf_state s \<Longrightarrow> swapPaneViewListIndexes paneId i j s = Inr s' \<Longrightarrow> narrows s s'"
  by (auto simp: swapPaneViewListIndexes_def
      intro!: narrows_pane dest: subsetD [OF viewList_swapViewListIndexes] split: paneRef.splits)

lemma narrows_setActivePaneId: "setActivePaneId k s = Inr s' \<Longrightarrow> narrows s s'"
  by (blast intro: narrows_paneViews paneViews_setActivePaneId)

lemma narrows_activeEditorChange: "activeEditorChange c s = Inr s' \<Longrightarrow> narrows s s'"
  by (auto simp: activeEditorChange_def dest!: shape_forceFocus intro: narrows_setActivePaneId
      split: option.splits if_splits)

lemma narrows_doClose:
  "wf_state s \<Longrightarrow> doClose paneId f s = Inr s' \<Longrightarrow> narrows s s'"
  by (auto simp: doClose_def Let_def intro!: narrows_pane dest: subsetD [OF viewList_doRemoveView]
      split: paneRef.splits if_splits option.splits findResult.splits)

lemma narrows_doCloseAll:
  assumes w: "wf_state s" and r: "doCloseAll paneId s = Inr s'"
  shows "narrows s s'"
proof (cases "paneId = ALL_PANES")
  case True
  from w show ?thesis
  proof (cases rule: paneViews_cases)
    case (1 p1)
    with True r show ?thesis
      by (auto simp: doCloseAll_def closeAllIn_def narrows_def setPane_def updateProperty_def
          doRemoveAllViews_def)
  next
    case (2 p1 p2)
    with True r show ?thesis
      by (auto simp: doCloseAll_def closeAllIn_def narrows_def setPane_def updateProperty_def
          doRemoveAllViews_def triggerHandler_def)
  qed
next
  case False
  with r w show ?thesis
    by (auto simp: doCloseAll_def closeAllIn_def intro!: narrows_pane dest: subsetD [OF viewList_doRemoveAllViews]
        split: paneRef.splits)
qed

lemma narrows_doCloseList:
  assumes w: "wf_state s" and r: "doCloseList paneId fs s = Inr s'"
  shows "narrows s s'"
proof (cases "paneId = ALL_PANES")
  case True
  from w show ?thesis
  proof (cases rule: paneViews_cases)
    case (1 p1)
    with True r viewList_doRemoveViews [of p1 fs] show ?thesis
      by (auto simp: doCloseList_def closeListIn_def narrows_def setPane_def updateProperty_def
          Let_def)
  next
    case (2 p1 p2)
    with True r viewList_doRemoveViews [of p1 fs] viewList_doRemoveViews [of p2 fs] show ?thesis
      by (auto simp: doCloseList_def closeListIn_def narrows_def setPane_def updateProperty_def
          triggerHandler_def Let_def)
  qed
next
  case False
  with r w show ?thesis
    by (auto simp: doCloseList_def closeListIn_def Let_def
        intro!: narrows_pane dest: subsetD [OF viewList_doRemoveViews] split: paneRef.splits)
qed

subsection \<open>The batch add of a pane\<close>

lemma viewList_addToViewList_append:
  "viewList (snd (addToViewList p f None)) = viewList p @ [f]"
  by (simp add: addToViewList_def indexRequested_def)

lemma addListToViewList_appends:
  "viewList (snd (addListToViewList e opn p fs)) = viewList p @ fst (addListToViewList e opn p fs)"
  by (induction fs arbitrary: p) (simp_all add: Let_def viewList_addToViewList_append)

lemma findInViewList_member: "(findInViewList p (fullPath f) = - 1) = (f \<notin> set (viewList p))"
proof -
  have "(fullPath f \<in> fullPath ` set (viewList p)) = (f \<in> set (viewList p))"
    by (auto simp: fullPath_eq)
  with findInViewList_holds [of p "fullPath f"] show ?thesis by blast
qed

lemma addListToViewList_added:
  "g \<in> set (fst (addListToViewList e opn p fs)) \<Longrightarrow>
   g \<in> set fs \<and> canOpenFile e (fullPath g) \<and> \<not> opn (fullPath g) \<and> g \<notin> set (viewList p)"
proof (induction fs arbitrary: p)
  case Nil
  then show ?case by simp
next
  case (Cons f fs)
  show ?case
  proof (cases "canOpenFile e (fullPath f) \<and> \<not> opn (fullPath f) \<and> findInViewList p (fullPath f) = - 1")
    case True
    with Cons.prems have "g = f \<or> g \<in> set (fst (addListToViewList e opn (snd (addToViewList p f None)) fs))"
      by (simp add: Let_def)
    then show ?thesis
    proof
      assume "g = f"
      with True show ?thesis by (simp add: findInViewList_member)
    next
      assume "g \<in> set (fst (addListToViewList e opn (snd (addToViewList p f None)) fs))"
      from Cons.IH [OF this] show ?thesis by (simp add: viewList_addToViewList_append)
    qed
  next
    case False
    with Cons.prems have "g \<in> set (fst (addListToViewList e opn p fs))" by auto
    from Cons.IH [OF this] show ?thesis by simp
  qed
qed

lemma addListToViewList_admits:
  "g \<in> set fs \<Longrightarrow> canOpenFile e (fullPath g) \<Longrightarrow> \<not> opn (fullPath g) \<Longrightarrow>
   g \<in> set (viewList p) \<or> g \<in> set (fst (addListToViewList e opn p fs))"
proof (induction fs arbitrary: p)
  case Nil
  then show ?case by simp
next
  case (Cons f fs)
  show ?case
  proof (cases "canOpenFile e (fullPath f) \<and> \<not> opn (fullPath f) \<and> findInViewList p (fullPath f) = - 1")
    case True
    show ?thesis
    proof (cases "g = f")
      case True
      with \<open>canOpenFile e (fullPath f) \<and> \<not> opn (fullPath f) \<and> findInViewList p (fullPath f) = - 1\<close>
      show ?thesis by (simp add: Let_def)
    next
      case False
      with Cons.prems have "g \<in> set fs" by simp
      from Cons.IH [OF this Cons.prems(2,3), of "snd (addToViewList p f None)"] True False
      show ?thesis by (auto simp: Let_def viewList_addToViewList_append)
    qed
  next
    case False
    note no = this
    show ?thesis
    proof (cases "g = f")
      case True
      with no Cons.prems show ?thesis by (auto simp: findInViewList_member)
    next
      case False
      with Cons.prems have "g \<in> set fs" by simp
      from Cons.IH [OF this Cons.prems(2,3), of p] no show ?thesis by auto
    qed
  qed
qed

lemma addListToViewList_distinct: "distinct (fst (addListToViewList e opn p fs))"
proof (induction fs arbitrary: p)
  case Nil
  then show ?case by simp
next
  case (Cons f fs)
  show ?case
  proof (cases "canOpenFile e (fullPath f) \<and> \<not> opn (fullPath f) \<and> findInViewList p (fullPath f) = - 1")
    case True
    have "f \<notin> set (fst (addListToViewList e opn (snd (addToViewList p f None)) fs))"
    proof
      assume "f \<in> set (fst (addListToViewList e opn (snd (addToViewList p f None)) fs))"
      from addListToViewList_added [OF this] show False
        by (simp add: viewList_addToViewList_append)
    qed
    with True Cons.IH [of "snd (addToViewList p f None)"] show ?thesis by (simp add: Let_def)
  next
    case False
    with Cons.IH [of p] show ?thesis by auto
  qed
qed

subsection \<open>The batch add keeps every path in at most one pane\<close>

lemma truthyId_holding:
  assumes w: "wf_state s"
  shows "truthyId (getPaneIdForPath s fp) = (panesHolding s fp \<noteq> [])"
proof (cases "getPaneIdForPath s fp")
  case None
  from w have "idsMatch s" by (simp add: wf_state_def)
  from getPaneIdForPath_holding [OF this, of fp] None show ?thesis
    by (simp add: truthyId_def split: list.splits)
next
  case (Some c)
  from getPaneIdForPath_key [OF w Some] Some show ?thesis by (auto simp: truthyId_def)
qed

lemma holding_member:
  assumes m: "map_of (paneViews s) k = Some p" and f: "f \<in> set (viewList p)"
  shows "panesHolding s (fullPath f) \<noteq> []"
proof -
  from m have "(k, p) \<in> set (paneViews s)" by (rule map_of_SomeD)
  moreover from f have "findInViewList p (fullPath f) \<noteq> - 1" by (simp add: findInViewList_member)
  ultimately have "\<exists>kv\<in>set (paneViews s). findInViewList (snd kv) (fullPath f) \<noteq> - 1"
    by (intro bexI [of _ "(k, p)"]) simp_all
  then show ?thesis by (simp add: panesHolding_def filter_empty_conv)
qed

lemma addListToPaneViewList_PaneObj:
  assumes i: "idsMatch s" and g: "getPaneFromPaneId s paneId = PaneObj k p"
  shows "addListToPaneViewList e paneId fileList s =
     Inr (triggerHandler
            (paneViewListAddList
               (fst (addListToViewList e (\<lambda>fp. truthyId (getPaneIdForPath s fp)) p fileList)) k)
            (setPane k
               (snd (addListToViewList e (\<lambda>fp. truthyId (getPaneIdForPath s fp)) p fileList)) s))"
  using g PaneObj_id [OF i g] by (simp add: addListToPaneViewList_def Let_def)

lemma batch_added:
  assumes w: "wf_state s" and m: "map_of (paneViews s) k = Some p"
  shows "set (fst (addListToViewList e (\<lambda>fp. truthyId (getPaneIdForPath s fp)) p fileList)) =
     {f \<in> set fileList. canOpenFile e (fullPath f) \<and> panesHolding s (fullPath f) = []}"
    (is "set ?added = ?admitted")
proof (rule set_eqI)
  fix g
  show "(g \<in> set ?added) = (g \<in> ?admitted)"
  proof
    assume "g \<in> set ?added"
    from addListToViewList_added [OF this] show "g \<in> ?admitted"
      by (simp add: truthyId_holding [OF w])
  next
    assume a: "g \<in> ?admitted"
    then have h: "panesHolding s (fullPath g) = []" by simp
    with holding_member [OF m, of g] have n: "g \<notin> set (viewList p)" by blast
    from a have "g \<in> set fileList" "canOpenFile e (fullPath g)"
      "\<not> truthyId (getPaneIdForPath s (fullPath g))"
      by (simp_all add: truthyId_holding [OF w])
    from addListToViewList_admits [of g fileList e "\<lambda>fp. truthyId (getPaneIdForPath s fp)" p,
        OF this(1) this(2)] this(3) n
    show "g \<in> set ?added" by simp
  qed
qed

lemma viewListOf_setPane:
  "viewListOf (setPane k p' s) k' =
     (if k' = k \<and> map_of (paneViews s) k \<noteq> None then viewList p' else viewListOf s k')"
  by (auto simp: viewListOf_def setPane_def map_of_updateProperty split: option.splits)

lemma viewListOf_triggerHandler [simp]: "viewListOf (triggerHandler ev s) k = viewListOf s k"
  by (simp add: viewListOf_def)

lemma events_setPane [simp]: "events (setPane k p s) = events s"
  by (simp add: setPane_def)

lemma unique_after_adds:
  assumes w: "wf_state s" and u: "uniqueHolding s"
    and h: "\<And>f. f \<in> A \<Longrightarrow> panesHolding s (fullPath f) = []"
    and m: "map_of (paneViews s) k = Some p"
    and v: "set (viewList p') = set (viewList p) \<union> A"
  shows "uniqueHolding (setPane k p' s)"
proof (cases rule: paneViews_cases [OF w])
  case (1 p1)
  have "paneViews (setPane k p' s) = [(FIRST_PANE, if FIRST_PANE = k then p' else p1)]"
    by (simp add: setPane_def updateProperty_def 1)
  then show ?thesis by (rule uniqueHolding_one)
next
  case (2 p1 p2)
  from u have d: "fullPath ` set (viewList p1) \<inter> fullPath ` set (viewList p2) = {}"
    by (rule uniqueHolding_two [OF 2, THEN iffD1])
  have n: "fullPath f \<notin> fullPath ` set (viewList p1) \<and> fullPath f \<notin> fullPath ` set (viewList p2)"
    if "f \<in> A" for f
    using two_panes_not_holding [OF 2 h [OF that]] .
  from two_panes_lookup [OF 2 m] show ?thesis
  proof
    assume a: "k = FIRST_PANE \<and> p = p1"
    have pv: "paneViews (setPane k p' s) = [(FIRST_PANE, p'), (SECOND_PANE, p2)]"
      using a by (simp add: setPane_def 2 updateProperty_def)
    have "fullPath ` set (viewList p') \<inter> fullPath ` set (viewList p2) = {}"
    proof (rule ccontr)
      assume "fullPath ` set (viewList p') \<inter> fullPath ` set (viewList p2) \<noteq> {}"
      then obtain y where y: "y \<in> fullPath ` set (viewList p')" "y \<in> fullPath ` set (viewList p2)"
        by blast
      from y(1) obtain x where "x \<in> set (viewList p')" "y = fullPath x" by blast
      with y(2) have x: "x \<in> set (viewList p')" "fullPath x \<in> fullPath ` set (viewList p2)"
        by simp_all
      from x(1) v a have "x \<in> set (viewList p1) \<or> x \<in> A" by simp
      then show False
      proof
        assume "x \<in> set (viewList p1)"
        with x(2) d show False by auto
      next
        assume "x \<in> A"
        from n [OF this] x(2) show False by simp
      qed
    qed
    then show ?thesis by (rule uniqueHolding_two [OF pv, THEN iffD2])
  next
    assume a: "k = SECOND_PANE \<and> p = p2"
    have pv: "paneViews (setPane k p' s) = [(FIRST_PANE, p1), (SECOND_PANE, p')]"
      using a by (simp add: setPane_def 2 updateProperty_def)
    have "fullPath ` set (viewList p1) \<inter> fullPath ` set (viewList p') = {}"
    proof (rule ccontr)
      assume "fullPath ` set (viewList p1) \<inter> fullPath ` set (viewList p') \<noteq> {}"
      then obtain y where y: "y \<in> fullPath ` set (viewList p1)" "y \<in> fullPath ` set (viewList p')"
        by blast
      from y(2) obtain x where "x \<in> set (viewList p')" "y = fullPath x" by blast
      with y(1) have x: "x \<in> set (viewList p')" "fullPath x \<in> fullPath ` set (viewList p1)"
        by simp_all
      from x(1) v a have "x \<in> set (viewList p2) \<or> x \<in> A" by simp
      then show False
      proof
        assume "x \<in> set (viewList p2)"
        with x(2) d show False by auto
      next
        assume "x \<in> A"
        from n [OF this] x(2) show False by simp
      qed
    qed
    then show ?thesis by (rule uniqueHolding_two [OF pv, THEN iffD2])
  qed
qed

lemma unique_addListToPaneViewList:
  assumes w: "wf_state s" and u: "uniqueHolding s"
    and r: "addListToPaneViewList e paneId fileList s = Inr s'"
  shows "uniqueHolding s'"
proof (cases "getPaneFromPaneId s paneId")
  case Null
  with r u show ?thesis by (simp add: addListToPaneViewList_def)
next
  case NotAPane
  with r show ?thesis by (simp add: addListToPaneViewList_def)
next
  case (PaneObj k p)
  let ?r = "addListToViewList e (\<lambda>fp. truthyId (getPaneIdForPath s fp)) p fileList"
  from w have i: "idsMatch s" by (simp add: wf_state_def)
  from PaneObj have m: "map_of (paneViews s) k = Some p" by (rule getPaneFromPaneId_PaneObj)
  from addListToPaneViewList_PaneObj [OF i PaneObj, of e fileList] r
  have s': "s' = triggerHandler (paneViewListAddList (fst ?r) k) (setPane k (snd ?r) s)"
    by simp
  have h: "panesHolding s (fullPath f) = []" if "f \<in> set (fst ?r)" for f
    using that unfolding batch_added [OF w m] by simp
  have v: "set (viewList (snd ?r)) = set (viewList p) \<union> set (fst ?r)"
    by (simp add: addListToViewList_appends)
  from unique_after_adds [OF w u h m v] have x: "uniqueHolding (setPane k (snd ?r) s)" .
  have y: "viewLists s' = viewLists (setPane k (snd ?r) s)" unfolding s' by simp
  show ?thesis by (rule iffD2 [OF uniqueHolding_cong [OF y] x])
qed

subsection \<open>Every call keeps every path in at most one pane\<close>

lemma unique_doUnsplit:
  assumes w: "wf_state s" and u: "uniqueHolding s" and r: "doUnsplit s = Inr s'"
  shows "uniqueHolding s'"
proof (cases "hasOwnProperty (paneViews s) SECOND_PANE")
  case False
  with r u show ?thesis by (simp add: doUnsplit_def)
next
  case True
  from wf_two_panes [OF w True] obtain p1 p2 where
    pv: "paneViews s = [(FIRST_PANE, p1), (SECOND_PANE, p2)]"
      "pane_id p1 = FIRST_PANE" "pane_id p2 = SECOND_PANE"
    by blast
  from doUnsplit_two_panes [OF pv] r
  have "paneViews s' = [(FIRST_PANE, mergeWith p1 p2)]" by auto
  then show ?thesis by (rule uniqueHolding_one)
qed

lemma unique_doSplit:
  assumes w: "wf_state s" and u: "uniqueHolding s"
  shows "uniqueHolding (doSplit orient s)"
proof (cases rule: paneViews_cases [OF w])
  case (1 p1)
  then have "paneViews (doSplit orient s) = [(FIRST_PANE, p1), (SECOND_PANE, new_Pane SECOND_PANE)]"
    by (simp add: doSplit_def createPaneIfNecessary_def hasOwnProperty_def Let_def
        triggerHandler_def)
  from uniqueHolding_two [OF this] show ?thesis by (simp add: new_Pane_def)
next
  case (2 p1 p2)
  then have "viewLists (doSplit orient s) = viewLists s"
    by (simp add: doSplit_def createPaneIfNecessary_def hasOwnProperty_def Let_def
        triggerHandler_def viewLists_def)
  from u show ?thesis by (rule iffD2 [OF uniqueHolding_cong [OF \<open>viewLists (doSplit orient s) = viewLists s\<close>]])
qed

lemma exec_unique:
  assumes w: "wf_state s" and u: "uniqueHolding s" and r: "exec e c s = Inr s'"
  shows "uniqueHolding s'"
proof (cases c)
  case (AddToPaneViewList paneId f index force)
  with r have "addToPaneViewList e paneId f index force s = Inr s'" by simp
  with w u show ?thesis by (rule unique_addToPaneViewList)
next
  case (AddListToPaneViewList paneId fs)
  with r have "addListToPaneViewList e paneId fs s = Inr s'" by simp
  with w u show ?thesis by (rule unique_addListToPaneViewList)
next
  case (RemoveFromPaneViewList paneId f sr)
  with r w have "narrows s s'" by (auto dest: narrows_removeFromPaneViewList)
  then show ?thesis using u by (rule narrows_unique)
next
  case (RemoveListFromPaneViewList paneId fs)
  with r w have "narrows s s'" by (auto dest: narrows_removeListFromPaneViewList)
  then show ?thesis using u by (rule narrows_unique)
next
  case (RemoveAllFromPaneViewList paneId)
  with r w have "narrows s s'" by (auto dest: narrows_removeAllFromPaneViewList)
  then show ?thesis using u by (rule narrows_unique)
next
  case (MakePaneViewMostRecent paneId f)
  with r w have "narrows s s'" by (auto dest: narrows_makePaneViewMostRecent)
  then show ?thesis using u by (rule narrows_unique)
next
  case (SortPaneViewList paneId cmp)
  with r w have "narrows s s'" by (auto dest: narrows_sortPaneViewList)
  then show ?thesis using u by (rule narrows_unique)
next
  case (SwapPaneViewListIndexes paneId i1 i2)
  with r w have "narrows s s'" by (auto dest: narrows_swapPaneViewListIndexes)
  then show ?thesis using u by (rule narrows_unique)
next
  case (SetActivePaneId k)
  with r have "narrows s s'" by (auto dest: narrows_setActivePaneId)
  then show ?thesis using u by (rule narrows_unique)
next
  case (ActiveEditorChange cur)
  with r have "narrows s s'" by (auto dest: narrows_activeEditorChange)
  then show ?thesis using u by (rule narrows_unique)
next
  case (DoEdit paneId doc)
  with r have "doEdit e paneId doc s = Inr s'" by simp
  with w u show ?thesis by (rule unique_doEdit)
next
  case (DoOpen paneId fileArg)
  with r obtain res where "doOpen e paneId fileArg s = Inr (res, s')"
    by (auto simp: andThen_def split: sum.splits)
  with w u show ?thesis by (rule unique_doOpen)
next
  case (DoClose paneId f)
  with r w have "narrows s s'" by (auto dest: narrows_doClose)
  then show ?thesis using u by (rule narrows_unique)
next
  case (DoCloseAll paneId)
  with r w have "narrows s s'" by (auto dest: narrows_doCloseAll)
  then show ?thesis using u by (rule narrows_unique)
next
  case (DoCloseList paneId fs)
  with r w have "narrows s s'" by (auto dest: narrows_doCloseList)
  then show ?thesis using u by (rule narrows_unique)
next
  case HandleSplitVertically
  with r w u show ?thesis
    by (auto simp: handleSplitVertically_def intro: unique_doUnsplit unique_doSplit
        split: if_splits)
next
  case HandleSplitHorizontially
  with r w u show ?thesis
    by (auto simp: handleSplitHorizontially_def intro: unique_doUnsplit unique_doSplit
        split: if_splits)
qed

lemma unique_init_state: "uniqueHolding init_state"
proof -
  have "paneViews init_state = [(FIRST_PANE, new_Pane FIRST_PANE)]"
    by (simp add: init_state_def module_state_def createPaneIfNecessary_def hasOwnProperty_def
        triggerHandler_def Let_def)
  then show ?thesis by (rule uniqueHolding_one)
qed

lemma reachable_unique: "reachable s \<Longrightarrow> uniqueHolding s"
proof (induction rule: reachable.induct)
  case reachable_init
  show ?case by (rule unique_init_state)
next
  case (reachable_step s e c s')
  from reachable_step.hyps(1) have "wf_state s" by (rule reachable_wf)
  from this reachable_step.IH reachable_step.hyps(2) show ?case by (rule exec_unique)
qed

lemma run_batch_calls: "run batch_calls init_state = Inr batch_state"
  by (simp add: batch_calls_def split_calls_def batch_state_def split_state_def eval_defs)

subsection \<open>C1: adding and opening\<close>

text \<open>
  C1. After every sequence of calls from the initial state (the add and open calls
  \<^verbatim>\<open>addToPaneViewList\<close>, \<^verbatim>\<open>addListToPaneViewList\<close>, \<^verbatim>\<open>doEdit\<close>, \<^verbatim>\<open>doOpen\<close>, and any other
  calls between them, the split commands included), every path is held by the view
  list of at most one pane of the registry; so it is in every reachable state. The
  last part is the lookup before insert: in any well-formed state, split or not, in
  which no path is held by two panes, each of the four add and open calls leaves it so.
\<close>

theorem add_and_open_keep_one_holder:
  "(run cs init_state = Inr s \<longrightarrow> length (panesHolding s fp) \<le> 1) \<and>
   (reachable s \<longrightarrow> uniqueHolding s) \<and>
   (wf_state t \<longrightarrow> uniqueHolding t \<longrightarrow>
      (addToPaneViewList e paneId f index force t = Inr t' \<longrightarrow> uniqueHolding t') \<and>
      (addListToPaneViewList e paneId fileList t = Inr t' \<longrightarrow> uniqueHolding t') \<and>
      (doEdit e paneId doc t = Inr t' \<longrightarrow> uniqueHolding t') \<and>
      (doOpen e paneId fileArg t = Inr (res, t') \<longrightarrow> uniqueHolding t'))"
proof (intro conjI impI)
  assume "run cs init_state = Inr s"
  with reachable_init have "reachable s" by (rule run_reachable)
  then have "uniqueHolding s" by (rule reachable_unique)
  then show "length (panesHolding s fp) \<le> 1" by (simp add: uniqueHolding_def)
next
  assume "reachable s"
  then show "uniqueHolding s" by (rule reachable_unique)
next
  assume "wf_state t" "uniqueHolding t" "addToPaneViewList e paneId f index force t = Inr t'"
  then show "uniqueHolding t'" by (rule unique_addToPaneViewList)
next
  assume "wf_state t" "uniqueHolding t" "addListToPaneViewList e paneId fileList t = Inr t'"
  then show "uniqueHolding t'" by (rule unique_addListToPaneViewList)
next
  assume "wf_state t" "uniqueHolding t" "doEdit e paneId doc t = Inr t'"
  then show "uniqueHolding t'" by (rule unique_doEdit)
next
  assume "wf_state t" "uniqueHolding t" "doOpen e paneId fileArg t = Inr (res, t')"
  then show "uniqueHolding t'" by (rule unique_doOpen)
qed

theorem add_and_open_keep_one_holder_witness:
  "run batch_calls init_state = Inr batch_state \<and>
   length (panesHolding batch_state ''/a.js'') \<le> 1 \<and>
   reachable split_state \<and> wf_state split_state \<and> uniqueHolding split_state \<and>
   addToPaneViewList example_env SECOND_PANE (File ''/a.js'') None False split_state =
     Inr split_state \<and>
   addListToPaneViewList example_env SECOND_PANE
       [File ''/a.js'', File ''/e.js'', File ''/e.js''] split_state = Inr batch_state \<and>
   uniqueHolding batch_state \<and>
   (\<exists>u. doEdit example_env SECOND_PANE \<lparr>doc_file = File ''/e.js'', isUntitled = True\<rparr> split_state
           = Inr u \<and> uniqueHolding u) \<and>
   (\<exists>r u. doOpen example_env FIRST_PANE (Some (File ''/d.js'')) split_state = Inr (r, u) \<and>
           uniqueHolding u)"
proof -
  have b: "addToPaneViewList example_env SECOND_PANE (File ''/a.js'') None False split_state =
     Inr split_state"
    by (simp add: split_state_def eval_defs FIRST_PANE_def SECOND_PANE_def FOCUSED_PANE_def)
  have l: "addListToPaneViewList example_env SECOND_PANE
       [File ''/a.js'', File ''/e.js'', File ''/e.js''] split_state = Inr batch_state"
    by (simp add: split_state_def batch_state_def eval_defs
        FIRST_PANE_def SECOND_PANE_def FOCUSED_PANE_def)
  obtain u where c: "doEdit example_env SECOND_PANE \<lparr>doc_file = File ''/e.js'', isUntitled = True\<rparr>
      split_state = Inr u"
    by (simp add: split_state_def eval_defs doEdit_def doEditIn_def makePaneViewMostRecent_def
        FIRST_PANE_def SECOND_PANE_def FOCUSED_PANE_def)
  obtain r v where d: "doOpen example_env FIRST_PANE (Some (File ''/d.js'')) split_state = Inr (r, v)"
    by (simp add: split_state_def eval_defs doOpen_def doOpenIn_def doEdit_def doEditIn_def
        makePaneViewMostRecent_def FIRST_PANE_def SECOND_PANE_def FOCUSED_PANE_def)
  from add_and_open_keep_one_holder [where cs = batch_calls and s = batch_state and fp = "''/a.js''"]
    run_batch_calls
  have 1: "length (panesHolding batch_state ''/a.js'') \<le> 1" by blast
  from add_and_open_keep_one_holder [where s = split_state] reachable_split_state
  have 0: "uniqueHolding split_state" by blast
  from add_and_open_keep_one_holder [where t = split_state and e = example_env
      and paneId = SECOND_PANE and t' = batch_state
      and fileList = "[File ''/a.js'', File ''/e.js'', File ''/e.js'']"]
    wf_split_state 0 l
  have 4: "uniqueHolding batch_state" by blast
  from add_and_open_keep_one_holder [where t = split_state and e = example_env
      and paneId = SECOND_PANE and t' = u
      and doc = "\<lparr>doc_file = File ''/e.js'', isUntitled = True\<rparr>"]
    wf_split_state 0 c
  have 2: "uniqueHolding u" by blast
  from add_and_open_keep_one_holder [where t = split_state and e = example_env
      and paneId = FIRST_PANE and t' = v and fileArg = "Some (File ''/d.js'')" and res = r]
    wf_split_state 0 d
  have 3: "uniqueHolding v" by blast
  from run_batch_calls 1 reachable_split_state wf_split_state 0 b l 4 c 2 d 3
  show ?thesis by blast
qed

subsection \<open>C3: the batch add\<close>

lemma viewLists_setPane_same:
  assumes w: "wf_state s" and m: "map_of (paneViews s) k = Some p"
  shows "viewLists (setPane k p s) = viewLists s"
proof -
  from w have "idsMatch s" by (simp add: wf_state_def)
  with m show ?thesis using wf_distinct [OF w] by (rule viewLists_setPane) simp
qed

lemma single_add_like_batch:
  assumes w: "wf_state s" and g: "getPaneFromPaneId s paneId = PaneObj k p"
  shows "\<exists>t t'. addToPaneViewList e paneId f None False s = Inr t \<and>
           addListToPaneViewList e paneId [f] s = Inr t' \<and> viewLists t' = viewLists t"
proof -
  from w have i: "idsMatch s" by (simp add: wf_state_def)
  from g have m: "map_of (paneViews s) k = Some p" by (rule getPaneFromPaneId_PaneObj)
  note batch = addListToPaneViewList_PaneObj [OF i g, of e "[f]"]
  show ?thesis
  proof (cases "canOpenFile e (fullPath f) \<and> \<not> truthyId (getPaneIdForPath s (fullPath f))")
    case False
    then have a: "addToPaneViewList e paneId f None False s = Inr s"
      using g by (auto simp: addToPaneViewList_def)
    from False have b: "addListToPaneViewList e paneId [f] s =
        Inr (triggerHandler (paneViewListAddList [] k) (setPane k p s))"
      unfolding batch by auto
    from a b viewLists_setPane_same [OF w m] show ?thesis by simp
  next
    case True
    then have "panesHolding s (fullPath f) = []" by (simp add: truthyId_holding [OF w])
    with holding_member [OF m, of f] have "f \<notin> set (viewList p)" by blast
    then have n: "findInViewList p (fullPath f) = - 1" by (simp add: findInViewList_member)
    then have ro: "reorderItem p f None False = (ITEM_NOT_FOUND, p)"
      by (simp add: reorderItem_def)
    from True g ro PaneObj_id [OF i g]
    have a: "addToPaneViewList e paneId f None False s =
        Inr (triggerHandler (paneViewListAdd f (fst (addToViewList p f None)) k)
               (setPane k (snd (addToViewList p f None)) s))"
      by (simp add: addToPaneViewList_def Let_def)
    from True n have b: "addListToPaneViewList e paneId [f] s =
        Inr (triggerHandler (paneViewListAddList [f] k) (setPane k (snd (addToViewList p f None)) s))"
      unfolding batch by (simp add: Let_def)
    from a b show ?thesis by simp
  qed
qed

text \<open>
  C3. When the pane id resolves to a pane of a well-formed state,
  \<^verbatim>\<open>addListToPaneViewList\<close> returns, appends to that pane's view list exactly the files
  of the batch that have no custom viewer and whose path no pane of the registry
  holds, each once, leaves the other pane's view list as it was, and sends one
  \<^verbatim>\<open>paneViewListAddList\<close> notification carrying the files it added. A batch of one
  file leaves the same view lists as \<^verbatim>\<open>addToPaneViewList\<close> with that file. When the id
  resolves to no pane the call changes nothing, as \<^verbatim>\<open>addToPaneViewList\<close> does.
\<close>

theorem batch_add_admits_like_add:
  "(wf_state s \<longrightarrow> getPaneFromPaneId s paneId = PaneObj k p \<longrightarrow>
      (\<exists>s' added.
         addListToPaneViewList e paneId fileList s = Inr s' \<and>
         events s' = events s @ [paneViewListAddList added k] \<and>
         distinct added \<and>
         set added =
           {f \<in> set fileList. canOpenFile e (fullPath f) \<and> panesHolding s (fullPath f) = []} \<and>
         viewListOf s' k = viewListOf s k @ added \<and>
         (\<forall>k'. k' \<noteq> k \<longrightarrow> viewListOf s' k' = viewListOf s k'))) \<and>
   (wf_state s \<longrightarrow> getPaneFromPaneId s paneId = PaneObj k p \<longrightarrow>
      (\<exists>t t'. addToPaneViewList e paneId f None False s = Inr t \<and>
              addListToPaneViewList e paneId [f] s = Inr t' \<and> viewLists t' = viewLists t)) \<and>
   (getPaneFromPaneId s paneId = Null \<longrightarrow>
      addListToPaneViewList e paneId fileList s = Inr s \<and>
      addToPaneViewList e paneId f None False s = Inr s)"
proof (intro conjI impI)
  assume w: "wf_state s" and g: "getPaneFromPaneId s paneId = PaneObj k p"
  let ?r = "addListToViewList e (\<lambda>fp. truthyId (getPaneIdForPath s fp)) p fileList"
  let ?s' = "triggerHandler (paneViewListAddList (fst ?r) k) (setPane k (snd ?r) s)"
  from w have i: "idsMatch s" by (simp add: wf_state_def)
  from g have m: "map_of (paneViews s) k = Some p" by (rule getPaneFromPaneId_PaneObj)
  have 1: "addListToPaneViewList e paneId fileList s = Inr ?s'"
    by (rule addListToPaneViewList_PaneObj [OF i g])
  have 2: "events ?s' = events s @ [paneViewListAddList (fst ?r) k]"
    by (simp add: triggerHandler_def)
  have 3: "distinct (fst ?r)" by (rule addListToViewList_distinct)
  have 4: "set (fst ?r) =
      {f \<in> set fileList. canOpenFile e (fullPath f) \<and> panesHolding s (fullPath f) = []}"
    by (rule batch_added [OF w m])
  have 5: "viewListOf ?s' k = viewListOf s k @ fst ?r"
    using m by (simp add: viewListOf_setPane addListToViewList_appends) (simp add: viewListOf_def)
  have 6: "\<forall>k'. k' \<noteq> k \<longrightarrow> viewListOf ?s' k' = viewListOf s k'"
    by (simp add: viewListOf_setPane)
  from 1 2 3 4 5 6
  show "\<exists>s' added.
         addListToPaneViewList e paneId fileList s = Inr s' \<and>
         events s' = events s @ [paneViewListAddList added k] \<and>
         distinct added \<and>
         set added =
           {f \<in> set fileList. canOpenFile e (fullPath f) \<and> panesHolding s (fullPath f) = []} \<and>
         viewListOf s' k = viewListOf s k @ added \<and>
         (\<forall>k'. k' \<noteq> k \<longrightarrow> viewListOf s' k' = viewListOf s k')"
    by (intro exI [of _ ?s'] exI [of _ "fst ?r"] conjI)
next
  assume "wf_state s" and "getPaneFromPaneId s paneId = PaneObj k p"
  then show "\<exists>t t'. addToPaneViewList e paneId f None False s = Inr t \<and>
              addListToPaneViewList e paneId [f] s = Inr t' \<and> viewLists t' = viewLists t"
    by (rule single_add_like_batch)
next
  assume "getPaneFromPaneId s paneId = Null"
  then show "addListToPaneViewList e paneId fileList s = Inr s"
    by (simp add: addListToPaneViewList_def)
next
  assume "getPaneFromPaneId s paneId = Null"
  then show "addToPaneViewList e paneId f None False s = Inr s"
    by (simp add: addToPaneViewList_def)
qed

theorem batch_add_admits_like_add_witness:
  "wf_state split_state \<and>
   getPaneFromPaneId split_state SECOND_PANE =
     PaneObj SECOND_PANE
       \<lparr>pane_id = SECOND_PANE, viewList = [File ''/d.js''],
        viewListMRUOrder = [File ''/d.js''], currentlyViewedFile = None\<rparr> \<and>
   (\<exists>s' added.
      addListToPaneViewList example_env SECOND_PANE
        [File ''/a.js'', File ''/e.js'', File ''/e.js''] split_state = Inr s' \<and>
      events s' = events split_state @ [paneViewListAddList added SECOND_PANE] \<and>
      distinct added \<and>
      viewListOf s' SECOND_PANE = viewListOf split_state SECOND_PANE @ added \<and>
      viewListOf s' FIRST_PANE = viewListOf split_state FIRST_PANE) \<and>
   addListToPaneViewList example_env SECOND_PANE
     [File ''/a.js'', File ''/e.js'', File ''/e.js''] split_state = Inr batch_state \<and>
   (\<exists>t t'. addToPaneViewList example_env SECOND_PANE (File ''/e.js'') None False split_state = Inr t \<and>
      addListToPaneViewList example_env SECOND_PANE [File ''/e.js''] split_state = Inr t' \<and>
      viewLists t' = viewLists t) \<and>
   getPaneFromPaneId init_state SECOND_PANE = Null \<and>
   addListToPaneViewList example_env SECOND_PANE [File ''/a.js''] init_state = Inr init_state"
proof -
  let ?p2 = "\<lparr>pane_id = SECOND_PANE, viewList = [File ''/d.js''],
        viewListMRUOrder = [File ''/d.js''], currentlyViewedFile = None\<rparr>"
  let ?fs = "[File ''/a.js'', File ''/e.js'', File ''/e.js'']"
  have g: "getPaneFromPaneId split_state SECOND_PANE = PaneObj SECOND_PANE ?p2"
    by (simp add: split_state_def eval_defs FIRST_PANE_def SECOND_PANE_def FOCUSED_PANE_def)
  have n: "getPaneFromPaneId init_state SECOND_PANE = Null"
    by (simp add: eval_defs FIRST_PANE_def SECOND_PANE_def FOCUSED_PANE_def
        objectPrototypeKeys_def)
  have l: "addListToPaneViewList example_env SECOND_PANE ?fs split_state = Inr batch_state"
    by (simp add: split_state_def batch_state_def eval_defs
        FIRST_PANE_def SECOND_PANE_def FOCUSED_PANE_def)
  note T = batch_add_admits_like_add [of split_state SECOND_PANE SECOND_PANE ?p2 example_env ?fs
      "File ''/e.js''"]
  from T wf_split_state g
  have 1: "\<exists>s' added.
      addListToPaneViewList example_env SECOND_PANE ?fs split_state = Inr s' \<and>
      events s' = events split_state @ [paneViewListAddList added SECOND_PANE] \<and>
      distinct added \<and>
      viewListOf s' SECOND_PANE = viewListOf split_state SECOND_PANE @ added \<and>
      viewListOf s' FIRST_PANE = viewListOf split_state FIRST_PANE"
    by (metis pane_constants(1))
  from T wf_split_state g
  have 2: "\<exists>t t'. addToPaneViewList example_env SECOND_PANE (File ''/e.js'') None False split_state = Inr t \<and>
      addListToPaneViewList example_env SECOND_PANE [File ''/e.js''] split_state = Inr t' \<and>
      viewLists t' = viewLists t"
    by blast
  from batch_add_admits_like_add [of init_state SECOND_PANE k p example_env "[File ''/a.js'']" f] n
  have 3: "addListToPaneViewList example_env SECOND_PANE [File ''/a.js''] init_state = Inr init_state"
    by blast
  from wf_split_state g 1 l 2 n 3 show ?thesis by blast
qed

subsection \<open>C5, C7: calls that diverge\<close>

text \<open>
  C5. With one pane in the registry, the lookups answer an unknown pane id with a
  sentinel, but \<^verbatim>\<open>doCloseAll\<close>, \<^verbatim>\<open>doClose\<close> and \<^verbatim>\<open>doCloseList\<close> call a method on the \<^verbatim>\<open>null\<close>
  that \<^verbatim>\<open>_getPaneFromPaneId\<close> returns, which raises a TypeError.
\<close>

theorem close_with_unknown_pane_raises:
  "getPaneIdList init_state = [FIRST_PANE] \<and>
   getPaneViewList init_state SECOND_PANE = Inr None \<and>
   getPaneViewListSize init_state SECOND_PANE = Inr 0 \<and>
   findInPaneViewList init_state SECOND_PANE ''/a.js'' = Inr NoResult \<and>
   getCurrentlyViewedFileForPane init_state SECOND_PANE = Inr None \<and>
   doCloseAll SECOND_PANE init_state = Inl TypeError \<and>
   doClose SECOND_PANE (File ''/a.js'') init_state = Inl TypeError \<and>
   doCloseList SECOND_PANE [File ''/a.js''] init_state = Inl TypeError"
  by (simp add: eval_defs getPaneIdList_def getPaneViewList_def getPaneViewListSize_def
      findInPaneViewList_def doFindInViewList_def getCurrentlyViewedFileForPane_def
      doCloseAll_def doClose_def doCloseList_def
      FIRST_PANE_def SECOND_PANE_def ALL_PANES_def FOCUSED_PANE_def objectPrototypeKeys_def)

text \<open>
  C7. In the initial state the first pane's view list is empty. \<^verbatim>\<open>doCloseAll\<close> and
  \<^verbatim>\<open>doCloseList\<close> remove nothing from it and still send \<^verbatim>\<open>paneViewListRemoveList\<close>, with
  an empty list; \<^verbatim>\<open>removeFromPaneViewList\<close> and \<^verbatim>\<open>doClose\<close> send nothing.
\<close>

theorem close_all_notifies_when_nothing_was_removed:
  "viewListOf init_state FIRST_PANE = [] \<and>
   (\<exists>s'. doCloseAll FIRST_PANE init_state = Inr s' \<and> viewLists s' = viewLists init_state \<and>
      events s' = events init_state @ [paneViewListRemoveList [] FIRST_PANE]) \<and>
   (\<exists>s'. doCloseList FIRST_PANE [File ''/a.js''] init_state = Inr s' \<and>
      viewLists s' = viewLists init_state \<and>
      events s' = events init_state @ [paneViewListRemoveList [] FIRST_PANE]) \<and>
   removeFromPaneViewList FIRST_PANE (File ''/a.js'') False init_state = Inr init_state \<and>
   doClose FIRST_PANE (File ''/a.js'') init_state = Inr init_state"
  by (simp add: eval_defs viewListOf_def viewLists_def doCloseAll_def doCloseList_def
      closeAllIn_def closeListIn_def doRemoveAllViews_def doRemoveViews_def
      removeFromViewList_def clearCurrentIfIn_def removeFromPaneViewList_def
      removeFromPaneViewList'_def doClose_def doRemoveView_def
      FIRST_PANE_def ALL_PANES_def FOCUSED_PANE_def)

end
